theory Spec2Isabelle
  imports Complex_Main "HOL-Library.Word"
begin

unbundle bit_operations_syntax

section \<open>Double-precision values\<close>

text \<open>
  The program computes with C doubles.  They are modelled as reals extended with
  the IEEE special values, so that a division by zero is a value of the model (an
  infinity or a NaN) and not the HOL convention \<open>x / 0 = 0\<close>.  The sign of a zero is
  not tracked: a non-zero value divided by zero gets the sign of the dividend.

  Two sets of operations are defined.  The functions \<open>dadd\<close>, \<open>dsub\<close>, \<open>dmul\<close>
  and \<open>ddiv\<close> compute without rounding; they are used for the coordinates of the
  emitted points, where the model describes the exact value that the program
  approximates.  The operators \<open>+\<close>, \<open>-\<close>, \<open>*\<close> and \<open>/\<close> on the type \<open>dbl\<close>, defined
  further down, round every result to the nearest double; they are used where the
  program takes a decision from the sign of a computed value.
\<close>

datatype dbl = Fin real | PInf | NInf | NaN

fun dneg :: "dbl \<Rightarrow> dbl" where
  "dneg (Fin a) = Fin (- a)"
| "dneg PInf = NInf"
| "dneg NInf = PInf"
| "dneg NaN = NaN"

fun dadd :: "dbl \<Rightarrow> dbl \<Rightarrow> dbl" where
  "dadd (Fin a) (Fin b) = Fin (a + b)"
| "dadd NaN _ = NaN"
| "dadd _ NaN = NaN"
| "dadd PInf NInf = NaN"
| "dadd NInf PInf = NaN"
| "dadd PInf _ = PInf"
| "dadd _ PInf = PInf"
| "dadd NInf _ = NInf"
| "dadd _ NInf = NInf"

definition dsub :: "dbl \<Rightarrow> dbl \<Rightarrow> dbl" where
  "dsub a b = dadd a (dneg b)"

definition inf_of_sign :: "bool \<Rightarrow> dbl" where
  "inf_of_sign positive = (if positive then PInf else NInf)"

fun dmul :: "dbl \<Rightarrow> dbl \<Rightarrow> dbl" where
  "dmul (Fin a) (Fin b) = Fin (a * b)"
| "dmul NaN _ = NaN"
| "dmul _ NaN = NaN"
| "dmul (Fin a) PInf = (if a = 0 then NaN else inf_of_sign (0 < a))"
| "dmul (Fin a) NInf = (if a = 0 then NaN else inf_of_sign (a < 0))"
| "dmul PInf (Fin b) = (if b = 0 then NaN else inf_of_sign (0 < b))"
| "dmul NInf (Fin b) = (if b = 0 then NaN else inf_of_sign (b < 0))"
| "dmul PInf PInf = PInf"
| "dmul NInf NInf = PInf"
| "dmul PInf NInf = NInf"
| "dmul NInf PInf = NInf"

fun ddiv :: "dbl \<Rightarrow> dbl \<Rightarrow> dbl" where
  "ddiv (Fin a) (Fin b) =
     (if b \<noteq> 0 then Fin (a / b)
      else if a = 0 then NaN else inf_of_sign (0 < a))"
| "ddiv NaN _ = NaN"
| "ddiv _ NaN = NaN"
| "ddiv (Fin a) PInf = Fin 0"
| "ddiv (Fin a) NInf = Fin 0"
| "ddiv PInf (Fin b) = inf_of_sign (0 \<le> b)"
| "ddiv NInf (Fin b) = inf_of_sign (b < 0)"
| "ddiv PInf PInf = NaN"
| "ddiv PInf NInf = NaN"
| "ddiv NInf PInf = NaN"
| "ddiv NInf NInf = NaN"

text \<open>The comparison \<open>a < b\<close> of two doubles; it is false when either is a NaN.\<close>

fun dlt :: "dbl \<Rightarrow> dbl \<Rightarrow> bool" where
  "dlt (Fin a) (Fin b) = (a < b)"
| "dlt NaN _ = False"
| "dlt _ NaN = False"
| "dlt PInf _ = False"
| "dlt _ NInf = False"
| "dlt NInf _ = True"
| "dlt _ PInf = True"

section \<open>Rounding to double precision\<close>

text \<open>
  The operations of IEEE 754 binary64 arithmetic in the default rounding mode: the
  result of an operation is the exact result rounded to the nearest number with a
  significand of 53 binary digits, a tie going to the number whose last digit is
  even; results below 2 to the power -1022 in magnitude are rounded to a multiple of
  2 to the power -1074, and results that round to 2 to the power 1024 or more are
  infinities.  Every operation of an expression is rounded on its own, as a compiler
  does that evaluates doubles in double precision and does not fuse a product with
  a sum.

  \<open>bits n\<close> is the number of binary digits of \<open>n\<close>, and \<open>expo x\<close> the exponent of
  the leading binary digit of \<open>x \<noteq> 0\<close>: \<open>2 ^ expo x \<le> |x| < 2 ^ (expo x + 1)\<close>.
\<close>

function bits :: "int \<Rightarrow> int" where
  "bits n = (if n \<le> 0 then 0 else bits (n div 2) + 1)"
  by pat_completeness auto

termination
  by (relation "measure nat") auto

declare bits.simps [simp del]

definition pow2 :: "int \<Rightarrow> real" where
  "pow2 e = (if 0 \<le> e then 2 ^ nat e else 1 / 2 ^ nat (- e))"

definition expo :: "real \<Rightarrow> int" where
  "expo x = (if 1 \<le> \<bar>x\<bar> then bits \<lfloor>\<bar>x\<bar>\<rfloor> - 1 else - bits (\<lceil>1 / \<bar>x\<bar>\<rceil> - 1))"

definition round_even :: "real \<Rightarrow> int" where
  "round_even y =
     (let f = \<lfloor>y\<rfloor>; r = y - of_int f in
      if r < 1 / 2 then f else if 1 / 2 < r then f + 1 else if even f then f else f + 1)"

definition rnd :: "real \<Rightarrow> real" where
  "rnd x =
     (if x = 0 then 0
      else let u = pow2 (max (expo x) (- 1022) - 52)
           in of_int (round_even (x / u)) * u)"

definition dround :: "dbl \<Rightarrow> dbl" where
  "dround d =
     (case d of
        Fin x \<Rightarrow> (let y = rnd x in
                   if y = 0 then Fin 0
                   else if 1024 \<le> expo y then inf_of_sign (0 < y)
                   else Fin y)
      | _ \<Rightarrow> d)"

text \<open>
  The arithmetic and the comparisons of doubles, and \<^verbatim>\<open>fabs\<close>.  A comparison with
  a NaN is false.
\<close>

fun dle :: "dbl \<Rightarrow> dbl \<Rightarrow> bool" where
  "dle (Fin a) (Fin b) = (a \<le> b)"
| "dle NaN _ = False"
| "dle _ NaN = False"
| "dle NInf _ = True"
| "dle _ PInf = True"
| "dle PInf _ = False"
| "dle _ NInf = False"

fun dabs :: "dbl \<Rightarrow> dbl" where
  "dabs (Fin a) = Fin \<bar>a\<bar>"
| "dabs PInf = PInf"
| "dabs NInf = PInf"
| "dabs NaN = NaN"

instantiation dbl :: "{plus, minus, times, inverse, uminus, abs, ord}"
begin

definition plus_dbl :: "dbl \<Rightarrow> dbl \<Rightarrow> dbl" where
  "plus_dbl a b = dround (dadd a b)"

definition minus_dbl :: "dbl \<Rightarrow> dbl \<Rightarrow> dbl" where
  "minus_dbl a b = dround (dsub a b)"

definition times_dbl :: "dbl \<Rightarrow> dbl \<Rightarrow> dbl" where
  "times_dbl a b = dround (dmul a b)"

definition divide_dbl :: "dbl \<Rightarrow> dbl \<Rightarrow> dbl" where
  "divide_dbl a b = dround (ddiv a b)"

definition inverse_dbl :: "dbl \<Rightarrow> dbl" where
  "inverse_dbl a = dround (ddiv (Fin 1) a)"

definition uminus_dbl :: "dbl \<Rightarrow> dbl" where
  "uminus_dbl a = dneg a"

definition abs_dbl :: "dbl \<Rightarrow> dbl" where
  "abs_dbl a = dabs a"

definition less_dbl :: "dbl \<Rightarrow> dbl \<Rightarrow> bool" where
  "less_dbl a b = dlt a b"

definition less_eq_dbl :: "dbl \<Rightarrow> dbl \<Rightarrow> bool" where
  "less_eq_dbl a b = dle a b"

instance ..

end

text \<open>The conversion of an integer to a double.\<close>

definition dbl_of_int :: "int \<Rightarrow> dbl" where
  "dbl_of_int k = dround (Fin (real_of_int k))"

type_synonym point = "dbl \<times> dbl \<times> dbl"
type_synonym rvec = "real \<times> real \<times> real"

text \<open>Component \<open>i\<close> of a C array of three values.\<close>

fun coord :: "'a \<times> 'a \<times> 'a \<Rightarrow> nat \<Rightarrow> 'a" where
  "coord (x, y, z) i = (if i = 0 then x else if i = 1 then y else z)"

section \<open>Edge interpolation\<close>

text \<open>
  Modelled from the spec: the macros \<open>MAX\<close> and \<open>MIN\<close> are defined in a header that
  is not part of the sources at hand; the spec says that they clamp the value to
  \<open>[lo, hi]\<close>, and they are taken to be the conditional expressions
  \<^verbatim>\<open>((A) > (B)) ? (A) : (B)\<close> and \<^verbatim>\<open>((A) < (B)) ? (A) : (B)\<close>.
\<close>

definition MAXd :: "dbl \<Rightarrow> dbl \<Rightarrow> dbl" where
  "MAXd A B = (if dlt B A then A else B)"

definition MINd :: "dbl \<Rightarrow> dbl \<Rightarrow> dbl" where
  "MINd A B = (if dlt A B then A else B)"

text \<open>
  \<^verbatim>\<open>double ReadISurf::interpolate(int v0, int v1, double lo, double hi)\<close>; the
  threshold \<open>thresh\<close> is a member of the class.  The difference \<open>v1 - v0\<close> is an
  integer converted to a double, so the divisor is zero exactly when \<open>v0 = v1\<close>.
\<close>

definition interpolate :: "real \<Rightarrow> int \<Rightarrow> int \<Rightarrow> real \<Rightarrow> real \<Rightarrow> dbl" where
  "interpolate thresh v0 v1 lo hi =
     (let value = dadd (Fin lo)
                    (ddiv (Fin ((hi - lo) * (thresh - real_of_int v0)))
                          (Fin (real_of_int (v1 - v0))));
          value = MAXd value (Fin lo);
          value = MINd value (Fin hi)
      in value)"


section \<open>Marching squares\<close>

text \<open>
  The body of the loop of \<^verbatim>\<open>ReadISurf::marching_squares\<close> for one grid cell with
  corner values \<open>v00\<close> (lower left), \<open>v01\<close> (lower right), \<open>v10\<close> (upper left),
  \<open>v11\<close> (upper right) and bounds \<open>lo\<close>, \<open>hi\<close>.  The 4-bit index \<open>which\<close>
  swaps the last two corners.
\<close>

definition sq_which :: "real \<Rightarrow> int \<Rightarrow> int \<Rightarrow> int \<Rightarrow> int \<Rightarrow> int" where
  "sq_which thresh v00 v01 v10 v11 =
     (let bit0 = (if real_of_int v00 \<le> thresh then 0 else 1);
          bit1 = (if real_of_int v01 \<le> thresh then 0 else 1);
          bit2 = (if real_of_int v11 \<le> thresh then 0 else 1);
          bit3 = (if real_of_int v10 \<le> thresh then 0 else 1)
      in push_bit 3 bit3 + push_bit 2 bit2 + push_bit 1 bit1 + bit0)"

text \<open>
  A point \<open>pt[k]\<close> of the cell: its first two coordinates are assigned in every case,
  the third one is \<open>0.0\<close> throughout.
\<close>

definition pt2 :: "dbl \<Rightarrow> dbl \<Rightarrow> point" where
  "pt2 x y = (x, y, Fin 0)"

text \<open>
  The \<^verbatim>\<open>switch (which)\<close>: the number of segments \<open>nsurf\<close> and the points
  \<open>pt[0 .. 2*nsurf-1]\<close> that the case assigns.
\<close>

definition marching_squares_cell ::
  "real \<Rightarrow> int \<Rightarrow> int \<Rightarrow> int \<Rightarrow> int \<Rightarrow> rvec \<Rightarrow> rvec \<Rightarrow> nat \<times> point list" where
  "marching_squares_cell thresh v00 v01 v10 v11 lo hi =
     (let which = sq_which thresh v00 v01 v10 v11;
          lo0 = coord lo 0; lo1 = coord lo 1; hi0 = coord hi 0; hi1 = coord hi 1;
          ip = interpolate thresh
      in
      if which = 0 then (0, [])
      else if which = 1 then
        (1, [pt2 (Fin lo0) (ip v00 v10 lo1 hi1), pt2 (ip v00 v01 lo0 hi0) (Fin lo1)])
      else if which = 2 then
        (1, [pt2 (ip v00 v01 lo0 hi0) (Fin lo1), pt2 (Fin hi0) (ip v01 v11 lo1 hi1)])
      else if which = 3 then
        (1, [pt2 (Fin lo0) (ip v00 v10 lo1 hi1), pt2 (Fin hi0) (ip v01 v11 lo1 hi1)])
      else if which = 4 then
        (1, [pt2 (Fin hi0) (ip v01 v11 lo1 hi1), pt2 (ip v10 v11 lo0 hi0) (Fin hi1)])
      else if which = 5 then
        (let ave = 0.25 * real_of_int (v00 + v01 + v10 + v11) in
         if thresh < ave then
           (2, [pt2 (Fin lo0) (ip v00 v10 lo1 hi1), pt2 (ip v10 v11 lo0 hi0) (Fin hi1),
                pt2 (Fin hi0) (ip v01 v11 lo1 hi1), pt2 (ip v00 v01 lo0 hi0) (Fin lo1)])
         else
           (2, [pt2 (Fin lo0) (ip v00 v10 lo1 hi1), pt2 (ip v00 v01 lo0 hi0) (Fin lo1),
                pt2 (Fin hi0) (ip v01 v11 lo1 hi1), pt2 (ip v10 v11 lo0 hi0) (Fin hi1)]))
      else if which = 6 then
        (1, [pt2 (ip v00 v01 lo0 hi0) (Fin lo1), pt2 (ip v10 v11 lo0 hi0) (Fin hi1)])
      else if which = 7 then
        (1, [pt2 (Fin lo0) (ip v00 v10 lo1 hi1), pt2 (ip v10 v11 lo0 hi0) (Fin hi1)])
      else if which = 8 then
        (1, [pt2 (ip v10 v11 lo0 hi0) (Fin hi1), pt2 (Fin lo0) (ip v00 v10 lo1 hi1)])
      else if which = 9 then
        (1, [pt2 (ip v10 v11 lo0 hi0) (Fin hi1), pt2 (ip v00 v01 lo0 hi0) (Fin lo1)])
      else if which = 10 then
        (let ave = 0.25 * real_of_int (v00 + v01 + v10 + v11) in
         if thresh < ave then
           (2, [pt2 (ip v00 v01 lo0 hi0) (Fin lo1), pt2 (Fin lo0) (ip v00 v10 lo1 hi1),
                pt2 (ip v10 v11 lo0 hi0) (Fin hi1), pt2 (Fin hi0) (ip v01 v11 lo1 hi1)])
         else
           (2, [pt2 (ip v10 v11 lo0 hi0) (Fin hi1), pt2 (Fin lo0) (ip v00 v10 lo1 hi1),
                pt2 (ip v00 v01 lo0 hi0) (Fin lo1), pt2 (Fin hi0) (ip v01 v11 lo1 hi1)]))
      else if which = 11 then
        (1, [pt2 (ip v10 v11 lo0 hi0) (Fin hi1), pt2 (Fin hi0) (ip v01 v11 lo1 hi1)])
      else if which = 12 then
        (1, [pt2 (Fin hi0) (ip v01 v11 lo1 hi1), pt2 (Fin lo0) (ip v00 v10 lo1 hi1)])
      else if which = 13 then
        (1, [pt2 (Fin hi0) (ip v01 v11 lo1 hi1), pt2 (ip v00 v01 lo0 hi0) (Fin lo1)])
      else if which = 14 then
        (1, [pt2 (ip v00 v01 lo0 hi0) (Fin lo1), pt2 (Fin lo0) (ip v00 v10 lo1 hi1)])
      else (0, []))"

text \<open>
  The segments handed to \<^verbatim>\<open>surf->add_line\<close>: segment \<open>i < nsurf\<close> runs from
  \<open>pt[2*i]\<close> to \<open>pt[2*i+1]\<close>.
\<close>

definition marching_squares_lines ::
  "real \<Rightarrow> int \<Rightarrow> int \<Rightarrow> int \<Rightarrow> int \<Rightarrow> rvec \<Rightarrow> rvec \<Rightarrow> (point \<times> point) list" where
  "marching_squares_lines thresh v00 v01 v10 v11 lo hi =
     (let (nsurf, pt) = marching_squares_cell thresh v00 v01 v10 v11 lo hi
      in map (\<lambda>i. (pt ! (2 * i), pt ! (2 * i + 1))) [0..<nsurf])"

text \<open>
  The points where the iso-line meets the four sides of the cell, for the statement
  of the saddle cases.
\<close>

definition side_left :: "real \<Rightarrow> int \<Rightarrow> int \<Rightarrow> rvec \<Rightarrow> rvec \<Rightarrow> point" where
  "side_left thresh v00 v10 lo hi =
     (Fin (coord lo 0), interpolate thresh v00 v10 (coord lo 1) (coord hi 1), Fin 0)"

definition side_right :: "real \<Rightarrow> int \<Rightarrow> int \<Rightarrow> rvec \<Rightarrow> rvec \<Rightarrow> point" where
  "side_right thresh v01 v11 lo hi =
     (Fin (coord hi 0), interpolate thresh v01 v11 (coord lo 1) (coord hi 1), Fin 0)"

definition side_bottom :: "real \<Rightarrow> int \<Rightarrow> int \<Rightarrow> rvec \<Rightarrow> rvec \<Rightarrow> point" where
  "side_bottom thresh v00 v01 lo hi =
     (interpolate thresh v00 v01 (coord lo 0) (coord hi 0), Fin (coord lo 1), Fin 0)"

definition side_top :: "real \<Rightarrow> int \<Rightarrow> int \<Rightarrow> rvec \<Rightarrow> rvec \<Rightarrow> point" where
  "side_top thresh v10 v11 lo hi =
     (interpolate thresh v10 v11 (coord lo 0) (coord hi 0), Fin (coord hi 1), Fin 0)"

section \<open>Marching cubes: the active cube\<close>

text \<open>
  The members of \<^verbatim>\<open>ReadISurf\<close> that \<^verbatim>\<open>marching_cubes\<close> sets for the cell at hand
  and that its helper methods read: the threshold, the bounds of the cell and the
  eight corner values, named \<open>vzyx\<close> with one binary digit per dimension.
\<close>

record cube =
  thresh :: real
  cell_lo :: rvec
  cell_hi :: rvec
  v000 :: int
  v001 :: int
  v010 :: int
  v011 :: int
  v100 :: int
  v101 :: int
  v110 :: int
  v111 :: int

text \<open>
  The corner values minus the threshold: \<^verbatim>\<open>v000iso = v000 - thresh\<close>, where the
  integer is converted to a double and the difference is rounded.  The field
  \<open>thresh\<close> holds the value of the member \<^verbatim>\<open>thresh\<close>, a double.  The members
  \<open>v000iso\<close> to \<open>v111iso\<close> are declared in a header that is not part of the sources
  at hand and are taken to be doubles, as are the locals that receive their values.
\<close>

definition v000iso :: "cube \<Rightarrow> dbl" where
  "v000iso c = dbl_of_int (v000 c) - Fin (thresh c)"
definition v001iso :: "cube \<Rightarrow> dbl" where
  "v001iso c = dbl_of_int (v001 c) - Fin (thresh c)"
definition v010iso :: "cube \<Rightarrow> dbl" where
  "v010iso c = dbl_of_int (v010 c) - Fin (thresh c)"
definition v011iso :: "cube \<Rightarrow> dbl" where
  "v011iso c = dbl_of_int (v011 c) - Fin (thresh c)"
definition v100iso :: "cube \<Rightarrow> dbl" where
  "v100iso c = dbl_of_int (v100 c) - Fin (thresh c)"
definition v101iso :: "cube \<Rightarrow> dbl" where
  "v101iso c = dbl_of_int (v101 c) - Fin (thresh c)"
definition v110iso :: "cube \<Rightarrow> dbl" where
  "v110iso c = dbl_of_int (v110 c) - Fin (thresh c)"
definition v111iso :: "cube \<Rightarrow> dbl" where
  "v111iso c = dbl_of_int (v111 c) - Fin (thresh c)"

text \<open>
  The sign bits.  Bits 2 and 3 and bits 6 and 7 are swapped with respect to the
  order of the corner values: \<open>bit2\<close> belongs to \<open>v011\<close> and \<open>bit3\<close> to \<open>v010\<close>,
  \<open>bit6\<close> to \<open>v111\<close> and \<open>bit7\<close> to \<open>v110\<close>.
\<close>

definition bit0 :: "cube \<Rightarrow> int" where
  "bit0 c = (if real_of_int (v000 c) \<le> thresh c then 0 else 1)"
definition bit1 :: "cube \<Rightarrow> int" where
  "bit1 c = (if real_of_int (v001 c) \<le> thresh c then 0 else 1)"
definition bit2 :: "cube \<Rightarrow> int" where
  "bit2 c = (if real_of_int (v011 c) \<le> thresh c then 0 else 1)"
definition bit3 :: "cube \<Rightarrow> int" where
  "bit3 c = (if real_of_int (v010 c) \<le> thresh c then 0 else 1)"
definition bit4 :: "cube \<Rightarrow> int" where
  "bit4 c = (if real_of_int (v100 c) \<le> thresh c then 0 else 1)"
definition bit5 :: "cube \<Rightarrow> int" where
  "bit5 c = (if real_of_int (v101 c) \<le> thresh c then 0 else 1)"
definition bit6 :: "cube \<Rightarrow> int" where
  "bit6 c = (if real_of_int (v111 c) \<le> thresh c then 0 else 1)"
definition bit7 :: "cube \<Rightarrow> int" where
  "bit7 c = (if real_of_int (v110 c) \<le> thresh c then 0 else 1)"

definition mc_which :: "cube \<Rightarrow> int" where
  "mc_which c =
     push_bit 7 (bit7 c) + push_bit 6 (bit6 c) + push_bit 5 (bit5 c) + push_bit 4 (bit4 c) +
     push_bit 3 (bit3 c) + push_bit 2 (bit2 c) + push_bit 1 (bit1 c) + bit0 c"

section \<open>Marching cubes: the vertices of a tiling\<close>

text \<open>
  \<^verbatim>\<open>ReadISurf::add_triangle\<close> turns the edge indices \<open>trig[0 .. 3*n-1]\<close> of a
  tiling into the points \<open>pt[0 .. 3*n-1]\<close>.  The cases 0 to 11 of its switch put the
  point on one edge of the cell.
\<close>

definition edge_vertex :: "cube \<Rightarrow> int \<Rightarrow> point option" where
  "edge_vertex c e =
     (let lo = cell_lo c; hi = cell_hi c; ip = interpolate (thresh c) in
      if e = 0 then
        Some (ip (v000 c) (v001 c) (coord lo 0) (coord hi 0), Fin (coord lo 1), Fin (coord lo 2))
      else if e = 1 then
        Some (Fin (coord hi 0), ip (v001 c) (v011 c) (coord lo 1) (coord hi 1), Fin (coord lo 2))
      else if e = 2 then
        Some (ip (v010 c) (v011 c) (coord lo 0) (coord hi 0), Fin (coord hi 1), Fin (coord lo 2))
      else if e = 3 then
        Some (Fin (coord lo 0), ip (v000 c) (v010 c) (coord lo 1) (coord hi 1), Fin (coord lo 2))
      else if e = 4 then
        Some (ip (v100 c) (v101 c) (coord lo 0) (coord hi 0), Fin (coord lo 1), Fin (coord hi 2))
      else if e = 5 then
        Some (Fin (coord hi 0), ip (v101 c) (v111 c) (coord lo 1) (coord hi 1), Fin (coord hi 2))
      else if e = 6 then
        Some (ip (v110 c) (v111 c) (coord lo 0) (coord hi 0), Fin (coord hi 1), Fin (coord hi 2))
      else if e = 7 then
        Some (Fin (coord lo 0), ip (v100 c) (v110 c) (coord lo 1) (coord hi 1), Fin (coord hi 2))
      else if e = 8 then
        Some (Fin (coord lo 0), Fin (coord lo 1), ip (v000 c) (v100 c) (coord lo 2) (coord hi 2))
      else if e = 9 then
        Some (Fin (coord hi 0), Fin (coord lo 1), ip (v001 c) (v101 c) (coord lo 2) (coord hi 2))
      else if e = 10 then
        Some (Fin (coord hi 0), Fin (coord hi 1), ip (v011 c) (v111 c) (coord lo 2) (coord hi 2))
      else if e = 11 then
        Some (Fin (coord lo 0), Fin (coord hi 1), ip (v010 c) (v110 c) (coord lo 2) (coord hi 2))
      else None)"

text \<open>
  Case 12 of the switch: twelve conditional statements, one per edge of the cube,
  each of which counts the edge in \<open>u\<close> and adds a point to \<open>pt[t]\<close> when the
  exclusive or of two sign bits is not zero; then \<open>pt[t]\<close> is divided by \<open>u\<close>.
  The list has the condition and the point of each statement, in the order of the
  source.
\<close>

definition centre_terms :: "cube \<Rightarrow> (bool \<times> point) list" where
  "centre_terms c =
     (let lo = cell_lo c; hi = cell_hi c; ip = interpolate (thresh c) in
      [(bit0 c XOR bit1 c \<noteq> 0,
          (ip (v000 c) (v001 c) (coord lo 0) (coord hi 0), Fin (coord lo 1), Fin (coord lo 2))),
       (bit1 c XOR bit2 c \<noteq> 0,
          (Fin (coord hi 0), ip (v001 c) (v011 c) (coord lo 1) (coord hi 1), Fin (coord lo 2))),
       (bit2 c XOR bit3 c \<noteq> 0,
          (ip (v010 c) (v011 c) (coord lo 0) (coord hi 0), Fin (coord hi 1), Fin (coord lo 2))),
       (bit3 c XOR bit0 c \<noteq> 0,
          (Fin (coord lo 0), ip (v000 c) (v010 c) (coord lo 1) (coord hi 1), Fin (coord lo 2))),
       (bit4 c XOR bit5 c \<noteq> 0,
          (ip (v100 c) (v101 c) (coord lo 0) (coord hi 0), Fin (coord lo 1), Fin (coord hi 2))),
       (bit5 c XOR bit6 c \<noteq> 0,
          (Fin (coord hi 0), ip (v101 c) (v111 c) (coord lo 1) (coord hi 1), Fin (coord hi 2))),
       (bit6 c XOR bit7 c \<noteq> 0,
          (ip (v110 c) (v111 c) (coord lo 0) (coord hi 0), Fin (coord hi 1), Fin (coord hi 2))),
       (bit7 c XOR bit4 c \<noteq> 0,
          (Fin (coord lo 0), ip (v100 c) (v110 c) (coord lo 1) (coord hi 1), Fin (coord hi 2))),
       (bit0 c XOR bit4 c \<noteq> 0,
          (Fin (coord lo 0), Fin (coord lo 1), ip (v000 c) (v100 c) (coord lo 2) (coord hi 2))),
       (bit1 c XOR bit5 c \<noteq> 0,
          (Fin (coord hi 0), Fin (coord lo 1), ip (v001 c) (v101 c) (coord lo 2) (coord hi 2))),
       (bit2 c XOR bit6 c \<noteq> 0,
          (Fin (coord hi 0), Fin (coord hi 1), ip (v011 c) (v111 c) (coord lo 2) (coord hi 2))),
       (bit3 c XOR bit7 c \<noteq> 0,
          (Fin (coord lo 0), Fin (coord hi 1), ip (v010 c) (v110 c) (coord lo 2) (coord hi 2)))])"

fun padd :: "point \<Rightarrow> point \<Rightarrow> point" where
  "padd (x, y, z) (a, b, c) = (dadd x a, dadd y b, dadd z c)"

fun pdiv :: "point \<Rightarrow> dbl \<Rightarrow> point" where
  "pdiv (x, y, z) d = (ddiv x d, ddiv y d, ddiv z d)"

definition centre_step :: "bool \<times> point \<Rightarrow> nat \<times> point \<Rightarrow> nat \<times> point" where
  "centre_step bp uq = (if fst bp then (fst uq + 1, padd (snd uq) (snd bp)) else uq)"

definition centre_vertex :: "cube \<Rightarrow> point" where
  "centre_vertex c =
     (let (u, q) = fold centre_step (centre_terms c) (0, (Fin 0, Fin 0, Fin 0))
      in pdiv q (Fin (real u)))"

text \<open>
  The point that one pass of the loop of \<^verbatim>\<open>add_triangle\<close> stores in \<open>pt[t]\<close>;
  \<open>None\<close> is the \<^verbatim>\<open>default\<close> branch, which leaves \<open>pt[t]\<close> as it is.
\<close>

definition tile_vertex :: "cube \<Rightarrow> int \<Rightarrow> point option" where
  "tile_vertex c e = (if e = 12 then Some (centre_vertex c) else edge_vertex c e)"

definition add_triangle :: "cube \<Rightarrow> int list \<Rightarrow> nat \<Rightarrow> point list \<Rightarrow> nat \<times> point list" where
  "add_triangle c trig n pt =
     (n, fold (\<lambda>t pt. case tile_vertex c (trig ! t) of Some p \<Rightarrow> pt[t := p] | None \<Rightarrow> pt)
           [0..<3 * n] pt)"

text \<open>
  The cube edge with index \<open>e\<close> joins two corners; they are given by their positions
  in the array of corner values (\<open>x\<close> fastest, then \<open>y\<close>, then \<open>z\<close>).  The sign
  bit of a corner says whether its value is above the threshold.
\<close>

definition corner_value :: "cube \<Rightarrow> nat \<Rightarrow> int" where
  "corner_value c k = [v000 c, v001 c, v010 c, v011 c, v100 c, v101 c, v110 c, v111 c] ! k"

definition corner_position :: "cube \<Rightarrow> nat \<Rightarrow> rvec" where
  "corner_position c k =
     (coord (if k mod 2 = 0 then cell_lo c else cell_hi c) 0,
      coord (if (k div 2) mod 2 = 0 then cell_lo c else cell_hi c) 1,
      coord (if (k div 4) mod 2 = 0 then cell_lo c else cell_hi c) 2)"

definition sign_bit :: "cube \<Rightarrow> nat \<Rightarrow> bool" where
  "sign_bit c k = (thresh c < real_of_int (corner_value c k))"

definition edge_corners :: "nat \<Rightarrow> nat \<times> nat" where
  "edge_corners e = [(0, 1), (1, 3), (2, 3), (0, 2), (4, 5), (5, 7), (6, 7), (4, 6),
                     (0, 4), (1, 5), (3, 7), (2, 6)] ! e"

definition crossing :: "cube \<Rightarrow> nat \<Rightarrow> bool" where
  "crossing c e = (sign_bit c (fst (edge_corners e)) \<noteq> sign_bit c (snd (edge_corners e)))"

text \<open>A point with finite coordinates, and the mean of a list of such points.\<close>

fun fin3 :: "rvec \<Rightarrow> point" where
  "fin3 (x, y, z) = (Fin x, Fin y, Fin z)"

definition vmean :: "rvec list \<Rightarrow> rvec" where
  "vmean ps =
     (sum_list (map (\<lambda>p. coord p 0) ps) / real (length ps),
      sum_list (map (\<lambda>p. coord p 1) ps) / real (length ps),
      sum_list (map (\<lambda>p. coord p 2) ps) / real (length ps))"

text \<open>
  A point lies on an edge of the box \<open>[lo, hi]\<close> when two of its coordinates are
  coordinates of faces of the box and the third one lies between the bounds, and on
  the segment between two points when it is a convex combination of them.
\<close>

fun on_box_edge :: "rvec \<Rightarrow> rvec \<Rightarrow> rvec \<Rightarrow> bool" where
  "on_box_edge (lx, ly, lz) (hx, hy, hz) (x, y, z) =
     ((lx \<le> x \<and> x \<le> hx \<and> (y = ly \<or> y = hy) \<and> (z = lz \<or> z = hz)) \<or>
      ((x = lx \<or> x = hx) \<and> ly \<le> y \<and> y \<le> hy \<and> (z = lz \<or> z = hz)) \<or>
      ((x = lx \<or> x = hx) \<and> (y = ly \<or> y = hy) \<and> lz \<le> z \<and> z \<le> hz))"

fun between :: "rvec \<Rightarrow> rvec \<Rightarrow> rvec \<Rightarrow> bool" where
  "between (ax, ay, az) (bx, by, bz) (x, y, z) =
     (min ax bx \<le> x \<and> x \<le> max ax bx \<and> min ay by \<le> y \<and> y \<le> max ay by \<and>
      min az bz \<le> z \<and> z \<le> max az bz)"

fun unfin3 :: "point \<Rightarrow> rvec" where
  "unfin3 (Fin x, Fin y, Fin z) = (x, y, z)"
| "unfin3 _ = (0, 0, 0)"

fun vadd :: "rvec \<Rightarrow> rvec \<Rightarrow> rvec" where
  "vadd (x, y, z) (a, b, c) = (x + a, y + b, z + c)"

definition vsum :: "rvec list \<Rightarrow> rvec" where
  "vsum ps =
     (sum_list (map (\<lambda>p. coord p 0) ps), sum_list (map (\<lambda>p. coord p 1) ps),
      sum_list (map (\<lambda>p. coord p 2) ps))"

section \<open>Failures\<close>

text \<open>
  The ways in which the program stops: the calls of \<^verbatim>\<open>error->all\<close> and
  \<^verbatim>\<open>error->one\<close>, which abort the run.  \<open>Undefined\<close> stands for a run that the
  text of the program does not determine or that does not return: the use of a
  variable that has not been assigned, a division that has no result, a loop that
  does not end.
\<close>

datatype error =
    BoundaryNotZero      \<comment> \<open>Grid boundary value != 0\<close>
  | NonPairedFace        \<comment> \<open>Some cell faces do not have zero or 2 triangles\<close>
  | InvalidNeighbor      \<comment> \<open>Invalid neighbor cell in cleanup MC()\<close>
  | MissingSurfOnCell    \<comment> \<open>Could not find surf in cleanup MC\<close>
  | MovedTriNotFound     \<comment> \<open>Did not find moved tri in cleanup MC()\<close>
  | InvalidFaceCode      \<comment> \<open>Invalid face code\<close>
  | Undefined

section \<open>Marching cubes: the face test\<close>

text \<open>The constant \<^verbatim>\<open>1.0e-16\<close> is the double nearest to that number.\<close>

definition EPSILON :: dbl where
  "EPSILON = dround (Fin (1 / 10 ^ 16))"

text \<open>
  The \<^verbatim>\<open>switch (face)\<close> of \<^verbatim>\<open>ReadISurf::test_face\<close>, which selects the four
  values \<open>A\<close>, \<open>B\<close>, \<open>C\<close>, \<open>D\<close>; \<open>None\<close> is the \<^verbatim>\<open>default\<close> branch.
\<close>

definition face_values :: "cube \<Rightarrow> int \<Rightarrow> (dbl \<times> dbl \<times> dbl \<times> dbl) option" where
  "face_values c face =
     (if face = -1 \<or> face = 1 then Some (v000iso c, v100iso c, v101iso c, v001iso c)
      else if face = -2 \<or> face = 2 then Some (v001iso c, v101iso c, v111iso c, v011iso c)
      else if face = -3 \<or> face = 3 then Some (v011iso c, v111iso c, v110iso c, v010iso c)
      else if face = -4 \<or> face = 4 then Some (v010iso c, v110iso c, v100iso c, v000iso c)
      else if face = -5 \<or> face = 5 then Some (v000iso c, v010iso c, v011iso c, v001iso c)
      else if face = -6 \<or> face = 6 then Some (v100iso c, v110iso c, v111iso c, v101iso c)
      else None)"

definition test_face :: "cube \<Rightarrow> int \<Rightarrow> error + bool" where
  "test_face c face =
     (case face_values c face of
        None \<Rightarrow> Inl InvalidFaceCode
      | Some (A, B, C, D) \<Rightarrow>
          if \<bar>A * C - B * D\<bar> < EPSILON then Inr (0 \<le> face)
          else Inr (Fin 0 \<le> dbl_of_int face * A * (A * C - B * D)))"

text \<open>
  The corners of the cube face with code \<open>f\<close>, by their positions in the array of
  corner values, and digit \<open>d\<close> of a corner position (0 for \<open>x\<close>, 1 for \<open>y\<close>,
  2 for \<open>z\<close>).
\<close>

definition face_corners :: "nat \<Rightarrow> nat list" where
  "face_corners f =
     [[], [0, 4, 5, 1], [1, 5, 7, 3], [3, 7, 6, 2], [2, 6, 4, 0], [0, 2, 3, 1], [4, 6, 7, 5]] ! f"

definition corner_digit :: "nat \<Rightarrow> nat \<Rightarrow> nat" where
  "corner_digit k d = (k div 2 ^ d) mod 2"

definition corner_iso :: "cube \<Rightarrow> nat \<Rightarrow> dbl" where
  "corner_iso c k = dbl_of_int (corner_value c k) - Fin (thresh c)"

section \<open>Marching cubes: the modified interior test\<close>

text \<open>
  \<^verbatim>\<open>ReadISurf::interior_ambiguity\<close>.  The variable \<open>edge\<close> is declared without a
  value; \<open>None\<close> says that none of the four statements of the case has assigned it.
\<close>

definition interior_ambiguity :: "cube \<Rightarrow> int \<Rightarrow> int \<Rightarrow> int option" where
  "interior_ambiguity c amb_face s =
     (let edge = None in
      if amb_face = 1 \<or> amb_face = 3 then
        (let edge = (if Fin 0 < v001iso c * dbl_of_int s \<and> Fin 0 < v110iso c * dbl_of_int s
                     then Some 4 else edge);
             edge = (if Fin 0 < v000iso c * dbl_of_int s \<and> Fin 0 < v111iso c * dbl_of_int s
                     then Some 5 else edge);
             edge = (if Fin 0 < v010iso c * dbl_of_int s \<and> Fin 0 < v101iso c * dbl_of_int s
                     then Some 6 else edge);
             edge = (if Fin 0 < v011iso c * dbl_of_int s \<and> Fin 0 < v100iso c * dbl_of_int s
                     then Some 7 else edge)
         in edge)
      else if amb_face = 2 \<or> amb_face = 4 then
        (let edge = (if Fin 0 < v001iso c * dbl_of_int s \<and> Fin 0 < v110iso c * dbl_of_int s
                     then Some 0 else edge);
             edge = (if Fin 0 < v011iso c * dbl_of_int s \<and> Fin 0 < v100iso c * dbl_of_int s
                     then Some 1 else edge);
             edge = (if Fin 0 < v010iso c * dbl_of_int s \<and> Fin 0 < v101iso c * dbl_of_int s
                     then Some 2 else edge);
             edge = (if Fin 0 < v000iso c * dbl_of_int s \<and> Fin 0 < v111iso c * dbl_of_int s
                     then Some 3 else edge)
         in edge)
      else if amb_face = 5 \<or> amb_face = 6 \<or> amb_face = 0 then
        (let edge = (if Fin 0 < v000iso c * dbl_of_int s \<and> Fin 0 < v111iso c * dbl_of_int s
                     then Some 8 else edge);
             edge = (if Fin 0 < v001iso c * dbl_of_int s \<and> Fin 0 < v110iso c * dbl_of_int s
                     then Some 9 else edge);
             edge = (if Fin 0 < v011iso c * dbl_of_int s \<and> Fin 0 < v100iso c * dbl_of_int s
                     then Some 10 else edge);
             edge = (if Fin 0 < v010iso c * dbl_of_int s \<and> Fin 0 < v101iso c * dbl_of_int s
                     then Some 11 else edge)
         in edge)
      else edge)"

text \<open>
  The twelve cases of \<^verbatim>\<open>ReadISurf::interior_ambiguity_verification\<close> differ in
  the coefficients \<open>a\<close> and \<open>b\<close> and in the corner values that \<open>At\<close>, \<open>Bt\<close>,
  \<open>Ct\<close>, \<open>Dt\<close> interpolate; what they do with them is the same text in each case
  and is written once here.  A pair \<open>(p, q)\<close> stands for the assignment
  \<^verbatim>\<open>At = p + (q - p) * t\<close>.  All values are doubles and every operation is
  rounded; the quotient \<open>t\<close> is an infinity or a NaN when \<open>a\<close> is zero.  When
  \<open>verify\<close> is neither positive nor negative the case ends with \<^verbatim>\<open>break\<close> and the
  function returns 1.
\<close>

definition lerp :: "dbl \<times> dbl \<Rightarrow> dbl \<Rightarrow> dbl" where
  "lerp pq t = fst pq + (snd pq - fst pq) * t"

definition amb_verify ::
  "dbl \<Rightarrow> dbl \<Rightarrow> dbl \<times> dbl \<Rightarrow> dbl \<times> dbl \<Rightarrow> dbl \<times> dbl \<Rightarrow> dbl \<times> dbl \<Rightarrow> int" where
  "amb_verify a b A B C D =
     (if Fin 0 < a then 1
      else
        let t = - b / (Fin 2 * a) in
        if t < Fin 0 \<or> Fin 1 < t then 1
        else
          let At = lerp A t; Bt = lerp B t; Ct = lerp C t; Dt = lerp D t;
              verify = At * Ct - Bt * Dt
          in if Fin 0 < verify then 0
             else if verify < Fin 0 then 1
             else 1)"

definition interior_ambiguity_verification :: "cube \<Rightarrow> int \<Rightarrow> int" where
  "interior_ambiguity_verification c edge =
     (
      if edge = 0 then
        amb_verify
          ((v000iso c - v001iso c) * (v110iso c - v111iso c) - (v100iso c
           - v101iso c) * (v010iso c - v011iso c))
          (v111iso c * (v000iso c - v001iso c) + v001iso c * (v110iso c
           - v111iso c) - v011iso c * (v100iso c - v101iso c)
           - v101iso c * (v010iso c - v011iso c))
          (v001iso c, v000iso c) (v101iso c, v100iso c)
          (v111iso c, v110iso c) (v011iso c, v010iso c)
      else if edge = 1 then
        amb_verify
          ((v010iso c - v011iso c) * (v100iso c - v101iso c) - (v000iso c
           - v001iso c) * (v110iso c - v111iso c))
          (v101iso c * (v010iso c - v011iso c) + v011iso c * (v100iso c
           - v101iso c) - v111iso c * (v000iso c - v001iso c)
           - v001iso c * (v110iso c - v111iso c))
          (v011iso c, v010iso c) (v001iso c, v000iso c)
          (v101iso c, v100iso c) (v111iso c, v110iso c)
      else if edge = 2 then
        amb_verify
          ((v011iso c - v010iso c) * (v101iso c - v100iso c) - (v111iso c
           - v110iso c) * (v001iso c - v000iso c))
          (v100iso c * (v011iso c - v010iso c) + v010iso c * (v101iso c
           - v100iso c) - v000iso c * (v111iso c - v110iso c)
           - v110iso c * (v001iso c - v000iso c))
          (v010iso c, v011iso c) (v110iso c, v111iso c)
          (v100iso c, v101iso c) (v000iso c, v001iso c)
      else if edge = 3 then
        amb_verify
          ((v001iso c - v000iso c) * (v111iso c - v110iso c) - (v011iso c
           - v010iso c) * (v101iso c - v100iso c))
          (v110iso c * (v001iso c - v000iso c) + v000iso c * (v111iso c
           - v110iso c) - v100iso c * (v011iso c - v010iso c)
           - v010iso c * (v101iso c - v100iso c))
          (v000iso c, v001iso c) (v010iso c, v011iso c)
          (v110iso c, v111iso c) (v100iso c, v101iso c)
      else if edge = 4 then
        amb_verify
          ((v011iso c - v001iso c) * (v110iso c - v100iso c) - (v010iso c
           - v000iso c) * (v111iso c - v101iso c))
          (v100iso c * (v011iso c - v001iso c) + v001iso c * (v110iso c
           - v100iso c) - v101iso c * (v010iso c - v000iso c)
           - v000iso c * (v111iso c - v101iso c))
          (v001iso c, v011iso c) (v000iso c, v010iso c)
          (v100iso c, v110iso c) (v101iso c, v111iso c)
      else if edge = 5 then
        amb_verify
          ((v010iso c - v000iso c) * (v111iso c - v101iso c) - (v011iso c
           - v001iso c) * (v110iso c - v100iso c))
          (v101iso c * (v010iso c - v000iso c) + v000iso c * (v111iso c
           - v101iso c) - v100iso c * (v011iso c - v001iso c)
           - v001iso c * (v110iso c - v100iso c))
          (v000iso c, v010iso c) (v001iso c, v011iso c)
          (v101iso c, v111iso c) (v100iso c, v110iso c)
      else if edge = 6 then
        amb_verify
          ((v000iso c - v010iso c) * (v101iso c - v111iso c) - (v100iso c
           - v110iso c) * (v001iso c - v011iso c))
          (v111iso c * (v000iso c - v010iso c) + v010iso c * (v101iso c
           - v111iso c) - v011iso c * (v100iso c - v110iso c)
           - v110iso c * (v001iso c - v011iso c))
          (v010iso c, v000iso c) (v110iso c, v100iso c)
          (v111iso c, v101iso c) (v011iso c, v001iso c)
      else if edge = 7 then
        amb_verify
          ((v001iso c - v011iso c) * (v100iso c - v110iso c) - (v000iso c
           - v010iso c) * (v101iso c - v111iso c))
          (v110iso c * (v001iso c - v011iso c) + v011iso c * (v100iso c
           - v110iso c) - v111iso c * (v000iso c - v010iso c)
           - v010iso c * (v101iso c - v111iso c))
          (v011iso c, v001iso c) (v010iso c, v000iso c)
          (v110iso c, v100iso c) (v111iso c, v101iso c)
      else if edge = 8 then
        amb_verify
          ((v100iso c - v000iso c) * (v111iso c - v011iso c) - (v110iso c
           - v010iso c) * (v101iso c - v001iso c))
          (v011iso c * (v100iso c - v000iso c) + v000iso c * (v111iso c
           - v011iso c) - v001iso c * (v110iso c - v010iso c)
           - v010iso c * (v101iso c - v001iso c))
          (v000iso c, v100iso c) (v010iso c, v110iso c)
          (v011iso c, v111iso c) (v001iso c, v101iso c)
      else if edge = 9 then
        amb_verify
          ((v101iso c - v001iso c) * (v110iso c - v010iso c) - (v100iso c
           - v000iso c) * (v111iso c - v011iso c))
          (v010iso c * (v101iso c - v001iso c) + v001iso c * (v110iso c
           - v010iso c) - v011iso c * (v100iso c - v000iso c)
           - v000iso c * (v111iso c - v011iso c))
          (v001iso c, v101iso c) (v000iso c, v100iso c)
          (v010iso c, v110iso c) (v011iso c, v111iso c)
      else if edge = 10 then
        amb_verify
          ((v111iso c - v011iso c) * (v100iso c - v000iso c) - (v101iso c
           - v001iso c) * (v110iso c - v010iso c))
          (v000iso c * (v111iso c - v011iso c) + v011iso c * (v100iso c
           - v000iso c) - v010iso c * (v101iso c - v001iso c)
           - v001iso c * (v110iso c - v010iso c))
          (v011iso c, v111iso c) (v001iso c, v101iso c)
          (v000iso c, v100iso c) (v010iso c, v110iso c)
      else if edge = 11 then
        amb_verify
          ((v110iso c - v010iso c) * (v101iso c - v001iso c) - (v111iso c
           - v011iso c) * (v100iso c - v000iso c))
          (v001iso c * (v110iso c - v010iso c) + v010iso c * (v101iso c
           - v001iso c) - v000iso c * (v111iso c - v011iso c)
           - v011iso c * (v100iso c - v000iso c))
          (v010iso c, v110iso c) (v011iso c, v111iso c)
          (v001iso c, v101iso c) (v000iso c, v100iso c)
      else 1)"

text \<open>
  The case tables of the marching cubes algorithm are defined in a header that is
  not part of the sources at hand.  The entries that the functions below read are
  parameters of the model: \<open>test4 tb config\<close> stands for \<^verbatim>\<open>test4[config]\<close> and
  \<open>test6 tb config i\<close> for \<^verbatim>\<open>test6[config][i]\<close>.
\<close>

record tables =
  test4 :: "nat \<Rightarrow> int"
  test6 :: "nat \<Rightarrow> nat \<Rightarrow> int"
  test10 :: "nat \<Rightarrow> nat \<Rightarrow> int"
  test12 :: "nat \<Rightarrow> nat \<Rightarrow> int"

text \<open>
  One ambiguous face of \<^verbatim>\<open>ReadISurf::modified_test_interior\<close>: the two
  statements \<^verbatim>\<open>edge = interior_ambiguity(amb_face, s)\<close> and
  \<^verbatim>\<open>inter_amb += interior_ambiguity_verification(edge)\<close>.
\<close>

definition face_vote :: "cube \<Rightarrow> int \<Rightarrow> int \<Rightarrow> error + int" where
  "face_vote c amb_face s =
     (case interior_ambiguity c amb_face s of
        None \<Rightarrow> Inl Undefined
      | Some edge \<Rightarrow> Inr (interior_ambiguity_verification c edge))"

definition add_votes :: "error + int \<Rightarrow> error + int \<Rightarrow> error + int" where
  "add_votes x y =
     (case x of Inl e \<Rightarrow> Inl e
      | Inr m \<Rightarrow> (case y of Inl e \<Rightarrow> Inl e | Inr n \<Rightarrow> Inr (m + n)))"

definition inter_amb_result :: "error + int \<Rightarrow> error + bool" where
  "inter_amb_result x =
     (case x of Inl e \<Rightarrow> Inl e
      | Inr inter_amb \<Rightarrow> if inter_amb = 0 then Inr False else Inr True)"

definition modified_test_interior :: "tables \<Rightarrow> nat \<Rightarrow> cube \<Rightarrow> int \<Rightarrow> int \<Rightarrow> error + bool" where
  "modified_test_interior tb config c s icase =
     (if icase = 4 then
        inter_amb_result
          (add_votes (add_votes (add_votes (Inr 0) (face_vote c 1 s)) (face_vote c 2 s))
             (face_vote c 5 s))
      else if icase = 6 then
        inter_amb_result (face_vote c \<bar>test6 tb config 0\<bar> s)
      else if icase = 7 then
        (let s = s * - 1 in
         inter_amb_result
           (add_votes (add_votes (add_votes (Inr 0) (face_vote c 1 s)) (face_vote c 2 s))
              (face_vote c 5 s)))
      else if icase = 10 then
        inter_amb_result (face_vote c \<bar>test10 tb config 0\<bar> s)
      else if icase = 12 then
        inter_amb_result
          (add_votes (add_votes (Inr 0) (face_vote c \<bar>test12 tb config 0\<bar> s))
             (face_vote c \<bar>test12 tb config 1\<bar> s))
      else Inr True)"




text \<open>
  For the statement of the modified interior test: the ambiguous faces that
  \<^verbatim>\<open>modified_test_interior\<close> visits in each of its cases, the sign with which it
  visits them (case 7 negates \<open>s\<close>), the result of the verification for one face,
  the sum of these results, and the value of \<open>verify = At * Ct - Bt * Dt\<close> at a
  finite \<open>t\<close>.
\<close>

definition ambiguous_faces :: "tables \<Rightarrow> nat \<Rightarrow> int \<Rightarrow> int list" where
  "ambiguous_faces tb config icase =
     (if icase = 4 \<or> icase = 7 then [1, 2, 5]
      else if icase = 6 then [\<bar>test6 tb config 0\<bar>]
      else if icase = 10 then [\<bar>test10 tb config 0\<bar>]
      else if icase = 12 then [\<bar>test12 tb config 0\<bar>, \<bar>test12 tb config 1\<bar>]
      else [])"

definition vote_sign :: "int \<Rightarrow> int \<Rightarrow> int" where
  "vote_sign s icase = (if icase = 7 then - s else s)"








text \<open>
  Two cubes for the face test.  In the first one the threshold is 127.5, and all the
  values that the test computes are exact.  In the second one the threshold is the
  double nearest to 127.2; there the two products \<open>A * C\<close> and \<open>B * D\<close> of face 1
  round to the same double.
\<close>

definition example_cube_face :: cube where
  "example_cube_face =
     \<lparr>thresh = 255 / 2, cell_lo = (0, 0, 0), cell_hi = (1, 1, 1),
      v000 = 255, v001 = 0, v010 = 0, v011 = 0, v100 = 0, v101 = 200, v110 = 0, v111 = 0\<rparr>"

definition example_cube_rounded :: cube where
  "example_cube_rounded =
     \<lparr>thresh = 8950904259398861 / 2 ^ 46, cell_lo = (0, 0, 0), cell_hi = (1, 1, 1),
      v000 = 161, v001 = 83, v010 = 0, v011 = 0, v100 = 31, v101 = 253, v110 = 0, v111 = 0\<rparr>"
section \<open>Ingestion of the corner values\<close>

text \<open>
  \<^verbatim>\<open>ReadISurf::assign_corners(int n, bigint offset, uint8_t *buf)\<close> stores the
  samples \<open>buf[0 .. n-1]\<close>, which are the lattice points \<open>offset\<close> to
  \<open>offset + n - 1\<close> in the order of the file.

  The variables of type \<^verbatim>\<open>int\<close> hold 32 bits and those of type \<^verbatim>\<open>bigint\<close> 64 bits.
  An arithmetic result that does not fit is taken modulo the size of the type, which
  is what the machine instructions do; \<open>wrap32\<close> and \<open>wrap64\<close> are the values of an
  unbounded integer in the two types.  The operators \<^verbatim>\<open>/\<close> and \<^verbatim>\<open>%\<close> round the
  quotient towards zero.  A division by zero, and the division of the smallest
  64-bit integer by \<open>-1\<close>, have no result.
\<close>

definition wrap32 :: "int \<Rightarrow> int" where
  "wrap32 k = (k + 2 ^ 31) mod 2 ^ 32 - 2 ^ 31"

definition wrap64 :: "int \<Rightarrow> int" where
  "wrap64 k = (k + 2 ^ 63) mod 2 ^ 64 - 2 ^ 63"

definition cdiv :: "int \<Rightarrow> int \<Rightarrow> int" where
  "cdiv a b = sgn a * sgn b * (\<bar>a\<bar> div \<bar>b\<bar>)"

definition cmod :: "int \<Rightarrow> int \<Rightarrow> int" where
  "cmod a b = a - b * cdiv a b"

definition no_quotient :: "int \<Rightarrow> int \<Rightarrow> bool" where
  "no_quotient a b \<longleftrightarrow> b = 0 \<or> (a = - (2 ^ 63) \<and> b = - 1)"

text \<open>
  The lattice coordinates \<open>pix\<close>, \<open>piy\<close>, \<open>piz\<close> of a point index.  The sums
  \<open>nx+1\<close> and \<open>ny+1\<close> and their product \<open>(nx+1)*(ny+1)\<close> are computed in the type
  \<^verbatim>\<open>int\<close> and then converted to the type of \<open>pointindex\<close>; the results of the
  three lines are converted to \<^verbatim>\<open>int\<close>.
\<close>

definition point_coords :: "int \<Rightarrow> int \<Rightarrow> int \<Rightarrow> error + int \<times> int \<times> int" where
  "point_coords nx ny pointindex =
     (let nx1 = wrap32 (nx + 1); ny1 = wrap32 (ny + 1); nxy = wrap32 (nx1 * ny1) in
      if no_quotient pointindex nx1 \<or> no_quotient (cdiv pointindex nx1) ny1 \<or>
         no_quotient pointindex nxy
      then Inl Undefined
      else Inr (wrap32 (cmod pointindex nx1),
                wrap32 (cmod (cdiv pointindex nx1) ny1),
                wrap32 (cdiv pointindex nxy)))"

text \<open>The value of \<open>zeroflag\<close> for a sample that is not zero.\<close>

definition zeroflag :: "int \<Rightarrow> int \<Rightarrow> int \<Rightarrow> int \<Rightarrow> int \<times> int \<times> int \<Rightarrow> bool" where
  "zeroflag dimension nx ny nz p =
     (case p of (pix, piy, piz) \<Rightarrow>
        (pix = 0 \<or> piy = 0) \<or> (pix = nx \<or> piy = ny) \<or>
        (dimension = 3 \<and> (piz = 0 \<or> piz = nz)))"

text \<open>
  The values that the variable of a loop \<^verbatim>\<open>for (int c = p-1; c <= p; c++)\<close> takes.
  For the smallest \<^verbatim>\<open>int\<close> the start value \<open>p-1\<close> is the largest \<^verbatim>\<open>int\<close>, and the
  body is never entered.  For the largest \<^verbatim>\<open>int\<close> the condition \<open>c <= p\<close> holds for
  every value of \<open>c\<close>, and the loop does not end.
\<close>

definition loop_values :: "int \<Rightarrow> int list" where
  "loop_values p = (if p = - (2 ^ 31) then [] else [p - 1, p])"

definition loop_endless :: "int \<Rightarrow> bool" where
  "loop_endless p \<longleftrightarrow> p = 2 ^ 31 - 1"

text \<open>
  The cells that share the lattice point, in the order of the nested loops, each
  with the corner number \<open>ncorner\<close> that the point has in the cell; the loops
  count \<open>ncorner\<close> down from 8 (from 4 in two dimensions), once for each pass of the
  innermost loop.
\<close>

definition corner_cells :: "int \<Rightarrow> int \<times> int \<times> int \<Rightarrow> ((int \<times> int \<times> int) \<times> nat) list" where
  "corner_cells dimension p =
     (case p of (pix, piy, piz) \<Rightarrow>
        if dimension = 3 then
          zip [(cix, ciy, ciz). ciz \<leftarrow> loop_values piz, ciy \<leftarrow> loop_values piy,
                                cix \<leftarrow> loop_values pix]
              [7, 6, 5, 4, 3, 2, 1, 0]
        else
          zip [(cix, ciy, 0). ciy \<leftarrow> loop_values piy, cix \<leftarrow> loop_values pix]
              [3, 2, 1, 0])"

definition loops_endless :: "int \<Rightarrow> int \<times> int \<times> int \<Rightarrow> bool" where
  "loops_endless dimension p =
     (case p of (pix, piy, piz) \<Rightarrow>
        let inner = (loop_endless piy \<or> (loop_values piy \<noteq> [] \<and> loop_endless pix)) in
        if dimension = 3 then loop_endless piz \<or> (loop_values piz \<noteq> [] \<and> inner)
        else inner)"

text \<open>
  The body of the innermost loop: cells outside of the grid block and cells that
  this process does not own (they are not in \<open>hash\<close>) are skipped.  In
  \<^verbatim>\<open>cellindex = (bigint) nx * ny*ciz + nx*ciy + cix\<close> the product \<open>nx*ciy\<close> is a
  product of two \<^verbatim>\<open>int\<close>; the other operations are in 64 bits.
\<close>

definition store_corner ::
  "int \<Rightarrow> int \<Rightarrow> int \<Rightarrow> int \<Rightarrow> (int \<rightharpoonup> nat) \<Rightarrow> int \<Rightarrow> (int \<times> int \<times> int) \<times> nat \<Rightarrow>
   int list list \<Rightarrow> int list list" where
  "store_corner dimension nx ny nz hash v cn cvalues =
     (case cn of ((cix, ciy, ciz), ncorner) \<Rightarrow>
        if cix < 0 \<or> nx \<le> cix \<or> ciy < 0 \<or> ny \<le> ciy \<or>
           (dimension = 3 \<and> (ciz < 0 \<or> nz \<le> ciz))
        then cvalues
        else
          let cellindex =
                (if dimension = 3
                 then wrap64 (wrap64 (wrap64 (wrap64 (nx * ny) * ciz) + wrap32 (nx * ciy)) + cix)
                 else wrap64 (wrap64 (nx * ciy) + cix))
          in case hash cellindex of
               None \<Rightarrow> cvalues
             | Some icell \<Rightarrow> cvalues[icell := (cvalues ! icell)[ncorner := v]])"

text \<open>
  The loop over the samples.  \<open>Undefined\<close> is the result when a division has no
  result or a loop over the cells of a point does not end.
\<close>

fun assign_corners ::
  "int \<Rightarrow> int \<Rightarrow> int \<Rightarrow> int \<Rightarrow> (int \<rightharpoonup> nat) \<Rightarrow> int \<Rightarrow> 8 word list \<Rightarrow>
   int list list \<Rightarrow> error + int list list" where
  "assign_corners dimension nx ny nz hash offset [] cvalues = Inr cvalues"
| "assign_corners dimension nx ny nz hash offset (b # buf) cvalues =
     (case point_coords nx ny (wrap64 offset) of
        Inl e \<Rightarrow> Inl e
      | Inr p \<Rightarrow>
          if b \<noteq> 0 \<and> zeroflag dimension nx ny nz p then Inl BoundaryNotZero
          else if loops_endless dimension p then Inl Undefined
          else assign_corners dimension nx ny nz hash (offset + 1) buf
                 (fold (store_corner dimension nx ny nz hash (uint b))
                    (corner_cells dimension p) cvalues))"

text \<open>
  For the statement of the boundary check: the coordinates \<open>(x, y, z)\<close> of the
  lattice point with index \<open>k\<close> in the file (\<open>x\<close> fastest, then \<open>y\<close>, then \<open>z\<close>),
  the index of the point with given coordinates, and the outer boundary of the
  lattice.
\<close>

definition lattice_coords :: "int \<Rightarrow> int \<Rightarrow> int \<Rightarrow> int \<times> int \<times> int" where
  "lattice_coords nx ny k =
     (k mod (nx + 1), (k div (nx + 1)) mod (ny + 1), k div ((nx + 1) * (ny + 1)))"

definition lattice_index :: "int \<Rightarrow> int \<Rightarrow> int \<times> int \<times> int \<Rightarrow> int" where
  "lattice_index nx ny p = (case p of (x, y, z) \<Rightarrow> x + (nx + 1) * (y + (ny + 1) * z))"

definition on_lattice :: "int \<Rightarrow> int \<Rightarrow> int \<times> int \<times> int \<Rightarrow> bool" where
  "on_lattice nx ny p = (case p of (x, y, z) \<Rightarrow> 0 \<le> x \<and> x \<le> nx \<and> 0 \<le> y \<and> y \<le> ny \<and> 0 \<le> z)"

definition on_boundary :: "int \<Rightarrow> int \<Rightarrow> int \<Rightarrow> int \<Rightarrow> int \<times> int \<times> int \<Rightarrow> bool" where
  "on_boundary dimension nx ny nz p =
     (case p of (x, y, z) \<Rightarrow>
        x = 0 \<or> x = nx \<or> y = 0 \<or> y = ny \<or> (dimension = 3 \<and> (z = 0 \<or> z = nz)))"


section \<open>Cleanup of the triangles on cell faces: data\<close>

text \<open>
  Modelled from the spec: the structures \<^verbatim>\<open>Surf::Tri\<close> and \<^verbatim>\<open>Grid::ChildCell\<close>
  are declared in headers that are not part of the sources at hand.  A triangle has
  the fields that the spec lists for an emitted primitive and that the code uses:
  the ID of the owning cell, the material label, the group mask, the three corner
  points and the normal.  The record is left open, so that whatever else the
  structure holds is carried along unchanged.  A cell has its ID, the owning
  process and the local index there, the split flag, its bounds, the six face
  neighbours with their encoded kinds, and the list of its triangles: the array
  \<open>csurfs\<close>, of which the first \<open>nsurf\<close> entries are in use.
\<close>

record tri =
  tri_id :: int
  tri_type :: int
  tri_mask :: int
  p1 :: point
  p2 :: point
  p3 :: point
  tri_norm :: point

record cell =
  cell_id :: int
  proc :: int
  ilocal :: nat
  nsplit :: int
  bound_lo :: rvec
  bound_hi :: rvec
  nmask :: int
  neigh :: "nat list"
  nsurf :: nat
  csurfs :: "nat list"

text \<open>\<^verbatim>\<open>struct SendDatum\<close>, one entry of the send and receive buffers.\<close>

record 'a SendDatum =
  sendcell :: nat
  sendface :: nat
  othercell :: nat
  otherface :: nat
  inwardnorm :: int
  tri1 :: "'a tri_scheme"
  tri2 :: "'a tri_scheme"

text \<open>
  What \<^verbatim>\<open>cleanup_MC\<close> reads and writes on one process: the rank \<open>me\<close>, the
  number \<open>nglocal\<close> of owned cells, the cells (owned cells first, then ghost
  cells), the triangle store \<open>surf->tris[0 .. nlocal-1]\<close>, the arrays \<open>nfacetri\<close>
  and \<open>facetris\<close>, the send buffer with its list of destination ranks, and the
  list of triangles to delete.
\<close>

record 'a pstate =
  me :: int
  nglocal :: nat
  cells :: "cell list"
  grid_hash :: "int \<Rightarrow> int"
  tris :: "'a tri_scheme list"
  nfacetri :: "nat list list"
  facetris :: "nat list list list"
  proclist :: "int list"
  bufsend :: "'a SendDatum list"
  dellist :: "nat list"

text \<open>
  The functions of other classes that \<^verbatim>\<open>cleanup_MC\<close> calls are parameters of
  the model: \<^verbatim>\<open>Geometry::tri_on_hex_face\<close>, which returns the face (0 to 5) of the
  box on which the three points lie, or a negative number, \<^verbatim>\<open>Grid::neigh_decode\<close>,
  and \<^verbatim>\<open>Surf::add_tri\<close>, of which the model keeps the triangle that it appends to
  the store.
\<close>

record 'a env =
  tri_on_hex_face :: "point \<Rightarrow> point \<Rightarrow> point \<Rightarrow> rvec \<Rightarrow> rvec \<Rightarrow> int"
  neigh_decode :: "int \<Rightarrow> nat \<Rightarrow> int"
  add_tri :: "int \<Rightarrow> point \<Rightarrow> point \<Rightarrow> point \<Rightarrow> 'a tri_scheme"

definition NCHILD :: int where "NCHILD = 0"
definition NPBCHILD :: int where "NPBCHILD = 3"

section \<open>Cleanup: the tally and the pairing check\<close>

text \<open>
  One pass of the loop over the triangles of a cell: \<open>nf\<close> and \<open>ft\<close> are the rows
  \<open>nfacetri[icell]\<close> and \<open>facetris[icell]\<close>.
\<close>

definition tally_tri ::
  "'a env \<Rightarrow> 'a tri_scheme list \<Rightarrow> cell \<Rightarrow> nat \<Rightarrow> nat list \<times> nat list list \<Rightarrow>
   nat list \<times> nat list list" where
  "tally_tri env ts c m acc =
     (case acc of (nf, ft) \<Rightarrow>
        let iface = tri_on_hex_face env (p1 (ts ! m)) (p2 (ts ! m)) (p3 (ts ! m))
                      (bound_lo c) (bound_hi c)
        in if iface < 0 then (nf, ft)
           else
             let f = nat iface;
                 ft = (if nf ! f < 2 then ft[f := (ft ! f)[nf ! f := m]] else ft)
             in (nf[f := nf ! f + 1], ft))"

definition tally_cell ::
  "'a env \<Rightarrow> 'a tri_scheme list \<Rightarrow> cell \<Rightarrow> nat list list \<Rightarrow> nat list \<times> nat list list" where
  "tally_cell env ts c ft =
     (let nf = [0, 0, 0, 0, 0, 0] in
      if nsplit c \<le> 0 then (nf, ft)
      else if nsurf c = 0 then (nf, ft)
      else fold (tally_tri env ts c) (take (nsurf c) (csurfs c)) (nf, ft))"

definition tally_step :: "'a env \<Rightarrow> nat \<Rightarrow> 'a pstate \<Rightarrow> 'a pstate" where
  "tally_step env icell st =
     (case tally_cell env (tris st) (cells st ! icell) (facetris st ! icell) of
        (nf, ft) \<Rightarrow> st\<lparr>nfacetri := (nfacetri st)[icell := nf],
                       facetris := (facetris st)[icell := ft]\<rparr>)"

definition tally :: "'a env \<Rightarrow> 'a pstate \<Rightarrow> 'a pstate" where
  "tally env st = fold (tally_step env) [0..<nglocal st] st"

text \<open>The number \<open>flag\<close> of faces of owned cells whose count is neither 0 nor 2.\<close>

definition bad_faces :: "'a pstate \<Rightarrow> nat" where
  "bad_faces st =
     length (filter (\<lambda>(icell, iface). nfacetri st ! icell ! iface \<noteq> 0 \<and>
                                        nfacetri st ! icell ! iface \<noteq> 2)
               (List.product [0..<nglocal st] [0..<6]))"

text \<open>
  \<^verbatim>\<open>MPI_Allreduce\<close> with \<^verbatim>\<open>MPI_SUM\<close> gives every process the sum of the
  flags of all processes.  The states of the processes are a list, ordered by rank.
\<close>

definition pairing_check :: "'a pstate list \<Rightarrow> error + unit" where
  "pairing_check sts =
     (let flagall = sum_list (map bad_faces sts)
      in if flagall \<noteq> 0 then Inl NonPairedFace else Inr ())"

section \<open>Cleanup: the loop over the cell faces\<close>

text \<open>
  The search for triangle \<open>m\<close> in the list of a cell and its removal, which the
  source writes out at each place where a triangle leaves a cell:
  \<^verbatim>\<open>for (k = 0; k < nsurf; k++) if (ptr[k] == m) break;\<close>, the error when
  \<open>k == nsurf\<close>, then \<^verbatim>\<open>csurfs[k] = csurfs[nsurf-1]; nsurf--;\<close>.
\<close>

definition find_surf :: "nat list \<Rightarrow> nat \<Rightarrow> nat \<Rightarrow> nat" where
  "find_surf ptr n m = length (takeWhile (\<lambda>x. x \<noteq> m) (take n ptr))"

definition remove_surf :: "nat list \<Rightarrow> nat \<Rightarrow> nat \<Rightarrow> error + nat list \<times> nat" where
  "remove_surf ptr n m =
     (let k = find_surf ptr n m
      in if k = n then Inl MissingSurfOnCell
         else Inr (ptr[k := ptr ! (n - 1)], n - 1))"

text \<open>
  The removal of the two triangles of a face from cell \<open>c\<close>, with \<open>n\<close> the running
  count of the source (\<open>nsurf\<close> or \<open>othernsurf\<close>); the field \<open>nsurf\<close> of the cell
  is decreased by 2 at the end.
\<close>

definition remove_pair :: "cell \<Rightarrow> nat \<Rightarrow> nat \<Rightarrow> nat \<Rightarrow> error + cell \<times> nat" where
  "remove_pair c n m0 m1 =
     (case remove_surf (csurfs c) n m0 of
        Inl e \<Rightarrow> Inl e
      | Inr (ptr, n) \<Rightarrow>
          (case remove_surf ptr n m1 of
             Inl e \<Rightarrow> Inl e
           | Inr (ptr, n) \<Rightarrow> Inr (c\<lparr>csurfs := ptr, nsurf := nsurf c - 2\<rparr>, n)))"

text \<open>
  Whether the normal of a triangle on face \<open>iface\<close> of a cell points into the cell:
  faces with an odd number are the upper faces of their dimension.
\<close>

definition inward :: "nat \<Rightarrow> point \<Rightarrow> int" where
  "inward iface nrm =
     (let idim = iface div 2
      in if iface mod 2 \<noteq> 0 \<and> dlt (coord nrm idim) (Fin 0) then 1
         else if iface mod 2 = 0 \<and> dlt (Fin 0) (coord nrm idim) then 1
         else 0)"

text \<open>
  The adjacent cell is owned by this process.  \<open>n\<close> is the running count \<open>nsurf\<close> of
  cell \<open>icell\<close>; the result has its new value.
\<close>

definition same_proc_face ::
  "nat \<Rightarrow> nat \<Rightarrow> nat \<Rightarrow> nat \<Rightarrow> int \<Rightarrow> 'a pstate \<times> nat \<Rightarrow> error + 'a pstate \<times> nat" where
  "same_proc_face icell iface ocell oface inw stn =
     (case stn of (st, n) \<Rightarrow>
      let ntri_other = nfacetri st ! ocell ! oface;
          m0 = facetris st ! icell ! iface ! 0;
          m1 = facetris st ! icell ! iface ! 1
      in
      if ntri_other = 0 \<and> inw \<noteq> 0 then Inr (st, n)
      else
        let st =
          (if ntri_other = 0 then
             let oc = cells st ! ocell;
                 othernsurf = nsurf oc;
                 ptr = take othernsurf (csurfs oc) @ [m0, m1];
                 oc = oc\<lparr>nsurf := nsurf oc + 2, csurfs := ptr\<rparr>;
                 ts = (tris st)[m0 := (tris st ! m0)\<lparr>tri_id := cell_id oc\<rparr>];
                 ts = ts[m1 := (ts ! m1)\<lparr>tri_id := cell_id oc\<rparr>]
             in st\<lparr>cells := (cells st)[ocell := oc], tris := ts\<rparr>
           else st)
        in
        case
          (if ntri_other = 2 then
             let st = st\<lparr>nfacetri := (nfacetri st)[ocell := (nfacetri st ! ocell)[oface := 0]]\<rparr>;
                 oc = cells st ! ocell
             in case remove_pair oc (nsurf oc) (facetris st ! ocell ! oface ! 0)
                       (facetris st ! ocell ! oface ! 1) of
                  Inl e \<Rightarrow> Inl e
                | Inr (oc, othernsurf) \<Rightarrow> Inr (st\<lparr>cells := (cells st)[ocell := oc]\<rparr>)
           else Inr st) of
          Inl e \<Rightarrow> Inl e
        | Inr st \<Rightarrow>
            (case remove_pair (cells st ! icell) n m0 m1 of
               Inl e \<Rightarrow> Inl e
             | Inr (c, n) \<Rightarrow>
                 let st = st\<lparr>cells := (cells st)[icell := c]\<rparr>;
                     st = (if ntri_other = 2 then
                             st\<lparr>dellist := dellist st @
                                   [m0, m1, facetris st ! ocell ! oface ! 0,
                                    facetris st ! ocell ! oface ! 1]\<rparr>
                           else st)
                 in Inr (st, n)))"

text \<open>The adjacent cell is owned by another process.\<close>

definition other_proc_face ::
  "nat \<Rightarrow> nat \<Rightarrow> int \<Rightarrow> nat \<Rightarrow> nat \<Rightarrow> int \<Rightarrow> 'a pstate \<times> nat \<Rightarrow> error + 'a pstate \<times> nat" where
  "other_proc_face icell iface otherproc otherlocal oface inw stn =
     (case stn of (st, n) \<Rightarrow>
      let m0 = facetris st ! icell ! iface ! 0;
          m1 = facetris st ! icell ! iface ! 1;
          st = st\<lparr>proclist := proclist st @ [otherproc],
                  bufsend := bufsend st @
                    [\<lparr>sendcell = icell, sendface = iface, othercell = otherlocal,
                      otherface = oface, inwardnorm = inw,
                      tri1 = tris st ! m0, tri2 = tris st ! m1\<rparr>]\<rparr>
      in
      if inw = 0 then
        (case remove_pair (cells st ! icell) n m0 m1 of
           Inl e \<Rightarrow> Inl e
         | Inr (c, n) \<Rightarrow>
             Inr (st\<lparr>cells := (cells st)[icell := c], dellist := dellist st @ [m0, m1]\<rparr>, n))
      else Inr (st, n))"

text \<open>The body of the loop over the faces of cell \<open>icell\<close>.\<close>

definition face_step ::
  "'a env \<Rightarrow> nat \<Rightarrow> nat \<Rightarrow> 'a pstate \<times> nat \<Rightarrow> error + 'a pstate \<times> nat" where
  "face_step env icell iface stn =
     (case stn of (st, n) \<Rightarrow>
      if nfacetri st ! icell ! iface \<noteq> 2 then Inr (st, n)
      else
        let nflag = neigh_decode env (nmask (cells st ! icell)) iface in
        if nflag \<noteq> NCHILD \<and> nflag \<noteq> NPBCHILD then Inl InvalidNeighbor
        else
          let ocell = neigh (cells st ! icell) ! iface in
          if ocell = icell then Inl InvalidNeighbor
          else
            let inw = inward iface (tri_norm (tris st ! (facetris st ! icell ! iface ! 0)));
                oface = (if iface mod 2 \<noteq> 0 then iface - 1 else iface + 1);
                otherproc = proc (cells st ! ocell);
                otherlocal = ilocal (cells st ! ocell)
            in if otherproc = me st then same_proc_face icell iface ocell oface inw (st, n)
               else other_proc_face icell iface otherproc otherlocal oface inw (st, n))"

text \<open>A loop whose body can fail stops at the first failure.\<close>

fun fold_err :: "('b \<Rightarrow> 's \<Rightarrow> error + 's) \<Rightarrow> 'b list \<Rightarrow> 's \<Rightarrow> error + 's" where
  "fold_err f [] s = Inr s"
| "fold_err f (x # xs) s = (case f x s of Inl e \<Rightarrow> Inl e | Inr s \<Rightarrow> fold_err f xs s)"

definition cell_step :: "'a env \<Rightarrow> nat \<Rightarrow> 'a pstate \<Rightarrow> error + 'a pstate" where
  "cell_step env icell st =
     (if nsplit (cells st ! icell) \<le> 0 then Inr st
      else
        let n = nsurf (cells st ! icell) in
        if n = 0 then Inr st
        else case fold_err (face_step env icell) [0..<6] (st, n) of
               Inl e \<Rightarrow> Inl e
             | Inr (st, n) \<Rightarrow> Inr st)"

definition face_loop :: "'a env \<Rightarrow> 'a pstate \<Rightarrow> error + 'a pstate" where
  "face_loop env st =
     fold_err (cell_step env) [0..<nglocal st]
       (st\<lparr>proclist := [], bufsend := [], dellist := []\<rparr>)"

section \<open>Cleanup: the exchange and the received faces\<close>

text \<open>
  Modelled from the spec: the class \<^verbatim>\<open>Irregular\<close> is not part of the sources at
  hand; the spec describes it as a point-to-point bulk exchange by destination-rank
  list.  Process \<open>p\<close> receives the entries whose destination is \<open>p\<close>, here in the
  order of the ranks of the senders.
\<close>

definition exchange :: "'a pstate list \<Rightarrow> int \<Rightarrow> 'a SendDatum list" where
  "exchange sts p =
     concat (map (\<lambda>st. map snd (filter (\<lambda>dr. fst dr = p) (zip (proclist st) (bufsend st)))) sts)"

text \<open>The body of the loop over the received entries.\<close>

definition recv_step :: "'a env \<Rightarrow> 'a SendDatum \<Rightarrow> 'a pstate \<Rightarrow> error + 'a pstate" where
  "recv_step env r st =
     (let icell = othercell r; iface = otherface r in
      if nfacetri st ! icell ! iface = 0 \<and> inwardnorm r \<noteq> 0 then Inr st
      else
        let st =
          (if nfacetri st ! icell ! iface = 0 then
             let nslocal = length (tris st);
                 ts = tris st @ [add_tri env 1 (p1 (tri1 r)) (p2 (tri1 r)) (p3 (tri1 r))];
                 ts = ts[nslocal := tri1 r];
                 ts = ts[nslocal := (ts ! nslocal)\<lparr>tri_id := cell_id (cells st ! icell)\<rparr>];
                 ts = ts @ [add_tri env 1 (p1 (tri2 r)) (p2 (tri2 r)) (p3 (tri2 r))];
                 ts = ts[nslocal + 1 := tri2 r];
                 ts = ts[nslocal + 1 :=
                           (ts ! (nslocal + 1))\<lparr>tri_id := cell_id (cells st ! icell)\<rparr>];
                 c = cells st ! icell;
                 n = nsurf c;
                 ptr = take n (csurfs c) @ [nslocal, nslocal + 1];
                 c = c\<lparr>nsurf := nsurf c + 2, csurfs := ptr\<rparr>
             in st\<lparr>tris := ts, cells := (cells st)[icell := c]\<rparr>
           else st)
        in
        if nfacetri st ! icell ! iface = 2 then
          let inw = inward iface (tri_norm (tris st ! (facetris st ! icell ! iface ! 0))) in
          if inw = 0 then Inr st
          else
            let c = cells st ! icell;
                m0 = facetris st ! icell ! iface ! 0;
                m1 = facetris st ! icell ! iface ! 1
            in case remove_pair c (nsurf c) m0 m1 of
                 Inl e \<Rightarrow> Inl e
               | Inr (c, n) \<Rightarrow>
                   Inr (st\<lparr>cells := (cells st)[icell := c], dellist := dellist st @ [m0, m1]\<rparr>)
        else Inr st)"

definition recv_loop :: "'a env \<Rightarrow> 'a SendDatum list \<Rightarrow> 'a pstate \<Rightarrow> error + 'a pstate" where
  "recv_loop env bufrecv st = fold_err (recv_step env) bufrecv st"

text \<open>The triangles of a cell: the entries of \<open>csurfs\<close> that are in use.\<close>

definition surfs :: "cell \<Rightarrow> nat list" where
  "surfs c = take (nsurf c) (csurfs c)"

section \<open>Cleanup: the compression of the triangle store and the whole pass\<close>

text \<open>
  One pass of the loop over the sorted list of deleted triangles: the last triangle
  of the store is copied into slot \<open>m\<close>, and the entry of its cell that points to
  the last slot is redirected to \<open>m\<close>.  \<open>nslocal\<close> is the running size of the
  store.  A cell index of \<open>-1\<close> (the ID is not in the hash table) makes the code
  read outside of the array of cells.
\<close>

definition compress_step :: "nat \<Rightarrow> 'a pstate \<times> nat \<Rightarrow> error + 'a pstate \<times> nat" where
  "compress_step m stn =
     (case stn of (st, nslocal) \<Rightarrow>
      let ts = (tris st)[m := tris st ! (nslocal - 1)];
          nslocal = nslocal - 1;
          icell = grid_hash st (tri_id (ts ! m)) - 1
      in if icell < 0 then Inl Undefined
         else
           let c = cells st ! nat icell;
               k = find_surf (csurfs c) (nsurf c) nslocal
           in if k = nsurf c then Inl MovedTriNotFound
              else Inr (st\<lparr>tris := ts,
                            cells := (cells st)[nat icell := c\<lparr>csurfs := (csurfs c)[k := m]\<rparr>]\<rparr>,
                        nslocal))"

text \<open>
  \<^verbatim>\<open>qsort\<close> with \<^verbatim>\<open>compare_indices\<close> sorts the list into descending order; at
  the end \<^verbatim>\<open>surf->nlocal = nslocal\<close> cuts the store.
\<close>

definition compress :: "'a pstate \<Rightarrow> error + 'a pstate" where
  "compress st =
     (case fold_err compress_step (rev (sort (dellist st))) (st, length (tris st)) of
        Inl e \<Rightarrow> Inl e
      | Inr (st, nslocal) \<Rightarrow> Inr (st\<lparr>tris := take nslocal (tris st)\<rparr>))"

text \<open>
  A step that every process takes; the failure of one process (\<^verbatim>\<open>error->one\<close>)
  ends the run of all.
\<close>

fun all_procs :: "('s \<Rightarrow> error + 's) \<Rightarrow> 's list \<Rightarrow> error + 's list" where
  "all_procs f [] = Inr []"
| "all_procs f (s # ss) =
     (case f s of
        Inl e \<Rightarrow> Inl e
      | Inr s \<Rightarrow> (case all_procs f ss of Inl e \<Rightarrow> Inl e | Inr ss \<Rightarrow> Inr (s # ss)))"

text \<open>
  \<^verbatim>\<open>ReadISurf::cleanup_MC\<close> on all processes: the tally, the pairing check, the
  loop over the cell faces, the exchange, the loop over the received entries and
  the compression.
\<close>

definition cleanup_after_check :: "'a env \<Rightarrow> 'a pstate list \<Rightarrow> error + 'a pstate list" where
  "cleanup_after_check env sts =
     (case all_procs (face_loop env) sts of
        Inl e \<Rightarrow> Inl e
      | Inr sts \<Rightarrow>
          (case all_procs (\<lambda>st. recv_loop env (exchange sts (me st)) st) sts of
             Inl e \<Rightarrow> Inl e
           | Inr sts \<Rightarrow> all_procs compress sts))"

definition cleanup_MC :: "'a env \<Rightarrow> 'a pstate list \<Rightarrow> error + 'a pstate list" where
  "cleanup_MC env sts =
     (let sts = map (tally env) sts in
      case pairing_check sts of
        Inl e \<Rightarrow> Inl e
      | Inr u \<Rightarrow> cleanup_after_check env sts)"

text \<open>
  For the statement of the pairing check: the number of triangles of a cell that lie
  on face \<open>f\<close>; cells with \<open>nsplit \<le> 0\<close> are not tallied.
\<close>

definition face_count :: "'a env \<Rightarrow> 'a tri_scheme list \<Rightarrow> cell \<Rightarrow> nat \<Rightarrow> nat" where
  "face_count env ts c f =
     (if nsplit c \<le> 0 then 0
      else length (filter (\<lambda>m. tri_on_hex_face env (p1 (ts ! m)) (p2 (ts ! m)) (p3 (ts ! m))
                                  (bound_lo c) (bound_hi c) = int f) (surfs c)))"

section \<open>Example grids for the cleanup\<close>

text \<open>
  Modelled from the spec: \<^verbatim>\<open>Geometry::tri_on_hex_face\<close> is not part of the sources
  at hand; the spec calls it a face-classifier that reports whether a triangle lies
  entirely on a specific cube face.  For the examples it is taken to return the
  first of the faces XLO, XHI, YLO, YHI, ZLO, ZHI (numbered 0 to 5) on which all
  three points lie, and \<open>-1\<close> when there is none.
\<close>

definition on_plane :: "point \<Rightarrow> point \<Rightarrow> point \<Rightarrow> nat \<Rightarrow> real \<Rightarrow> bool" where
  "on_plane a b c d x = (coord a d = Fin x \<and> coord b d = Fin x \<and> coord c d = Fin x)"

definition example_on_face :: "point \<Rightarrow> point \<Rightarrow> point \<Rightarrow> rvec \<Rightarrow> rvec \<Rightarrow> int" where
  "example_on_face a b c lo hi =
     (if on_plane a b c 0 (coord lo 0) then 0
      else if on_plane a b c 0 (coord hi 0) then 1
      else if on_plane a b c 1 (coord lo 1) then 2
      else if on_plane a b c 1 (coord hi 1) then 3
      else if on_plane a b c 2 (coord lo 2) then 4
      else if on_plane a b c 2 (coord hi 2) then 5
      else - 1)"

definition example_env :: "unit env" where
  "example_env =
     \<lparr>tri_on_hex_face = example_on_face,
      neigh_decode = (\<lambda>nmask iface. (nmask div 8 ^ iface) mod 8),
      add_tri = (\<lambda>typ a b c. \<lparr>tri_id = 0, tri_type = typ, tri_mask = 1,
                               p1 = a, p2 = b, p3 = c, tri_norm = (Fin 0, Fin 0, Fin 0)\<rparr>)\<rparr>"

text \<open>
  Two cells of unit size side by side along \<open>x\<close>, with the IDs 10 and 20; they
  share the plane \<open>x = 1\<close>, which is face 1 (XHI) of the first cell and face 0 (XLO)
  of the second one.  A triangle of the examples lies either in this plane, with a
  normal along \<open>x\<close>, or inside of a cell.
\<close>

definition plane_tri :: "int \<Rightarrow> real \<Rightarrow> real \<Rightarrow> tri" where
  "plane_tri cid y nx =
     \<lparr>tri_id = cid, tri_type = 1, tri_mask = 1,
      p1 = (Fin 1, Fin (1 / 4), Fin (1 / 4)), p2 = (Fin 1, Fin (3 / 4), Fin (1 / 4)),
      p3 = (Fin 1, Fin y, Fin (3 / 4)), tri_norm = (Fin nx, Fin 0, Fin 0)\<rparr>"

definition inner_tri :: "int \<Rightarrow> real \<Rightarrow> tri" where
  "inner_tri cid x =
     \<lparr>tri_id = cid, tri_type = 1, tri_mask = 1,
      p1 = (Fin (x + 1 / 4), Fin (1 / 4), Fin (1 / 4)),
      p2 = (Fin (x + 3 / 4), Fin (1 / 4), Fin (1 / 4)),
      p3 = (Fin (x + 1 / 4), Fin (3 / 4), Fin (1 / 2)),
      tri_norm = (Fin 0, Fin 0, Fin 1)\<rparr>"

definition example_cell :: "int \<Rightarrow> int \<Rightarrow> real \<Rightarrow> nat list \<Rightarrow> nat list \<Rightarrow> cell" where
  "example_cell cid prc x nb ms =
     \<lparr>cell_id = cid, proc = prc, ilocal = 0, nsplit = 1,
      bound_lo = (x, 0, 0), bound_hi = (x + 1, 1, 1), nmask = 0, neigh = nb,
      nsurf = length ms, csurfs = ms\<rparr>"

definition example_hash :: "int \<Rightarrow> int \<Rightarrow> int \<Rightarrow> int" where
  "example_hash cid0 cid1 i = (if i = cid0 then 1 else if i = cid1 then 2 else 0)"

definition example_state :: "int \<Rightarrow> cell list \<Rightarrow> (int \<Rightarrow> int) \<Rightarrow> nat \<Rightarrow> tri list \<Rightarrow> unit pstate" where
  "example_state rank cs h n ts =
     \<lparr>me = rank, nglocal = n, cells = cs, grid_hash = h, tris = ts,
      nfacetri = replicate n (replicate 6 0),
      facetris = replicate n (replicate 6 [0, 0]),
      proclist = [], bufsend = [], dellist = []\<rparr>"

text \<open>
  One process owns both cells.  In the first three examples the first cell has a
  pair of triangles in the shared plane: with the normal pointing into the second
  cell, with the normal pointing into the first cell, and with a second pair in the
  second cell.  In the fourth example one face has a single triangle.
\<close>

definition example_move :: "unit pstate" where
  "example_move =
     example_state 0
       [example_cell 10 0 0 [0, 1, 0, 0, 0, 0] [0, 1, 2],
        example_cell 20 0 1 [0, 1, 1, 1, 1, 1] []]
       (example_hash 10 20) 2
       [plane_tri 10 (1 / 4) 1, plane_tri 10 (3 / 4) 1, inner_tri 10 0]"

definition example_keep :: "unit pstate" where
  "example_keep =
     example_state 0
       [example_cell 10 0 0 [0, 1, 0, 0, 0, 0] [0, 1, 2],
        example_cell 20 0 1 [0, 1, 1, 1, 1, 1] []]
       (example_hash 10 20) 2
       [plane_tri 10 (1 / 4) (- 1), plane_tri 10 (3 / 4) (- 1), inner_tri 10 0]"

definition example_both :: "unit pstate" where
  "example_both =
     example_state 0
       [example_cell 10 0 0 [0, 1, 0, 0, 0, 0] [0, 1],
        example_cell 20 0 1 [0, 1, 1, 1, 1, 1] [2, 3, 4]]
       (example_hash 10 20) 2
       [plane_tri 10 (1 / 4) 1, plane_tri 10 (3 / 4) 1,
        plane_tri 20 (1 / 4) (- 1), plane_tri 20 (3 / 4) (- 1), inner_tri 20 1]"

text \<open>
  The two cells with a pair of triangles each in the shared plane and no other
  triangle: the normals of the first pair point into the second cell and those of
  the second pair into the first cell.
\<close>

definition example_shared :: "unit pstate" where
  "example_shared =
     example_state 0
       [example_cell 10 0 0 [0, 1, 0, 0, 0, 0] [0, 1],
        example_cell 20 0 1 [0, 1, 1, 1, 1, 1] [2, 3]]
       (example_hash 10 20) 2
       [plane_tri 10 (1 / 4) 1, plane_tri 10 (3 / 4) 1,
        plane_tri 20 (1 / 4) (- 1), plane_tri 20 (3 / 4) (- 1)]"

definition example_single :: "unit pstate" where
  "example_single =
     example_state 0
       [example_cell 10 0 0 [0, 1, 0, 0, 0, 0] [0, 1],
        example_cell 20 0 1 [0, 1, 1, 1, 1, 1] []]
       (example_hash 10 20) 2
       [plane_tri 10 (1 / 4) 1, inner_tri 10 0]"

text \<open>
  Two processes own one cell each and hold the other cell as a ghost cell (the
  second entry of their cell lists).  Process 0 has a pair of triangles in the
  shared plane whose normal points into the cell of process 1.
\<close>

definition example_sender :: "unit pstate" where
  "example_sender =
     example_state 0
       [example_cell 10 0 0 [1, 1, 1, 1, 1, 1] [0, 1, 2],
        example_cell 20 1 1 [0, 0, 0, 0, 0, 0] []]
       (example_hash 10 0) 1
       [plane_tri 10 (1 / 4) 1, plane_tri 10 (3 / 4) 1, inner_tri 10 0]"

definition example_receiver :: "unit pstate" where
  "example_receiver =
     example_state 1
       [example_cell 20 1 1 [1, 1, 1, 1, 1, 1] [0],
        example_cell 10 0 0 [0, 0, 0, 0, 0, 0] []]
       (example_hash 20 0) 1
       [inner_tri 20 1]"

text \<open>The same with the normal of the pair pointing into the cell of process 0.\<close>

definition example_sender_inward :: "unit pstate" where
  "example_sender_inward =
     example_state 0
       [example_cell 10 0 0 [1, 1, 1, 1, 1, 1] [0, 1, 2],
        example_cell 20 1 1 [0, 0, 0, 0, 0, 0] []]
       (example_hash 10 0) 1
       [plane_tri 10 (1 / 4) (- 1), plane_tri 10 (3 / 4) (- 1), inner_tri 10 0]"

text \<open>
  A view of the result of the cleanup: for each process the triangles of its cells
  and the cell IDs of the triangles in its store.
\<close>

definition summary ::
  "error + 'a pstate list \<Rightarrow> error + (nat list list \<times> int list) list" where
  "summary r =
     (case r of
        Inl e \<Rightarrow> Inl e
      | Inr sts \<Rightarrow> Inr (map (\<lambda>st. (map surfs (cells st), map tri_id (tris st))) sts))"

text \<open>The fifth example with the triangles of the pair at the end of the store.\<close>

definition example_sender_last :: "unit pstate" where
  "example_sender_last =
     example_state 0
       [example_cell 10 0 0 [1, 1, 1, 1, 1, 1] [0, 1, 2],
        example_cell 20 1 1 [0, 0, 0, 0, 0, 0] []]
       (example_hash 10 0) 1
       [inner_tri 10 0, plane_tri 10 (1 / 4) 1, plane_tri 10 (3 / 4) 1]"

text \<open>
  The stages of \<^verbatim>\<open>cleanup_MC\<close> after the pairing check: the states of the
  processes after the loop over the cell faces, and after the exchange and the loop
  over the received entries; and a view of such states: for each process the
  triangles of its cells, the list of deletions, the cell IDs of the triangles in
  its store, and the destinations of its send buffer.
\<close>

definition after_faces :: "'a env \<Rightarrow> 'a pstate list \<Rightarrow> error + 'a pstate list" where
  "after_faces env sts = all_procs (face_loop env) (map (tally env) sts)"

definition after_exchange :: "'a env \<Rightarrow> 'a pstate list \<Rightarrow> error + 'a pstate list" where
  "after_exchange env sts =
     (case after_faces env sts of
        Inl e \<Rightarrow> Inl e
      | Inr sts \<Rightarrow> all_procs (\<lambda>st. recv_loop env (exchange sts (me st)) st) sts)"

definition stage_view ::
  "error + 'a pstate list \<Rightarrow> error + (nat list list \<times> nat list \<times> int list \<times> int list) list" where
  "stage_view r =
     (case r of
        Inl e \<Rightarrow> Inl e
      | Inr sts \<Rightarrow>
          Inr (map (\<lambda>st. (map surfs (cells st), dellist st, map tri_id (tris st), proclist st))
                 sts))"

text \<open>The entries that process \<open>p\<close> receives in the exchange.\<close>

definition delivered :: "'a env \<Rightarrow> 'a pstate list \<Rightarrow> int \<Rightarrow> 'a SendDatum list" where
  "delivered env sts p =
     (case after_faces env sts of Inl e \<Rightarrow> [] | Inr sts \<Rightarrow> exchange sts p)"
section \<open>Properties of the rounding\<close>

lemmas rnd_defs = rnd_def dround_def expo_def pow2_def round_even_def Let_def bits.simps
  inf_of_sign_def dbl_of_int_def

lemmas dbl_ops = plus_dbl_def minus_dbl_def times_dbl_def divide_dbl_def uminus_dbl_def
  abs_dbl_def less_dbl_def less_eq_dbl_def dsub_def

text \<open>
  The rounding on some numbers: the doubles nearest to 0.1, to 127.2 and to 1.0e-16,
  ties at the integers above 2 to the power 53, where the doubles are the multiples
  of 2 and a tie goes to the multiple of 4, and numbers that need no rounding.
\<close>

lemma rnd_examples:
  "rnd (1 / 10) = 3602879701896397 / 2 ^ 55"
  "rnd (636 / 5) = 8950904259398861 / 2 ^ 46"
  "rnd (1 / 10 ^ 16) = 2028240960365167 / 2 ^ 104"
  "rnd (2 ^ 53 + 1) = 2 ^ 53"
  "rnd (2 ^ 53 + 3) = 2 ^ 53 + 4"
  "rnd (- (2 ^ 53) - 3) = - (2 ^ 53) - 4"
  "rnd (255 / 2) = 255 / 2"
  "rnd (- 3 / 4) = - 3 / 4"
  by (simp_all add: rnd_defs)

text \<open>
  Results that are too large are infinities, and the smallest results are multiples
  of 2 to the power -1074.
\<close>

lemma dround_examples:
  "dround (Fin (2 ^ 1024)) = PInf"
  "dround (Fin (- (2 ^ 1024))) = NInf"
  "dround (Fin (1 / 2 ^ 1075)) = Fin 0"
  "dround (Fin (3 / 2 ^ 1075)) = Fin (1 / 2 ^ 1073)"
  by (simp_all add: rnd_defs)

lemma dround_special [simp]: "dround PInf = PInf" "dround NInf = NInf" "dround NaN = NaN"
  by (simp_all add: dround_def)

lemma dround_zero [simp]: "dround (Fin 0) = Fin 0"
  by (simp add: dround_def rnd_def)

lemma dbl_nan [simp]:
  "x + NaN = NaN" "NaN + x = NaN" "x - NaN = NaN" "NaN - x = NaN"
  "x * NaN = NaN" "NaN * x = NaN" "x / NaN = NaN" "NaN / x = NaN" "- NaN = NaN"
  "\<not> x < NaN" "\<not> NaN < x" "\<not> x \<le> NaN" "\<not> NaN \<le> x"
  by (cases x; simp add: plus_dbl_def minus_dbl_def times_dbl_def divide_dbl_def uminus_dbl_def
       less_dbl_def less_eq_dbl_def dsub_def)+

section \<open>Properties of the edge interpolation\<close>

lemma interpolate_finite:
  "\<exists>r. interpolate t v0 v1 lo hi = Fin r"
  by (auto simp: interpolate_def Let_def MAXd_def MINd_def inf_of_sign_def)

lemma interpolate_regular:
  assumes "v0 \<noteq> v1"
  shows "interpolate t v0 v1 lo hi =
           Fin (let x = lo + (hi - lo) * (t - real_of_int v0) / real_of_int (v1 - v0);
                    y = (if lo < x then x else lo)
                in if y < hi then y else hi)"
  using assms by (simp add: interpolate_def Let_def MAXd_def MINd_def)

lemma interpolate_range:
  assumes "lo \<le> hi"
  shows "\<exists>r. interpolate t v0 v1 lo hi = Fin r \<and> lo \<le> r \<and> r \<le> hi"
  using assms by (auto simp: interpolate_def Let_def MAXd_def MINd_def inf_of_sign_def)

text \<open>
  C8.  For integer endpoint values \<open>v0\<close>, \<open>v1\<close> and coordinates \<open>lo \<le> hi\<close>,
  \<open>interpolate\<close> returns \<open>lo + (hi - lo) * (t - v0) / (v1 - v0)\<close> clamped to the
  interval \<open>[lo, hi]\<close>, where \<open>t\<close> is the threshold.  When \<open>v0 = v1\<close> the quotient
  is an infinity or a NaN, and the clamped result is still a finite value of the
  interval: \<open>hi\<close> when the dividend is positive and \<open>lo\<close> otherwise.
\<close>

theorem interpolate_clamped:
  assumes "lo \<le> hi"
  shows "\<exists>r. interpolate t v0 v1 lo hi = Fin r \<and> lo \<le> r \<and> r \<le> hi \<and>
             (v0 \<noteq> v1 \<longrightarrow>
                r = min hi (max lo (lo + (hi - lo) * (t - real_of_int v0) / real_of_int (v1 - v0)))) \<and>
             (v0 = v1 \<longrightarrow>
                r = (if 0 < (hi - lo) * (t - real_of_int v0) then hi else lo))"
  using assms
  by (auto simp: interpolate_def Let_def MAXd_def MINd_def inf_of_sign_def min_def max_def)

theorem interpolate_clamped_witness:
  "(0::real) \<le> 1 \<and> interpolate (255 / 2) 200 0 0 1 = Fin (29 / 80)"
proof -
  have h: "(0::real) \<le> 1" by simp
  from interpolate_clamped [OF h, of "255 / 2" 200 0]
  show ?thesis by (auto simp: min_def max_def)
qed


section \<open>Properties of marching squares\<close>

lemma sq_which_cases:
  "sq_which t v00 v01 v10 v11 =
     (if real_of_int v10 \<le> t then 0 else 8) + (if real_of_int v11 \<le> t then 0 else 4) +
     (if real_of_int v01 \<le> t then 0 else 2) + (if real_of_int v00 \<le> t then 0 else 1)"
  by (simp add: sq_which_def Let_def push_bit_eq_mult)

lemma sq_which_5:
  "sq_which t v00 v01 v10 v11 = 5 \<longleftrightarrow>
     t < real_of_int v00 \<and> real_of_int v01 \<le> t \<and>
     real_of_int v10 \<le> t \<and> t < real_of_int v11"
  by (simp add: sq_which_cases)

lemma sq_which_10:
  "sq_which t v00 v01 v10 v11 = 10 \<longleftrightarrow>
     real_of_int v00 \<le> t \<and> t < real_of_int v01 \<and>
     t < real_of_int v10 \<and> real_of_int v11 \<le> t"
  by (simp add: sq_which_cases)

lemma marching_squares_nsurf:
  "fst (marching_squares_cell t v00 v01 v10 v11 lo hi) =
     (let which = sq_which t v00 v01 v10 v11 in
      if which = 5 \<or> which = 10 then 2 else if which = 0 \<or> which = 15 then 0 else 1)"
  by (simp add: marching_squares_cell_def Let_def sq_which_cases)

lemma marching_squares_length:
  "length (marching_squares_lines t v00 v01 v10 v11 lo hi) =
     fst (marching_squares_cell t v00 v01 v10 v11 lo hi)"
  by (simp add: marching_squares_lines_def split: prod.splits)

lemma upt_2: "[0..<2] = [0, Suc 0]"
  by (simp add: upt_rec)

lemma marching_squares_5:
  assumes "sq_which t v00 v01 v10 v11 = 5"
  shows "marching_squares_lines t v00 v01 v10 v11 lo hi =
           (if t < (real_of_int v00 + real_of_int v01 + real_of_int v10 + real_of_int v11) / 4
            then [(side_left t v00 v10 lo hi, side_top t v10 v11 lo hi),
                  (side_right t v01 v11 lo hi, side_bottom t v00 v01 lo hi)]
            else [(side_left t v00 v10 lo hi, side_bottom t v00 v01 lo hi),
                  (side_right t v01 v11 lo hi, side_top t v10 v11 lo hi)])"
  using assms
  by (simp add: marching_squares_lines_def marching_squares_cell_def Let_def upt_2 pt2_def
      side_left_def side_right_def side_top_def side_bottom_def)

lemma marching_squares_10:
  assumes "sq_which t v00 v01 v10 v11 = 10"
  shows "marching_squares_lines t v00 v01 v10 v11 lo hi =
           (if t < (real_of_int v00 + real_of_int v01 + real_of_int v10 + real_of_int v11) / 4
            then [(side_bottom t v00 v01 lo hi, side_left t v00 v10 lo hi),
                  (side_top t v10 v11 lo hi, side_right t v01 v11 lo hi)]
            else [(side_top t v10 v11 lo hi, side_left t v00 v10 lo hi),
                  (side_bottom t v00 v01 lo hi, side_right t v01 v11 lo hi)])"
  using assms
  by (simp add: marching_squares_lines_def marching_squares_cell_def Let_def upt_2 pt2_def
      side_left_def side_right_def side_top_def side_bottom_def)

text \<open>
  C5.  Marching squares emits exactly two segments for the cells whose index
  \<open>which\<close> is 5 or 10, and for no other cell.  For these cells it compares
  \<open>ave = (v00 + v01 + v10 + v11) / 4\<close> with the threshold.  When \<open>ave\<close> is strictly
  greater, it emits the pair of segments that keeps the region above the threshold
  connected through the centre of the cell: each segment joins the two sides that
  meet at one of the two corners that are not above the threshold (for \<open>which = 5\<close>
  the upper left corner \<open>v10\<close> and the lower right corner \<open>v01\<close>, for \<open>which = 10\<close>
  the lower left corner \<open>v00\<close> and the upper right corner \<open>v11\<close>).  Otherwise it
  emits the other pair, whose segments cut off the two corners above the threshold.
\<close>

theorem saddle_disambiguation:
  "let which = sq_which t v00 v01 v10 v11;
       ave = (real_of_int v00 + real_of_int v01 + real_of_int v10 + real_of_int v11) / 4;
       segs = marching_squares_lines t v00 v01 v10 v11 lo hi;
       left = side_left t v00 v10 lo hi; right = side_right t v01 v11 lo hi;
       bottom = side_bottom t v00 v01 lo hi; top = side_top t v10 v11 lo hi
   in (length segs = 2 \<longleftrightarrow> which = 5 \<or> which = 10) \<and>
      (which = 5 \<longrightarrow>
         t < real_of_int v00 \<and> t < real_of_int v11 \<and>
         real_of_int v01 \<le> t \<and> real_of_int v10 \<le> t \<and>
         segs = (if t < ave then [(left, top), (right, bottom)]
                 else [(left, bottom), (right, top)])) \<and>
      (which = 10 \<longrightarrow>
         t < real_of_int v01 \<and> t < real_of_int v10 \<and>
         real_of_int v00 \<le> t \<and> real_of_int v11 \<le> t \<and>
         segs = (if t < ave then [(bottom, left), (top, right)]
                 else [(top, left), (bottom, right)]))"
proof -
  have n: "length (marching_squares_lines t v00 v01 v10 v11 lo hi) = 2 \<longleftrightarrow>
             sq_which t v00 v01 v10 v11 = 5 \<or> sq_which t v00 v01 v10 v11 = 10"
    by (simp add: marching_squares_length marching_squares_nsurf Let_def)
  show ?thesis
    unfolding Let_def
    using n marching_squares_5 [of t v00 v01 v10 v11 lo hi]
      marching_squares_10 [of t v00 v01 v10 v11 lo hi]
    by (simp add: sq_which_5 sq_which_10)
qed

theorem saddle_disambiguation_witness:
  "sq_which (255 / 2) 255 0 100 255 = 5 \<and>
   marching_squares_lines (255 / 2) 255 0 100 255 (0, 0, 0) (1, 1, 0) =
     [((Fin 0, Fin (51 / 62), Fin 0), (Fin (11 / 62), Fin 1, Fin 0)),
      ((Fin 1, Fin (1 / 2), Fin 0), (Fin (1 / 2), Fin 0, Fin 0))] \<and>
   sq_which (255 / 2) 0 200 200 0 = 10 \<and>
   marching_squares_lines (255 / 2) 0 200 200 0 (0, 0, 0) (1, 1, 0) =
     [((Fin (29 / 80), Fin 1, Fin 0), (Fin 0, Fin (51 / 80), Fin 0)),
      ((Fin (51 / 80), Fin 0, Fin 0), (Fin 1, Fin (29 / 80), Fin 0))]"
  using saddle_disambiguation [of "255 / 2" 255 0 100 255 "(0, 0, 0)" "(1, 1, 0)"]
    saddle_disambiguation [of "255 / 2" 0 200 200 0 "(0, 0, 0)" "(1, 1, 0)"]
  by (simp add: Let_def sq_which_cases side_left_def side_right_def side_top_def
      side_bottom_def interpolate_def MAXd_def MINd_def)

section \<open>Properties of the vertices of a tiling\<close>

lemma upt_12: "[0..<12] = [0, 1, 2, 3, 4, 5, 6, 7, 8, 9, 10, 11::nat]"
  by (simp add: upt_rec)

lemma centre_terms_eq:
  "centre_terms c = map (\<lambda>e. (crossing c e, the (edge_vertex c (int e)))) [0..<12]"
  unfolding upt_12
  by (simp add: centre_terms_def crossing_def edge_corners_def sign_bit_def corner_value_def
      edge_vertex_def Let_def bit0_def bit1_def bit2_def bit3_def bit4_def bit5_def bit6_def bit7_def)

lemma fold_centre_step:
  "fold centre_step (map (\<lambda>(b, p). (b, fin3 p)) ts) (u, fin3 q) =
     (u + length (filter fst ts), fin3 (vadd q (vsum (map snd (filter fst ts)))))"
proof (induction ts arbitrary: u q)
  case Nil
  then show ?case by (cases q) (simp add: vsum_def)
next
  case (Cons bp ts)
  obtain b p where bp: "bp = (b, p)" by (cases bp)
  obtain x y z where p: "p = (x, y, z)" by (cases p) 
  obtain a1 a2 a3 where q: "q = (a1, a2, a3)" by (cases q) 
  show ?case
  proof (cases b)
    case True
    have "centre_step (b, fin3 p) (u, fin3 q) = (u + 1, fin3 (vadd q p))"
      using True by (simp add: centre_step_def p q)
    then show ?thesis using Cons.IH [of "u + 1" "vadd q p"] True
      by (simp add: bp p q vsum_def add.assoc)
  next
    case False
    then show ?thesis using Cons.IH [of u q] by (simp add: bp centre_step_def)
  qed
qed

lemma edge_vertex_fin:
  assumes "e < 12" "coord (cell_lo c) 0 \<le> coord (cell_hi c) 0"
    "coord (cell_lo c) 1 \<le> coord (cell_hi c) 1" "coord (cell_lo c) 2 \<le> coord (cell_hi c) 2"
  shows "\<exists>p. edge_vertex c (int e) = Some (fin3 p) \<and> on_box_edge (cell_lo c) (cell_hi c) p \<and>
             between (corner_position c (fst (edge_corners e)))
               (corner_position c (snd (edge_corners e))) p"
proof -
  obtain lx ly lz where lo: "cell_lo c = (lx, ly, lz)" by (cases "cell_lo c")
  obtain hx hy hz where hi: "cell_hi c = (hx, hy, hz)" by (cases "cell_hi c")
  have ip: "\<And>v0 v1 l h. l \<le> h \<Longrightarrow> \<exists>r. interpolate (thresh c) v0 v1 l h = Fin r \<and> l \<le> r \<and> r \<le> h"
    by (rule interpolate_range)
  from assms(1) have "e \<in> set [0..<12]" by simp
  then consider "e = 0" | "e = 1" | "e = 2" | "e = 3" | "e = 4" | "e = 5" | "e = 6" | "e = 7"
    | "e = 8" | "e = 9" | "e = 10" | "e = 11"
    unfolding upt_12 by auto
  then show ?thesis
  proof cases
    case 1
    from ip [of lx hx "v000 c" "v001 c"] assms obtain r where
      "interpolate (thresh c) (v000 c) (v001 c) lx hx = Fin r" "lx \<le> r" "r \<le> hx"
      by (auto simp: lo hi)
    then show ?thesis using 1 assms
      by (intro exI [of _ "(r, ly, lz)"])
        (simp add: edge_vertex_def lo hi edge_corners_def corner_position_def)
  qed (insert assms,
      auto simp: edge_vertex_def lo hi edge_corners_def corner_position_def dest: ip)
qed


lemma unfin3_fin3 [simp]: "unfin3 (fin3 p) = p"
  by (cases p) simp

lemma filter_fst_map:
  "filter fst (map (\<lambda>e. (f e, g e)) xs) = map (\<lambda>e. (f e, g e)) (filter f xs)"
  by (induction xs) auto

lemma pdiv_fin3:
  assumes "d \<noteq> 0"
  shows "pdiv (fin3 (vsum ps)) (Fin d) =
           fin3 (coord (vsum ps) 0 / d, coord (vsum ps) 1 / d, coord (vsum ps) 2 / d)"
  using assms by (simp add: vsum_def)

lemma centre_vertex_mean:
  assumes box: "coord (cell_lo c) 0 \<le> coord (cell_hi c) 0"
    "coord (cell_lo c) 1 \<le> coord (cell_hi c) 1" "coord (cell_lo c) 2 \<le> coord (cell_hi c) 2"
    and ne: "filter (crossing c) [0..<12] \<noteq> []"
  shows "\<exists>ps. map (\<lambda>e. edge_vertex c (int e)) (filter (crossing c) [0..<12]) =
                 map (\<lambda>p. Some (fin3 p)) ps \<and>
              centre_vertex c = fin3 (vmean ps)"
proof -
  define P where "P e = unfin3 (the (edge_vertex c (int e)))" for e
  define es where "es = filter (crossing c) [0..<12]"
  have P: "edge_vertex c (int e) = Some (fin3 (P e))" if "e < 12" for e
    using edge_vertex_fin [OF that box] by (auto simp: P_def)
  have terms: "centre_terms c =
      map (\<lambda>(b, p). (b, fin3 p)) (map (\<lambda>e. (crossing c e, P e)) [0..<12])"
    unfolding centre_terms_eq by (simp add: P)
  have sel: "filter fst (map (\<lambda>e. (crossing c e, P e)) [0..<12]) =
      map (\<lambda>e. (crossing c e, P e)) es"
    unfolding es_def by (rule filter_fst_map)
  have "fold centre_step (centre_terms c) (0, fin3 (0, 0, 0)) =
      (length es, fin3 (vadd (0, 0, 0) (vsum (map P es))))"
    unfolding terms fold_centre_step sel by (simp add: comp_def)
  moreover have "vadd (0, 0, 0) (vsum (map P es)) = vsum (map P es)"
    by (simp add: vsum_def)
  moreover have "length es \<noteq> 0" using ne by (simp add: es_def)
  ultimately have "centre_vertex c = fin3 (vmean (map P es))"
    by (simp add: centre_vertex_def vmean_def vsum_def)
  moreover have "map (\<lambda>e. edge_vertex c (int e)) es = map (\<lambda>p. Some (fin3 p)) (map P es)"
    by (simp add: es_def P)
  ultimately show ?thesis unfolding es_def by blast
qed

lemma add_triangle_fold_nth:
  assumes "t < length pt"
  shows "fold (\<lambda>t pt. case f t of Some p \<Rightarrow> pt[t := p] | None \<Rightarrow> pt) [0..<m] pt ! t =
           (if t < m then (case f t of Some p \<Rightarrow> p | None \<Rightarrow> pt ! t) else pt ! t)"
    and "length (fold (\<lambda>t pt. case f t of Some p \<Rightarrow> pt[t := p] | None \<Rightarrow> pt) [0..<m] pt) = length pt"
  using assms by (induction m) (auto split: option.splits simp: less_Suc_eq)

text \<open>
  C9.  The vertices that a tiling gets for the edge indices 0 to 11 lie on edges of
  the bounding box of the cell, each between the two corners that its cube edge
  joins.  For the edge index 12 the vertex is the arithmetic mean of the vertices of
  exactly those of the twelve cube edges whose two end corners have different sign
  bits (one above the threshold and one not), provided there is such an edge.
  \<^verbatim>\<open>add_triangle\<close> stores the vertex of \<open>trig[t]\<close> in \<open>pt[t]\<close>.
\<close>

theorem tunnel_centre_vertex:
  assumes "coord (cell_lo c) 0 \<le> coord (cell_hi c) 0"
    and "coord (cell_lo c) 1 \<le> coord (cell_hi c) 1"
    and "coord (cell_lo c) 2 \<le> coord (cell_hi c) 2"
  shows "(\<forall>e<12. \<exists>p. tile_vertex c (int e) = Some (fin3 p) \<and>
             on_box_edge (cell_lo c) (cell_hi c) p \<and>
             between (corner_position c (fst (edge_corners e)))
               (corner_position c (snd (edge_corners e))) p) \<and>
         (filter (crossing c) [0..<12] \<noteq> [] \<longrightarrow>
            (\<exists>ps. map (\<lambda>e. tile_vertex c (int e)) (filter (crossing c) [0..<12]) =
                     map (\<lambda>p. Some (fin3 p)) ps \<and>
                   tile_vertex c 12 = Some (fin3 (vmean ps)))) \<and>
         (\<forall>trig n pt t p. t < 3 * n \<and> t < length pt \<and> tile_vertex c (trig ! t) = Some p \<longrightarrow>
            snd (add_triangle c trig n pt) ! t = p)"
proof (intro conjI allI impI)
  fix e :: nat
  assume "e < 12"
  then show "\<exists>p. tile_vertex c (int e) = Some (fin3 p) \<and>
             on_box_edge (cell_lo c) (cell_hi c) p \<and>
             between (corner_position c (fst (edge_corners e)))
               (corner_position c (snd (edge_corners e))) p"
    using edge_vertex_fin [OF _ assms, of e] by (simp add: tile_vertex_def)
next
  assume "filter (crossing c) [0..<12] \<noteq> []"
  from centre_vertex_mean [OF assms this] obtain ps where
    ps: "map (\<lambda>e. edge_vertex c (int e)) (filter (crossing c) [0..<12]) =
           map (\<lambda>p. Some (fin3 p)) ps" "centre_vertex c = fin3 (vmean ps)"
    by blast
  have "map (\<lambda>e. tile_vertex c (int e)) (filter (crossing c) [0..<12]) =
          map (\<lambda>e. edge_vertex c (int e)) (filter (crossing c) [0..<12])"
    by (rule map_cong) (auto simp: tile_vertex_def)
  with ps show "\<exists>ps. map (\<lambda>e. tile_vertex c (int e)) (filter (crossing c) [0..<12]) =
                     map (\<lambda>p. Some (fin3 p)) ps \<and>
                   tile_vertex c 12 = Some (fin3 (vmean ps))"
    by (auto simp: tile_vertex_def)
next
  fix trig :: "int list" and n t :: nat and pt :: "point list" and p :: point
  assume "t < 3 * n \<and> t < length pt \<and> tile_vertex c (trig ! t) = Some p"
  then show "snd (add_triangle c trig n pt) ! t = p"
    by (simp add: add_triangle_def add_triangle_fold_nth)
qed

theorem tunnel_centre_vertex_witness:
  "let c = \<lparr>thresh = 255 / 2, cell_lo = (0, 0, 0), cell_hi = (1, 1, 1),
              v000 = 255, v001 = 0, v010 = 0, v011 = 0,
              v100 = 0, v101 = 0, v110 = 0, v111 = 0\<rparr>
   in coord (cell_lo c) 0 \<le> coord (cell_hi c) 0 \<and> coord (cell_lo c) 1 \<le> coord (cell_hi c) 1 \<and>
      coord (cell_lo c) 2 \<le> coord (cell_hi c) 2 \<and>
      filter (crossing c) [0..<12] = [0, 3, 8] \<and>
      map (\<lambda>e. tile_vertex c (int e)) [0, 3, 8] =
        [Some (Fin (1 / 2), Fin 0, Fin 0), Some (Fin 0, Fin (1 / 2), Fin 0),
         Some (Fin 0, Fin 0, Fin (1 / 2))] \<and>
      tile_vertex c 12 = Some (Fin (1 / 6), Fin (1 / 6), Fin (1 / 6)) \<and>
      snd (add_triangle c [0, 8, 12] 1 [(NaN, NaN, NaN), (NaN, NaN, NaN), (NaN, NaN, NaN)]) ! 2 =
        (Fin (1 / 6), Fin (1 / 6), Fin (1 / 6))"
proof -
  define c where "c = \<lparr>thresh = 255 / 2, cell_lo = (0, 0, 0), cell_hi = (1, 1, 1),
              v000 = 255, v001 = 0, v010 = 0, v011 = 0,
              v100 = 0, v101 = 0, v110 = 0, v111 = (0::int)\<rparr>"
  have box: "coord (cell_lo c) 0 \<le> coord (cell_hi c) 0" "coord (cell_lo c) 1 \<le> coord (cell_hi c) 1"
    "coord (cell_lo c) 2 \<le> coord (cell_hi c) 2"
    by (simp_all add: c_def)
  have es: "filter (crossing c) [0..<12] = [0, 3, 8]"
    unfolding upt_12
    by (simp add: c_def crossing_def edge_corners_def sign_bit_def corner_value_def)
  have vs: "map (\<lambda>e. tile_vertex c (int e)) [0, 3, 8] =
        [Some (Fin (1 / 2), Fin 0, Fin 0), Some (Fin 0, Fin (1 / 2), Fin 0),
         Some (Fin 0, Fin 0, Fin (1 / 2))]"
    by (simp add: c_def tile_vertex_def edge_vertex_def interpolate_def MAXd_def MINd_def)
  note T = tunnel_centre_vertex [OF box]
  have ne: "filter (crossing c) [0..<12] \<noteq> []"
    by (simp add: es)
  from T [THEN conjunct2, THEN conjunct1, rule_format, OF ne] obtain ps where
    ps: "map (\<lambda>e. tile_vertex c (int e)) (filter (crossing c) [0..<12]) =
           map (\<lambda>p. Some (fin3 p)) ps"
      "tile_vertex c 12 = Some (fin3 (vmean ps))"
    by blast
  from ps(1) have "map (\<lambda>p. Some (fin3 p)) ps =
      [Some (Fin (1 / 2), Fin 0, Fin 0), Some (Fin 0, Fin (1 / 2), Fin 0),
       Some (Fin 0, Fin 0, Fin (1 / 2))]"
    unfolding es vs by simp
  then have "ps = [(1 / 2, 0, 0), (0, 1 / 2, 0), (0, 0, 1 / 2)]"
    by (auto simp: map_eq_Cons_conv)
  with ps(2) have c12: "tile_vertex c 12 = Some (Fin (1 / 6), Fin (1 / 6), Fin (1 / 6))"
    by (simp add: vmean_def)
  have "snd (add_triangle c [0, 8, 12] 1 [(NaN, NaN, NaN), (NaN, NaN, NaN), (NaN, NaN, NaN)]) ! 2 =
        (Fin (1 / 6), Fin (1 / 6), Fin (1 / 6))"
    by (rule T [THEN conjunct2, THEN conjunct2, rule_format]) (simp add: c12)
  with box es vs c12 show ?thesis unfolding c_def Let_def by blast
qed

section \<open>Properties of the face test\<close>

lemma face_code_cases:
  assumes "face \<in> {-6..-1} \<union> {1..6::int}"
  obtains "face = -1 \<or> face = 1" | "face = -2 \<or> face = 2" | "face = -3 \<or> face = 3"
    | "face = -4 \<or> face = 4" | "face = -5 \<or> face = 5" | "face = -6 \<or> face = 6"
proof -
  from assms have "face = -6 \<or> face = -5 \<or> face = -4 \<or> face = -3 \<or> face = -2 \<or> face = -1
      \<or> face = 1 \<or> face = 2 \<or> face = 3 \<or> face = 4 \<or> face = 5 \<or> face = 6"
    by (simp only: Un_iff atLeastAtMost_iff) presburger
  then show thesis using that by blast
qed

lemma face_values_corners:
  assumes "face \<in> {-6..-1} \<union> {1..6}"
  shows "\<exists>A B C D. face_values c face = Some (A, B, C, D) \<and>
           [A, B, C, D] = map (corner_iso c) (face_corners (nat \<bar>face\<bar>))"
  using assms
  by (rule face_code_cases)
    (auto simp: face_values_def face_corners_def corner_iso_def corner_value_def
      v000iso_def v001iso_def v010iso_def v011iso_def v100iso_def v101iso_def v110iso_def
      v111iso_def)

text \<open>
  The four corners of a face code lie on one face of the cube (they agree in one
  digit of their positions), and they are listed around the face: consecutive
  corners, and the last and the first, differ in exactly one digit, so that \<open>A\<close>
  and \<open>C\<close> are opposite corners of the face, as are \<open>B\<close> and \<open>D\<close>.
\<close>

lemma face_corners_on_face:
  assumes "f \<in> {1..6}"
  shows "\<exists>d<3. \<exists>s. \<forall>k \<in> set (face_corners f). k < 8 \<and> corner_digit k d = s"
proof -
  from assms have "f = 1 \<or> f = 2 \<or> f = 3 \<or> f = 4 \<or> f = 5 \<or> f = 6"
    by (simp only: atLeastAtMost_iff) presburger
  then consider "f = 1" | "f = 2" | "f = 3" | "f = 4" | "f = 5" | "f = 6" by blast
  then show ?thesis
  proof cases
    case 1 then show ?thesis
      by (intro exI [of _ 1] exI [of _ 0]) (simp add: face_corners_def corner_digit_def)
  next
    case 2 then show ?thesis
      by (intro exI [of _ 0] exI [of _ 1]) (simp add: face_corners_def corner_digit_def)
  next
    case 3 then show ?thesis
      by (intro exI [of _ 1] exI [of _ 1]) (simp add: face_corners_def corner_digit_def)
  next
    case 4 then show ?thesis
      by (intro exI [of _ 0] exI [of _ 0]) (simp add: face_corners_def corner_digit_def)
  next
    case 5 then show ?thesis
      by (intro exI [of _ 2] exI [of _ 0]) (simp add: face_corners_def corner_digit_def)
  next
    case 6 then show ?thesis
      by (intro exI [of _ 2] exI [of _ 1]) (simp add: face_corners_def corner_digit_def)
  qed
qed

text \<open>
  C4.  For a face code \<open>face\<close> with \<open>1 \<le> |face| \<le> 6\<close> the values \<open>A\<close>, \<open>B\<close>,
  \<open>C\<close>, \<open>D\<close> are the corner values minus the threshold at the four corners of
  face \<open>|face|\<close>.  The test returns true exactly when
  \<open>face * A * (A * C - B * D) \<ge> 0\<close>, except that the result is \<open>face \<ge> 0\<close>
  when \<open>|A * C - B * D| < EPSILON\<close>.  The expressions are those of the program:
  the operations are the rounded operations of doubles.
\<close>

theorem test_face_rule:
  assumes "face \<in> {-6..-1} \<union> {1..6}"
  shows "\<exists>A B C D. [A, B, C, D] = map (corner_iso c) (face_corners (nat \<bar>face\<bar>)) \<and>
           test_face c face =
             Inr (if \<bar>A * C - B * D\<bar> < EPSILON then 0 \<le> face
                  else Fin 0 \<le> dbl_of_int face * A * (A * C - B * D))"
proof -
  from face_values_corners [OF assms, of c] show ?thesis
  proof (elim exE conjE)
    fix A B C D
    assume "face_values c face = Some (A, B, C, D)"
      and "[A, B, C, D] = map (corner_iso c) (face_corners (nat \<bar>face\<bar>))"
    then show ?thesis
      by (intro exI [of _ A] exI [of _ B] exI [of _ C] exI [of _ D]) (simp add: test_face_def)
  qed
qed

theorem test_face_rule_witness:
  "(-1::int) \<in> {-6..-1} \<union> {1..6} \<and> (1::int) \<in> {-6..-1} \<union> {1..6} \<and>
   map (corner_iso example_cube_face) (face_corners (nat \<bar>-1\<bar>)) =
     [Fin (255 / 2), Fin (- (255 / 2)), Fin (145 / 2), Fin (- (255 / 2))] \<and>
   test_face example_cube_face (-1) = Inr True \<and>
   test_face example_cube_face 1 = Inr False \<and>
   rnd (636 / 5) = 8950904259398861 / 2 ^ 46 \<and>
   map (corner_iso example_cube_rounded) (face_corners (nat \<bar>1\<bar>)) =
     [Fin (2378463553205043 / 2 ^ 46), Fin (- (6769473189891277 / 2 ^ 46)),
      Fin (8852388017550131 / 2 ^ 46), Fin (- (3110298492652749 / 2 ^ 46))] \<and>
   Fin (2378463553205043 / 2 ^ 46) * Fin (8852388017550131 / 2 ^ 46) -
     Fin (- (6769473189891277 / 2 ^ 46)) * Fin (- (3110298492652749 / 2 ^ 46)) = Fin 0 \<and>
   (2378463553205043 / 2 ^ 46) * (8852388017550131 / 2 ^ 46) -
     (- (6769473189891277 / 2 ^ 46)) * (- (3110298492652749 / 2 ^ 46)) = (- (15 / 2 ^ 44) :: real) \<and>
   test_face example_cube_rounded 1 = Inr True \<and>
   test_face example_cube_rounded (-1) = Inr False"
proof -
  let ?A = "Fin (255 / 2)" and ?B = "Fin (- (255 / 2))" and ?C = "Fin (145 / 2)"
  let ?P = "Fin (2378463553205043 / 2 ^ 46)" and ?Q = "Fin (- (6769473189891277 / 2 ^ 46))"
    and ?R = "Fin (8852388017550131 / 2 ^ 46)" and ?S = "Fin (- (3110298492652749 / 2 ^ 46))"
  have m: "(-1::int) \<in> {-6..-1} \<union> {1..6}" and p: "(1::int) \<in> {-6..-1} \<union> {1..6}"
    by simp_all
  have vm: "map (corner_iso example_cube_face) (face_corners (nat \<bar>-1\<bar>)) = [?A, ?B, ?C, ?B]"
    and vp: "map (corner_iso example_cube_face) (face_corners (nat \<bar>1\<bar>)) = [?A, ?B, ?C, ?B]"
    and wp: "map (corner_iso example_cube_rounded) (face_corners (nat \<bar>1\<bar>)) = [?P, ?Q, ?R, ?S]"
    and wm: "map (corner_iso example_cube_rounded) (face_corners (nat \<bar>-1\<bar>)) = [?P, ?Q, ?R, ?S]"
    by (simp_all add: corner_iso_def face_corners_def corner_value_def example_cube_face_def
        example_cube_rounded_def dbl_ops rnd_defs)
  have r: "rnd (636 / 5) = 8950904259398861 / 2 ^ 46"
    and z: "?P * ?R - ?Q * ?S = Fin 0"
    by (simp_all add: dbl_ops rnd_defs)
  have x: "(2378463553205043 / 2 ^ 46) * (8852388017550131 / 2 ^ 46) -
     (- (6769473189891277 / 2 ^ 46)) * (- (3110298492652749 / 2 ^ 46)) = (- (15 / 2 ^ 44) :: real)"
    by simp
  have e1: "(if \<bar>?A * ?C - ?B * ?B\<bar> < EPSILON then (0::int) \<le> -1
             else Fin 0 \<le> dbl_of_int (-1) * ?A * (?A * ?C - ?B * ?B)) = True"
    and e2: "(if \<bar>?A * ?C - ?B * ?B\<bar> < EPSILON then (0::int) \<le> 1
             else Fin 0 \<le> dbl_of_int 1 * ?A * (?A * ?C - ?B * ?B)) = False"
    and e3: "(if \<bar>?P * ?R - ?Q * ?S\<bar> < EPSILON then (0::int) \<le> 1
             else Fin 0 \<le> dbl_of_int 1 * ?P * (?P * ?R - ?Q * ?S)) = True"
    and e4: "(if \<bar>?P * ?R - ?Q * ?S\<bar> < EPSILON then (0::int) \<le> -1
             else Fin 0 \<le> dbl_of_int (-1) * ?P * (?P * ?R - ?Q * ?S)) = False"
    by (simp_all add: EPSILON_def dbl_ops rnd_defs)
  have R: "test_face c' face =
             Inr (if \<bar>A * C - B * D\<bar> < EPSILON then 0 \<le> face
                  else Fin 0 \<le> dbl_of_int face * A * (A * C - B * D))"
    if "face \<in> {-6..-1} \<union> {1..6}"
      and "map (corner_iso c') (face_corners (nat \<bar>face\<bar>)) = [A, B, C, D]"
    for c' face A B C D
    using test_face_rule [OF that(1), of c'] that(2) by auto
  have "test_face example_cube_face (-1) = Inr True"
    by (rule R [OF m vm, unfolded e1])
  moreover have "test_face example_cube_face 1 = Inr False"
    by (rule R [OF p vp, unfolded e2])
  moreover have "test_face example_cube_rounded 1 = Inr True"
    by (rule R [OF p wp, unfolded e3])
  moreover have "test_face example_cube_rounded (-1) = Inr False"
    by (rule R [OF m wm, unfolded e4])
  ultimately show ?thesis using m p vm wp r z x by simp
qed

section \<open>Properties of the modified interior test\<close>










lemma face_vote_None:
  assumes "interior_ambiguity c f s = None"
  shows "face_vote c f s = Inl Undefined"
  using assms by (simp add: face_vote_def)


lemma modified_test_interior_undefined:
  assumes "icase \<in> {4, 6, 7, 10, 12}"
    and "\<exists>f \<in> set (ambiguous_faces tb config icase).
           interior_ambiguity c f (vote_sign s icase) = None"
  shows "modified_test_interior tb config c s icase = Inl Undefined"
proof -
  from assms(1) consider "icase = 4" | "icase = 6" | "icase = 7" | "icase = 10" | "icase = 12"
    by auto
  then show ?thesis
    using assms(2)
    by cases
      (auto simp: modified_test_interior_def ambiguous_faces_def vote_sign_def
         face_vote_def add_votes_def inter_amb_result_def Let_def split: option.splits)
qed












section \<open>Properties of the ingestion\<close>

lemma wrap32_id: "- (2 ^ 31) \<le> k \<Longrightarrow> k < 2 ^ 31 \<Longrightarrow> wrap32 k = k"
  by (simp add: wrap32_def)

lemma wrap64_id: "- (2 ^ 63) \<le> k \<Longrightarrow> k < 2 ^ 63 \<Longrightarrow> wrap64 k = k"
  by (simp add: wrap64_def)

lemma cdiv_nonneg: "0 \<le> a \<Longrightarrow> 0 < b \<Longrightarrow> cdiv a b = a div b"
  by (cases "a = 0") (simp_all add: cdiv_def)

lemma cmod_nonneg: "0 \<le> a \<Longrightarrow> 0 < b \<Longrightarrow> cmod a b = a mod b"
  by (simp add: cmod_def cdiv_nonneg minus_mult_div_eq_mod)

text \<open>
  As long as the product \<open>(nx+1) * (ny+1)\<close> fits the type \<^verbatim>\<open>int\<close> and the point
  index is not beyond the planes that an \<^verbatim>\<open>int\<close> can count, the program computes
  the coordinates of the point, and the loops over the cells of the point end.
\<close>

lemma point_coords_exact:
  assumes "0 \<le> nx" and "0 \<le> ny" and "(nx + 1) * (ny + 1) < 2 ^ 31"
    and "0 \<le> k" and "k < (nx + 1) * (ny + 1) * (2 ^ 31 - 1)"
  shows "point_coords nx ny (wrap64 k) = Inr (lattice_coords nx ny k)"
    and "\<not> loops_endless d (lattice_coords nx ny k)"
proof -
  let ?a = "nx + 1" and ?b = "ny + 1"
  have a: "0 < ?a" "0 < ?b" using assms(1,2) by simp_all
  have ab: "0 < ?a * ?b" using a by simp
  have "?a * 1 \<le> ?a * ?b" "1 * ?b \<le> ?a * ?b"
    using a by simp_all
  then have a31: "?a < 2 ^ 31" "?b < 2 ^ 31" using assms(3) by simp_all
  have "k < 2 ^ 31 * (2 ^ 31 - 1)"
  proof -
    have "?a * ?b * (2 ^ 31 - 1) \<le> 2 ^ 31 * (2 ^ 31 - 1)"
      using assms(3) by (intro mult_right_mono) simp_all
    with assms(5) show ?thesis by linarith
  qed
  then have k63: "k < 2 ^ 63" by simp
  have w: "wrap64 k = k" "wrap32 ?a = ?a" "wrap32 ?b = ?b"
    using assms(4) k63 a a31 by (simp_all add: wrap32_id wrap64_id)
  have wab: "wrap32 (?a * ?b) = ?a * ?b"
    using assms(3) ab by (intro wrap32_id) linarith+
  have x: "0 \<le> k mod ?a" "k mod ?a < ?a"
    using pos_mod_sign [OF a(1), of k] pos_mod_bound [OF a(1), of k] by blast+
  have q: "0 \<le> k div ?a" using assms(4) a by (simp add: pos_imp_zdiv_nonneg_iff)
  have y: "0 \<le> k div ?a mod ?b" "k div ?a mod ?b < ?b"
    using pos_mod_sign [OF a(2), of "k div ?a"] pos_mod_bound [OF a(2), of "k div ?a"] by blast+
  have z0: "0 \<le> k div (?a * ?b)"
    using assms(4) ab by (simp add: pos_imp_zdiv_nonneg_iff)
  have z1: "k div (?a * ?b) < 2 ^ 31 - 1"
  proof (rule ccontr)
    assume "\<not> k div (?a * ?b) < 2 ^ 31 - 1"
    then have g: "2 ^ 31 - 1 \<le> k div (?a * ?b)" by simp
    have "(?a * ?b) * (2 ^ 31 - 1) \<le> (?a * ?b) * (k div (?a * ?b))"
      using g ab by (intro mult_left_mono) simp_all
    also have "\<dots> \<le> k"
      using pos_mod_sign [OF ab, of k] mult_div_mod_eq [of "?a * ?b" k] by linarith
    finally show False using assms(5) by simp
  qed
  note z = z0 z1
  have n: "\<not> no_quotient k ?a" "\<not> no_quotient (k div ?a) ?b" "\<not> no_quotient k (?a * ?b)"
    unfolding no_quotient_def using a ab by linarith+
  have c: "cdiv k ?a = k div ?a" "cmod k ?a = k mod ?a" "cmod (k div ?a) ?b = k div ?a mod ?b"
    "cdiv k (?a * ?b) = k div (?a * ?b)"
    using assms(4) a ab q by (simp_all add: cdiv_nonneg cmod_nonneg)
  have r: "wrap32 (k mod ?a) = k mod ?a" "wrap32 (k div ?a mod ?b) = k div ?a mod ?b"
    "wrap32 (k div (?a * ?b)) = k div (?a * ?b)"
    using x y z a31 by (simp_all add: wrap32_id)
  show "point_coords nx ny (wrap64 k) = Inr (lattice_coords nx ny k)"
    unfolding point_coords_def lattice_coords_def Let_def w wab c using n r by simp
  show "\<not> loops_endless d (lattice_coords nx ny k)"
    using x y z a31 by (simp add: loops_endless_def lattice_coords_def loop_endless_def Let_def)
qed

lemma assign_corners_abort:
  assumes "\<And>i. i < length buf \<Longrightarrow>
             point_coords nx ny (wrap64 (offset + int i)) = Inr (lattice_coords nx ny (offset + int i))"
    and "\<And>i. i < length buf \<Longrightarrow> \<not> loops_endless d (lattice_coords nx ny (offset + int i))"
  shows "assign_corners d nx ny nz hash offset buf cv = Inl e \<longleftrightarrow>
     e = BoundaryNotZero \<and>
     (\<exists>i<length buf. buf ! i \<noteq> 0 \<and> zeroflag d nx ny nz (lattice_coords nx ny (offset + int i)))"
  using assms
proof (induction buf arbitrary: offset cv)
  case Nil
  then show ?case by simp
next
  case (Cons b buf)
  have ex: "(\<exists>i<Suc (length buf). P i) \<longleftrightarrow> P 0 \<or> (\<exists>i<length buf. P (Suc i))" for P
    by (metis less_Suc_eq_0_disj)
  have 0: "point_coords nx ny (wrap64 offset) = Inr (lattice_coords nx ny offset)"
    "\<not> loops_endless d (lattice_coords nx ny offset)"
    using Cons.prems(1) [of 0] Cons.prems(2) [of 0] by simp_all
  have s: "point_coords nx ny (wrap64 (offset + 1 + int i)) =
             Inr (lattice_coords nx ny (offset + 1 + int i))"
    "\<not> loops_endless d (lattice_coords nx ny (offset + 1 + int i))" if "i < length buf" for i
    using Cons.prems(1) [of "Suc i"] Cons.prems(2) [of "Suc i"] that
    by (simp_all add: add.assoc add.commute [of 1])
  note IH = Cons.IH [of "offset + 1", OF s]
  show ?case
    unfolding assign_corners.simps 0(1) length_Cons ex
    using 0(2) by (auto simp: IH add.assoc add.commute [of 1])
qed

lemma point_coords_lattice:
  assumes "0 \<le> nx" "0 \<le> ny" "on_lattice nx ny p"
  shows "lattice_coords nx ny (lattice_index nx ny p) = p"
proof -
  obtain x y z where p: "p = (x, y, z)" by (cases p)
  from assms p have r: "0 \<le> x" "x < nx + 1" "0 \<le> y" "y < ny + 1" "0 \<le> z"
    by (simp_all add: on_lattice_def)
  have 1: "(x + (nx + 1) * (y + (ny + 1) * z)) mod (nx + 1) = x"
    using r by simp
  have 2: "(x + (nx + 1) * (y + (ny + 1) * z)) div (nx + 1) = y + (ny + 1) * z"
    using r by simp
  have 3: "(y + (ny + 1) * z) mod (ny + 1) = y" "(y + (ny + 1) * z) div (ny + 1) = z"
    using r by simp_all
  have 4: "(x + (nx + 1) * (y + (ny + 1) * z)) div ((nx + 1) * (ny + 1)) = z"
    using assms(2) 2 3 by (simp add: zdiv_zmult2_eq)
  show ?thesis
    unfolding p lattice_coords_def lattice_index_def prod.case 1 2 3 4 ..
qed

lemma lattice_index_coords:
  assumes "0 \<le> nx" "0 \<le> ny" "0 \<le> k"
  shows "on_lattice nx ny (lattice_coords nx ny k)"
    and "lattice_index nx ny (lattice_coords nx ny k) = k"
proof -
  have a: "0 \<le> k div ((nx + 1) * (ny + 1))"
    using assms by (simp add: pos_imp_zdiv_nonneg_iff)
  show "on_lattice nx ny (lattice_coords nx ny k)"
  proof -
    have "k mod (nx + 1) < nx + 1"
      using pos_mod_bound [of "nx + 1" k] assms by linarith
    moreover have "k div (nx + 1) mod (ny + 1) < ny + 1"
      using pos_mod_bound [of "ny + 1" "k div (nx + 1)"] assms by linarith
    ultimately have "k mod (nx + 1) \<le> nx" "k div (nx + 1) mod (ny + 1) \<le> ny"
      by simp_all
    then show ?thesis
      using assms a by (simp add: on_lattice_def lattice_coords_def)
  qed
  have "k div ((nx + 1) * (ny + 1)) = (k div (nx + 1)) div (ny + 1)"
    using assms by (simp add: zdiv_zmult2_eq)
  then show "lattice_index nx ny (lattice_coords nx ny k) = k"
    by (simp add: lattice_index_def lattice_coords_def)
qed

lemma zeroflag_boundary: "zeroflag d nx ny nz p = on_boundary d nx ny nz p"
  by (cases p) (auto simp: zeroflag_def on_boundary_def)

text \<open>
  Within these bounds the ingestion aborts, and then with \<open>BoundaryNotZero\<close>,
  exactly when one of the samples is not zero and its lattice point lies on the
  outer boundary of the lattice: \<open>x\<close> is 0 or \<open>nx\<close>, or \<open>y\<close> is 0 or \<open>ny\<close>, or, in
  three dimensions, \<open>z\<close> is 0 or \<open>nz\<close>.
\<close>

lemma boundary_zero_bounded:
  assumes "0 \<le> nx" and "0 \<le> ny" and "(nx + 1) * (ny + 1) < 2 ^ 31"
    and "0 \<le> offset" and "offset + int (length buf) \<le> (nx + 1) * (ny + 1) * (2 ^ 31 - 1)"
  shows "((\<exists>e. assign_corners dimension nx ny nz hash offset buf cvalues = Inl e) \<longleftrightarrow>
            (\<exists>i p. i < length buf \<and> buf ! i \<noteq> 0 \<and> on_lattice nx ny p \<and>
               lattice_index nx ny p = offset + int i \<and> on_boundary dimension nx ny nz p)) \<and>
         (\<forall>e. assign_corners dimension nx ny nz hash offset buf cvalues = Inl e \<longrightarrow>
              e = BoundaryNotZero)"
proof -
  have b: "0 \<le> offset + int i" "offset + int i < (nx + 1) * (ny + 1) * (2 ^ 31 - 1)"
    if "i < length buf" for i
    using that assms(4,5) by simp_all
  have pc: "point_coords nx ny (wrap64 (offset + int i)) =
              Inr (lattice_coords nx ny (offset + int i))"
    "\<not> loops_endless dimension (lattice_coords nx ny (offset + int i))"
    if "i < length buf" for i
    using point_coords_exact [OF assms(1-3) b(1) [OF that] b(2) [OF that]] by simp_all
  note A = assign_corners_abort [of buf nx ny offset dimension, OF pc]
  show ?thesis
  proof (intro conjI iffI allI impI)
    assume "\<exists>e. assign_corners dimension nx ny nz hash offset buf cvalues = Inl e"
    then obtain i where i: "i < length buf" "buf ! i \<noteq> 0"
      "zeroflag dimension nx ny nz (lattice_coords nx ny (offset + int i))"
      using A by blast
    show "\<exists>i p. i < length buf \<and> buf ! i \<noteq> 0 \<and> on_lattice nx ny p \<and>
               lattice_index nx ny p = offset + int i \<and> on_boundary dimension nx ny nz p"
      using i lattice_index_coords [OF assms(1,2) b(1) [OF i(1)]]
      by (intro exI [of _ i] exI [of _ "lattice_coords nx ny (offset + int i)"])
        (simp add: zeroflag_boundary)
  next
    assume "\<exists>i p. i < length buf \<and> buf ! i \<noteq> 0 \<and> on_lattice nx ny p \<and>
               lattice_index nx ny p = offset + int i \<and> on_boundary dimension nx ny nz p"
    then obtain i p where i: "i < length buf" "buf ! i \<noteq> 0" "on_lattice nx ny p"
      "lattice_index nx ny p = offset + int i" "on_boundary dimension nx ny nz p"
      by blast
    from point_coords_lattice [OF assms(1,2) i(3)] i(4)
    have "lattice_coords nx ny (offset + int i) = p" by simp
    with i have "assign_corners dimension nx ny nz hash offset buf cvalues = Inl BoundaryNotZero"
      using A by (auto simp: zeroflag_boundary)
    then show "\<exists>e. assign_corners dimension nx ny nz hash offset buf cvalues = Inl e" ..
  next
    fix e
    assume "assign_corners dimension nx ny nz hash offset buf cvalues = Inl e"
    then show "e = BoundaryNotZero"
      using A by blast
  qed
qed

text \<open>
  A lattice of 3 by 3 points in two dimensions with two cells in the table of the
  process: a sample at the boundary point \<open>(2, 1)\<close> stops the ingestion, and a
  sample at the interior point \<open>(1, 1)\<close> is stored as corner 3 of the first cell and
  as corner 2 of the second one.
\<close>

lemma assign_corners_examples:
  "assign_corners 2 2 2 1 [0 \<mapsto> 0, 1 \<mapsto> 1] 0 [0, 0, 0, 0, 0, 7, 0, 0, 0]
     [[0, 0, 0, 0], [0, 0, 0, 0]] = Inl BoundaryNotZero"
  "assign_corners 2 2 2 1 [0 \<mapsto> 0, 1 \<mapsto> 1] 0 [0, 0, 0, 0, 200, 0, 0, 0, 0]
     [[0, 0, 0, 0], [0, 0, 0, 0]] = Inr [[0, 0, 0, 200], [0, 0, 200, 0]]"
  by (simp_all add: point_coords_def wrap32_def wrap64_def cdiv_def cmod_def no_quotient_def
      zeroflag_def loops_endless_def loop_endless_def loop_values_def corner_cells_def
      store_corner_def)

text \<open>
  C6.  Ingestion is to abort with \<open>BoundaryNotZero\<close> for every sample that is not
  zero and whose lattice point lies on the outer boundary of the lattice.  The
  program does so within the bounds of the preceding lemma, but not for every
  lattice that it accepts.  With \<open>nx = ny = 46340\<close> the product \<open>(nx+1) * (ny+1)\<close>
  is 2147488281, one more than the type \<^verbatim>\<open>int\<close> holds; the \<^verbatim>\<open>int\<close> that the program
  divides by is negative.  The lattice point \<open>(1, 1, 1)\<close> of a lattice with \<open>nz = 1\<close>
  lies on the boundary \<open>z = nz\<close>; the program computes \<open>piz = -1\<close> for it and
  accepts a sample that is not zero.  With \<open>nx = ny = 46339\<close> the same point is
  refused.
\<close>

theorem boundary_zero_overflow:
  "on_lattice 46340 46340 (1, 1, 1) \<and>
   on_boundary 3 46340 46340 1 (1, 1, 1) \<and>
   lattice_index 46340 46340 (1, 1, 1) = 2147534623 \<and>
   (46340 + 1) * (46340 + 1) = (2147488281 :: int) \<and>
   wrap32 ((46340 + 1) * (46340 + 1)) = - 2147479015 \<and>
   point_coords 46340 46340 (wrap64 2147534623) = Inr (1, 1, - 1) \<and>
   assign_corners 3 46340 46340 1 Map.empty 2147534623 [1] [] = Inr [] \<and>
   lattice_index 46339 46339 (1, 1, 1) = 2147441941 \<and>
   point_coords 46339 46339 (wrap64 2147441941) = Inr (1, 1, 1) \<and>
   assign_corners 3 46339 46339 1 Map.empty 2147441941 [1] [] = Inl BoundaryNotZero"
proof -
  have p: "point_coords 46340 46340 (wrap64 2147534623) = Inr (1, 1, - 1)"
    "point_coords 46339 46339 (wrap64 2147441941) = Inr (1, 1, 1)"
    by (simp_all add: point_coords_def wrap32_def wrap64_def cdiv_def cmod_def no_quotient_def)
  have a: "assign_corners 3 46340 46340 1 Map.empty 2147534623 [1] [] = Inr []"
    unfolding assign_corners.simps p
    by (simp add: zeroflag_def loops_endless_def loop_endless_def loop_values_def
        corner_cells_def store_corner_def)
  have b: "assign_corners 3 46339 46339 1 Map.empty 2147441941 [1] [] = Inl BoundaryNotZero"
    unfolding assign_corners.simps p by (simp add: zeroflag_def)
  have l: "on_lattice 46340 46340 (1, 1, 1)" "on_boundary 3 46340 46340 1 (1, 1, 1)"
    "lattice_index 46340 46340 (1, 1, 1) = 2147534623"
    "(46340 + 1) * (46340 + 1) = (2147488281 :: int)"
    "wrap32 ((46340 + 1) * (46340 + 1)) = - 2147479015"
    "lattice_index 46339 46339 (1, 1, 1) = 2147441941"
    by (simp_all add: on_lattice_def on_boundary_def lattice_index_def wrap32_def)
  show ?thesis
    by (intro conjI) (rule l p a b)+
qed


section \<open>Properties of the cleanup: removing triangles from a cell\<close>

lemma takeWhile_neq_mem:
  assumes "m \<in> set xs"
  shows "length (takeWhile (\<lambda>x. x \<noteq> m) xs) < length xs \<and>
         xs ! length (takeWhile (\<lambda>x. x \<noteq> m) xs) = m"
  using assms by (induction xs) auto

lemma takeWhile_neq_notmem:
  assumes "m \<notin> set xs"
  shows "length (takeWhile (\<lambda>x. x \<noteq> m) xs) = length xs"
  using assms by (induction xs) auto

lemma swap_last_remove:
  assumes d: "distinct (ys @ [l])" and k: "k < length (ys @ [l])"
  shows "set (butlast ((ys @ [l])[k := l])) = set (ys @ [l]) - {(ys @ [l]) ! k} \<and>
         distinct (butlast ((ys @ [l])[k := l]))"
proof (cases "k = length ys")
  case True
  then show ?thesis using d by auto
next
  case False
  with k have kl: "k < length ys" by simp
  then have b: "butlast ((ys @ [l])[k := l]) = ys[k := l]"
    by (simp add: list_update_append)
  have "set (ys[k := l]) = insert l (set ys - {ys ! k})"
    using d kl by (simp add: set_update_distinct)
  moreover have "ys ! k \<noteq> l" using d kl by (metis distinct_append distinct.simps(2) disjoint_iff
      list.set_intros(1) nth_mem)
  moreover have "distinct (ys[k := l])" using d kl by (simp add: distinct_list_update)
  ultimately show ?thesis using b kl d by (auto simp: nth_append)
qed


lemma remove_surf_ok:
  assumes m: "m \<in> set (take n ptr)" and d: "distinct (take n ptr)" and n: "n \<le> length ptr"
  shows "\<exists>ptr'. remove_surf ptr n m = Inr (ptr', n - 1) \<and> length ptr' = length ptr \<and>
           set (take (n - 1) ptr') = set (take n ptr) - {m} \<and> distinct (take (n - 1) ptr')"
proof -
  let ?k = "find_surf ptr n m"
  from takeWhile_neq_mem [OF m] n have k: "?k < n" "take n ptr ! ?k = m"
    by (simp_all add: find_surf_def)
  let ?ptr' = "ptr[?k := ptr ! (n - 1)]"
  have r: "remove_surf ptr n m = Inr (?ptr', n - 1)"
    using k by (simp add: remove_surf_def Let_def)
  from k n have n0: "0 < n" "n - 1 < length ptr" by simp_all
  then have n1: "take n ptr = take (n - 1) ptr @ [ptr ! (n - 1)]"
    using take_Suc_conv_app_nth [of "n - 1" ptr] by simp
  have t: "take (n - 1) ?ptr' = butlast ((take (n - 1) ptr @ [ptr ! (n - 1)])[?k := ptr ! (n - 1)])"
  proof -
    have "butlast ((take n ptr)[?k := ptr ! (n - 1)]) = take (n - 1) ((take n ptr)[?k := ptr ! (n - 1)])"
      using n by (simp add: butlast_conv_take)
    also have "\<dots> = take (n - 1) (take n ?ptr')" by (simp add: take_update_swap)
    also have "\<dots> = take (n - 1) ?ptr'" by (simp add: min_def)
    finally show ?thesis unfolding n1 by simp
  qed
  from swap_last_remove [of "take (n - 1) ptr" "ptr ! (n - 1)" ?k] d k n n0
  have "set (take (n - 1) ?ptr') = set (take n ptr) - {m} \<and> distinct (take (n - 1) ?ptr')"
    unfolding t n1 [symmetric] by (simp add: n1 [symmetric])
  with r show ?thesis by simp
qed

lemma remove_surf_missing:
  assumes "m \<notin> set (take n ptr)" and "n \<le> length ptr"
  shows "remove_surf ptr n m = Inl MissingSurfOnCell"
  using takeWhile_neq_notmem [OF assms(1)] assms(2)
  by (simp add: remove_surf_def find_surf_def)

lemma remove_pair_ok:
  assumes m: "m0 \<in> set (surfs c)" "m1 \<in> set (surfs c)" "m0 \<noteq> m1"
    and d: "distinct (surfs c)" and n: "nsurf c \<le> length (csurfs c)"
  shows "\<exists>c'. remove_pair c (nsurf c) m0 m1 = Inr (c', nsurf c - 2) \<and>
           nsurf c' = nsurf c - 2 \<and> length (csurfs c') = length (csurfs c) \<and>
           set (surfs c') = set (surfs c) - {m0, m1} \<and> distinct (surfs c') \<and>
           c' = c\<lparr>csurfs := csurfs c', nsurf := nsurf c - 2\<rparr>"
proof -
  from remove_surf_ok [of m0 "nsurf c" "csurfs c"] m d n obtain ptr1 where
    1: "remove_surf (csurfs c) (nsurf c) m0 = Inr (ptr1, nsurf c - 1)"
      "length ptr1 = length (csurfs c)"
      "set (take (nsurf c - 1) ptr1) = set (surfs c) - {m0}" "distinct (take (nsurf c - 1) ptr1)"
    by (auto simp: surfs_def)
  from 1 m n have "m1 \<in> set (take (nsurf c - 1) ptr1)" "nsurf c - 1 \<le> length ptr1"
    by auto
  from remove_surf_ok [OF this(1) 1(4) this(2)] obtain ptr2 where
    2: "remove_surf ptr1 (nsurf c - 1) m1 = Inr (ptr2, nsurf c - 1 - 1)"
      "length ptr2 = length ptr1"
      "set (take (nsurf c - 1 - 1) ptr2) = set (take (nsurf c - 1) ptr1) - {m1}"
      "distinct (take (nsurf c - 1 - 1) ptr2)"
    by auto
  have e: "nsurf c - 1 - 1 = nsurf c - 2" by simp
  show ?thesis
    using 1 2 unfolding e
    by (intro exI [of _ "c\<lparr>csurfs := ptr2, nsurf := nsurf c - 2\<rparr>"])
      (auto simp: remove_pair_def surfs_def)
qed


section \<open>Properties of the cleanup: the cell faces\<close>

lemma face_step_same_proc:
  assumes "nfacetri st ! icell ! iface = 2"
    and "neigh_decode env (nmask (cells st ! icell)) iface \<in> {NCHILD, NPBCHILD}"
    and "neigh (cells st ! icell) ! iface \<noteq> icell"
    and "proc (cells st ! (neigh (cells st ! icell) ! iface)) = me st"
  shows "face_step env icell iface (st, n) =
           same_proc_face icell iface (neigh (cells st ! icell) ! iface)
             (if iface mod 2 \<noteq> 0 then iface - 1 else iface + 1)
             (inward iface (tri_norm (tris st ! (facetris st ! icell ! iface ! 0)))) (st, n)"
  using assms by (auto simp: face_step_def Let_def)

lemma face_step_other_proc:
  assumes "nfacetri st ! icell ! iface = 2"
    and "neigh_decode env (nmask (cells st ! icell)) iface \<in> {NCHILD, NPBCHILD}"
    and "neigh (cells st ! icell) ! iface \<noteq> icell"
    and "proc (cells st ! (neigh (cells st ! icell) ! iface)) \<noteq> me st"
  shows "face_step env icell iface (st, n) =
           other_proc_face icell iface (proc (cells st ! (neigh (cells st ! icell) ! iface)))
             (ilocal (cells st ! (neigh (cells st ! icell) ! iface)))
             (if iface mod 2 \<noteq> 0 then iface - 1 else iface + 1)
             (inward iface (tri_norm (tris st ! (facetris st ! icell ! iface ! 0)))) (st, n)"
  using assms by (auto simp: face_step_def Let_def)

lemma same_proc_keep:
  assumes "nfacetri st ! ocell ! oface = 0" "inw \<noteq> 0"
  shows "same_proc_face icell iface ocell oface inw (st, n) = Inr (st, n)"
  using assms by (simp add: same_proc_face_def)

lemma same_proc_move:
  fixes st :: "'a pstate"
  assumes z: "nfacetri st ! ocell ! oface = 0" "inw = 0"
    and rng: "icell < length (cells st)" "ocell < length (cells st)" "ocell \<noteq> icell"
    and m: "m0 = facetris st ! icell ! iface ! 0" "m1 = facetris st ! icell ! iface ! 1" "m0 \<noteq> m1"
    and mi: "m0 \<in> set (surfs (cells st ! icell))" "m1 \<in> set (surfs (cells st ! icell))"
      "distinct (surfs (cells st ! icell))"
      "nsurf (cells st ! icell) \<le> length (csurfs (cells st ! icell))"
    and ml: "m0 < length (tris st)" "m1 < length (tris st)"
  shows "\<exists>st'. same_proc_face icell iface ocell oface inw (st, nsurf (cells st ! icell)) =
             Inr (st', nsurf (cells st ! icell) - 2) \<and>
           surfs (cells st' ! ocell) = surfs (cells st ! ocell) @ [m0, m1] \<and>
           tris st' = (tris st)[m0 := (tris st ! m0)\<lparr>tri_id := cell_id (cells st ! ocell)\<rparr>,
                                m1 := (tris st ! m1)\<lparr>tri_id := cell_id (cells st ! ocell)\<rparr>] \<and>
           set (surfs (cells st' ! icell)) = set (surfs (cells st ! icell)) - {m0, m1} \<and>
           nsurf (cells st' ! icell) = nsurf (cells st ! icell) - 2 \<and>
           dellist st' = dellist st \<and> nfacetri st' = nfacetri st \<and>
           (\<forall>j. j \<noteq> icell \<and> j \<noteq> ocell \<longrightarrow> cells st' ! j = cells st ! j)"
proof -
  let ?ci = "cells st ! icell" and ?co = "cells st ! ocell"
  from remove_pair_ok [OF mi(1,2) m(3) mi(3,4)] obtain c' where
    c': "remove_pair ?ci (nsurf ?ci) m0 m1 = Inr (c', nsurf ?ci - 2)"
      "nsurf c' = nsurf ?ci - 2" "set (surfs c') = set (surfs ?ci) - {m0, m1}"
    by blast
  let ?oc = "?co\<lparr>nsurf := nsurf ?co + 2, csurfs := take (nsurf ?co) (csurfs ?co) @ [m0, m1]\<rparr>"
  let ?ts = "(tris st)[m0 := (tris st ! m0)\<lparr>tri_id := cell_id ?co\<rparr>,
                                m1 := (tris st ! m1)\<lparr>tri_id := cell_id ?co\<rparr>]"
  let ?st' = "st\<lparr>cells := (cells st)[ocell := ?oc, icell := c'], tris := ?ts\<rparr>"
  have t: "(tris st)[m0 := (tris st ! m0)\<lparr>tri_id := cell_id ?co\<rparr>] ! m1 = tris st ! m1"
    using m(3) by simp
  have m': "facetris st ! icell ! iface ! 0 = m0" "facetris st ! icell ! iface ! Suc 0 = m1"
    using m by simp_all
  have r: "same_proc_face icell iface ocell oface inw (st, nsurf ?ci) = Inr (?st', nsurf ?ci - 2)"
    using z rng c' t by (simp add: same_proc_face_def Let_def m' list_update_swap [of icell ocell])
  have so: "surfs ?oc = surfs ?co @ [m0, m1]"
    by (auto simp: surfs_def min_def)
  show ?thesis
    using r rng c' so by (intro exI [of _ ?st']) (simp add: )
qed


lemma same_proc_delete:
  fixes st :: "'a pstate"
  assumes z: "nfacetri st ! ocell ! oface = 2"
    and rng: "icell < length (cells st)" "ocell < length (cells st)" "ocell \<noteq> icell"
    and nf: "ocell < length (nfacetri st)" "oface < length (nfacetri st ! ocell)"
    and m: "m0 = facetris st ! icell ! iface ! 0" "m1 = facetris st ! icell ! iface ! 1" "m0 \<noteq> m1"
    and mi: "m0 \<in> set (surfs (cells st ! icell))" "m1 \<in> set (surfs (cells st ! icell))"
      "distinct (surfs (cells st ! icell))"
      "nsurf (cells st ! icell) \<le> length (csurfs (cells st ! icell))"
    and o: "o0 = facetris st ! ocell ! oface ! 0" "o1 = facetris st ! ocell ! oface ! 1" "o0 \<noteq> o1"
    and oi: "o0 \<in> set (surfs (cells st ! ocell))" "o1 \<in> set (surfs (cells st ! ocell))"
      "distinct (surfs (cells st ! ocell))"
      "nsurf (cells st ! ocell) \<le> length (csurfs (cells st ! ocell))"
  shows "\<exists>st'. same_proc_face icell iface ocell oface inw (st, nsurf (cells st ! icell)) =
             Inr (st', nsurf (cells st ! icell) - 2) \<and>
           set (surfs (cells st' ! icell)) = set (surfs (cells st ! icell)) - {m0, m1} \<and>
           nsurf (cells st' ! icell) = nsurf (cells st ! icell) - 2 \<and>
           set (surfs (cells st' ! ocell)) = set (surfs (cells st ! ocell)) - {o0, o1} \<and>
           nsurf (cells st' ! ocell) = nsurf (cells st ! ocell) - 2 \<and>
           dellist st' = dellist st @ [m0, m1, o0, o1] \<and>
           tris st' = tris st \<and> nfacetri st' ! ocell ! oface = 0 \<and>
           (\<forall>j. j \<noteq> icell \<and> j \<noteq> ocell \<longrightarrow> cells st' ! j = cells st ! j)"
proof -
  let ?ci = "cells st ! icell" and ?co = "cells st ! ocell"
  from remove_pair_ok [OF mi(1,2) m(3) mi(3,4)] obtain c' where
    c': "remove_pair ?ci (nsurf ?ci) m0 m1 = Inr (c', nsurf ?ci - 2)"
      "nsurf c' = nsurf ?ci - 2" "set (surfs c') = set (surfs ?ci) - {m0, m1}"
    by blast
  from remove_pair_ok [OF oi(1,2) o(3) oi(3,4)] obtain oc' where
    oc': "remove_pair ?co (nsurf ?co) o0 o1 = Inr (oc', nsurf ?co - 2)"
      "nsurf oc' = nsurf ?co - 2" "set (surfs oc') = set (surfs ?co) - {o0, o1}"
    by blast
  let ?st' = "st\<lparr>nfacetri := (nfacetri st)[ocell := (nfacetri st ! ocell)[oface := 0]],
                 cells := (cells st)[ocell := oc', icell := c'],
                 dellist := dellist st @ [m0, m1, o0, o1]\<rparr>"
  have m': "facetris st ! icell ! iface ! 0 = m0" "facetris st ! icell ! iface ! Suc 0 = m1"
    "facetris st ! ocell ! oface ! 0 = o0" "facetris st ! ocell ! oface ! Suc 0 = o1"
    using m o by simp_all
  have r: "same_proc_face icell iface ocell oface inw (st, nsurf ?ci) = Inr (?st', nsurf ?ci - 2)"
    using z rng c' oc' by (simp add: same_proc_face_def Let_def m')
  show ?thesis
    using r rng nf c' oc' by (intro exI [of _ ?st']) simp
qed

lemma other_proc_send:
  fixes st :: "'a pstate"
  assumes rng: "icell < length (cells st)"
    and m: "m0 = facetris st ! icell ! iface ! 0" "m1 = facetris st ! icell ! iface ! 1" "m0 \<noteq> m1"
    and mi: "m0 \<in> set (surfs (cells st ! icell))" "m1 \<in> set (surfs (cells st ! icell))"
      "distinct (surfs (cells st ! icell))"
      "nsurf (cells st ! icell) \<le> length (csurfs (cells st ! icell))"
  shows "\<exists>st' n'. other_proc_face icell iface otherproc otherlocal oface inw
               (st, nsurf (cells st ! icell)) = Inr (st', n') \<and>
           proclist st' = proclist st @ [otherproc] \<and>
           bufsend st' = bufsend st @
             [\<lparr>sendcell = icell, sendface = iface, othercell = otherlocal, otherface = oface,
               inwardnorm = inw, tri1 = tris st ! m0, tri2 = tris st ! m1\<rparr>] \<and>
           tris st' = tris st \<and> nfacetri st' = nfacetri st \<and>
           (\<forall>j. j \<noteq> icell \<longrightarrow> cells st' ! j = cells st ! j) \<and>
           (inw \<noteq> 0 \<longrightarrow> cells st' = cells st \<and> dellist st' = dellist st \<and>
              n' = nsurf (cells st ! icell)) \<and>
           (inw = 0 \<longrightarrow>
              set (surfs (cells st' ! icell)) = set (surfs (cells st ! icell)) - {m0, m1} \<and>
              nsurf (cells st' ! icell) = nsurf (cells st ! icell) - 2 \<and>
              n' = nsurf (cells st ! icell) - 2 \<and>
              dellist st' = dellist st @ [m0, m1])"
proof -
  let ?ci = "cells st ! icell"
  from remove_pair_ok [OF mi(1,2) m(3) mi(3,4)] obtain c' where
    c': "remove_pair ?ci (nsurf ?ci) m0 m1 = Inr (c', nsurf ?ci - 2)"
      "nsurf c' = nsurf ?ci - 2" "set (surfs c') = set (surfs ?ci) - {m0, m1}"
    by blast
  have m': "facetris st ! icell ! iface ! 0 = m0" "facetris st ! icell ! iface ! Suc 0 = m1"
    using m by simp_all
  show ?thesis
  proof (cases "inw = 0")
    case True
    then show ?thesis using rng c'
      by (simp add: other_proc_face_def Let_def m')
  next
    case False
    then show ?thesis
      by (simp add: other_proc_face_def Let_def m')
  qed
qed

lemma recv_keep:
  assumes "nfacetri st ! othercell r ! otherface r = 0" "inwardnorm r \<noteq> 0"
  shows "recv_step env r st = Inr st"
  using assms by (simp add: recv_step_def)

lemma recv_adopt:
  fixes st :: "'a pstate"
  assumes "nfacetri st ! othercell r ! otherface r = 0" "inwardnorm r = 0"
  shows "recv_step env r st =
           Inr (st\<lparr>tris := tris st @
                     [(tri1 r)\<lparr>tri_id := cell_id (cells st ! othercell r)\<rparr>,
                      (tri2 r)\<lparr>tri_id := cell_id (cells st ! othercell r)\<rparr>],
                   cells := (cells st)[othercell r :=
                     (cells st ! othercell r)
                       \<lparr>nsurf := nsurf (cells st ! othercell r) + 2,
                        csurfs := take (nsurf (cells st ! othercell r))
                                    (csurfs (cells st ! othercell r)) @
                                  [length (tris st), length (tris st) + 1]\<rparr>]\<rparr>)"
  using assms by (simp add: recv_step_def Let_def nth_append list_update_append)


section \<open>Properties of the cleanup: the tally and the pairing check\<close>

lemma tally_tri_fold:
  assumes "f < length nf"
  shows "length (fst (fold (tally_tri env ts c) ms (nf, ft))) = length nf \<and>
         fst (fold (tally_tri env ts c) ms (nf, ft)) ! f =
           nf ! f + length (filter (\<lambda>m. tri_on_hex_face env (p1 (ts ! m)) (p2 (ts ! m))
                                       (p3 (ts ! m)) (bound_lo c) (bound_hi c) = int f) ms)"
  using assms
proof (induction ms arbitrary: nf ft)
  case Nil
  then show ?case by simp
next
  case (Cons m ms)
  let ?i = "tri_on_hex_face env (p1 (ts ! m)) (p2 (ts ! m)) (p3 (ts ! m)) (bound_lo c) (bound_hi c)"
  show ?case
  proof (cases "?i < 0")
    case True
    then have "tally_tri env ts c m (nf, ft) = (nf, ft)"
      by (simp add: tally_tri_def)
    with Cons True show ?thesis by simp
  next
    case False
    obtain ft' where s: "tally_tri env ts c m (nf, ft) = (nf[nat ?i := nf ! nat ?i + 1], ft')"
      using False by (simp add: tally_tri_def Let_def)
    have l: "f < length (nf[nat ?i := nf ! nat ?i + 1])" using Cons.prems by simp
    show ?thesis
    proof (cases "?i = int f")
      case True
      then have "nat ?i = f" by simp
      with Cons.IH [OF l, of ft'] s True Cons.prems show ?thesis by simp
    next
      case ne: False
      with False have "nat ?i \<noteq> f" by auto
      with Cons.IH [OF l, of ft'] s ne show ?thesis by simp
    qed
  qed
qed

lemma tally_cell_count:
  assumes "f < 6"
  shows "fst (tally_cell env ts c ft) ! f = face_count env ts c f"
proof -
  have z: "[0, 0, 0, 0, 0, 0::nat] ! f = 0"
    using assms by (simp add: nth_Cons split: nat.splits)
  have l: "f < length [0, 0, 0, 0, 0, 0::nat]" using assms by simp
  show ?thesis
    using tally_tri_fold [OF l, of env ts c "take (nsurf c) (csurfs c)" ft] z
    by (auto simp: tally_cell_def face_count_def surfs_def Let_def)
qed

lemma tally_fold_invariant:
  fixes st :: "'a pstate"
  assumes "k \<le> length (nfacetri st)"
  shows "let st' = fold (tally_step env) [0..<k] st in
         cells st' = cells st \<and> tris st' = tris st \<and> nglocal st' = nglocal st \<and>
         length (nfacetri st') = length (nfacetri st) \<and>
         (\<forall>i<k. nfacetri st' ! i =
                   fst (tally_cell env (tris st) (cells st ! i) (facetris st ! i))) \<and>
         (\<forall>i\<ge>k. facetris st' ! i = facetris st ! i)"
  using assms
proof (induction k)
  case 0
  then show ?case by simp
next
  case (Suc k)
  then have IH: "let st' = fold (tally_step env) [0..<k] st in
         cells st' = cells st \<and> tris st' = tris st \<and> nglocal st' = nglocal st \<and>
         length (nfacetri st') = length (nfacetri st) \<and>
         (\<forall>i<k. nfacetri st' ! i =
                   fst (tally_cell env (tris st) (cells st ! i) (facetris st ! i))) \<and>
         (\<forall>i\<ge>k. facetris st' ! i = facetris st ! i)"
    by simp
  define st1 where "st1 = fold (tally_step env) [0..<k] st"
  obtain nf ft where t: "tally_cell env (tris st1) (cells st1 ! k) (facetris st1 ! k) = (nf, ft)"
    by (cases "tally_cell env (tris st1) (cells st1 ! k) (facetris st1 ! k)")
  have s: "fold (tally_step env) [0..<Suc k] st =
      st1\<lparr>nfacetri := (nfacetri st1)[k := nf], facetris := (facetris st1)[k := ft]\<rparr>"
    by (simp add: st1_def [symmetric] tally_step_def t)
  from IH have 1: "cells st1 = cells st" "tris st1 = tris st" "nglocal st1 = nglocal st"
    "length (nfacetri st1) = length (nfacetri st)"
    "\<forall>i<k. nfacetri st1 ! i = fst (tally_cell env (tris st) (cells st ! i) (facetris st ! i))"
    "\<forall>i\<ge>k. facetris st1 ! i = facetris st ! i"
    by (simp_all add: st1_def Let_def)
  from t 1 have nf: "nf = fst (tally_cell env (tris st) (cells st ! k) (facetris st ! k))"
    by simp
  show ?case
    unfolding s Let_def using 1 Suc.prems nf
    by (auto simp: nth_list_update less_Suc_eq)
qed

lemma tally_nfacetri:
  fixes st :: "'a pstate"
  assumes "nglocal st \<le> length (nfacetri st)" "icell < nglocal st" "f < 6"
  shows "nfacetri (tally env st) ! icell ! f = face_count env (tris st) (cells st ! icell) f"
  using tally_fold_invariant [OF assms(1), of env] assms(2,3)
  by (simp add: tally_def Let_def tally_cell_count)

lemma tally_frame:
  fixes st :: "'a pstate"
  assumes "nglocal st \<le> length (nfacetri st)"
  shows "nglocal (tally env st) = nglocal st" "cells (tally env st) = cells st"
    "tris (tally env st) = tris st"
  using tally_fold_invariant [OF assms(1), of env]
  by (simp_all add: tally_def Let_def)

lemma bad_faces_tally:
  fixes st :: "'a pstate"
  assumes "nglocal st \<le> length (nfacetri st)"
  shows "bad_faces (tally env st) =
           length (filter (\<lambda>(icell, f). face_count env (tris st) (cells st ! icell) f \<notin> {0, 2})
                     (List.product [0..<nglocal st] [0..<6]))"
proof -
  have "filter (\<lambda>(icell, iface). nfacetri (tally env st) ! icell ! iface \<noteq> 0 \<and>
                                   nfacetri (tally env st) ! icell ! iface \<noteq> 2)
          (List.product [0..<nglocal st] [0..<6]) =
        filter (\<lambda>(icell, f). face_count env (tris st) (cells st ! icell) f \<notin> {0, 2})
          (List.product [0..<nglocal st] [0..<6])"
    by (rule filter_cong) (auto simp: tally_nfacetri [OF assms])
  then show ?thesis
    by (simp add: bad_faces_def tally_frame [OF assms])
qed

lemma bad_faces_zero:
  fixes st :: "'a pstate"
  assumes "nglocal st \<le> length (nfacetri st)"
  shows "bad_faces (tally env st) = 0 \<longleftrightarrow>
           (\<forall>icell<nglocal st. \<forall>f<6. face_count env (tris st) (cells st ! icell) f \<in> {0, 2})"
  unfolding bad_faces_tally [OF assms]
  by (auto simp: filter_empty_conv Ball_def)

lemma sum_list_nat_zero: "sum_list (xs :: nat list) = 0 \<longleftrightarrow> (\<forall>x \<in> set xs. x = 0)"
  by (induction xs) auto


lemma pairing_check_tally:
  fixes sts :: "'a pstate list"
  assumes "\<forall>st \<in> set sts. nglocal st \<le> length (nfacetri st)"
  shows "pairing_check (map (tally env) sts) =
           (if \<forall>st \<in> set sts. \<forall>icell<nglocal st. \<forall>f<6.
                 face_count env (tris st) (cells st ! icell) f \<in> {0, 2}
            then Inr () else Inl NonPairedFace)"
proof -
  have "sum_list (map bad_faces (map (tally env) sts)) = 0 \<longleftrightarrow>
      (\<forall>st \<in> set sts. bad_faces (tally env st) = 0)"
    by (auto simp: sum_list_nat_zero)
  also have "\<dots> \<longleftrightarrow> (\<forall>st \<in> set sts. \<forall>icell<nglocal st. \<forall>f<6.
                 face_count env (tris st) (cells st ! icell) f \<in> {0, 2})"
    using assms by (simp add: bad_faces_zero)
  finally have s: "sum_list (map bad_faces (map (tally env) sts)) = 0 \<longleftrightarrow>
      (\<forall>st \<in> set sts. \<forall>icell<nglocal st. \<forall>f<6.
                 face_count env (tris st) (cells st ! icell) f \<in> {0, 2})" .
  show ?thesis
  proof (cases "sum_list (map bad_faces (map (tally env) sts)) = 0")
    case True
    with s show ?thesis unfolding pairing_check_def Let_def by presburger
  next
    case False
    with s show ?thesis unfolding pairing_check_def Let_def by presburger
  qed
qed

lemmas example_defs =
  example_move_def example_keep_def example_both_def example_shared_def example_single_def
  example_sender_def example_receiver_def example_sender_last_def example_sender_inward_def
  example_state_def example_cell_def example_hash_def plane_tri_def inner_tri_def
  example_env_def example_on_face_def on_plane_def

lemma upt_Suc_Suc_0: "[0..<Suc (Suc 0)] = [0, Suc 0]"
  by (simp add: upt_rec)

lemma upt_6: "[0..<6] = [0, 1, 2, 3, 4, 5]"
  by (simp add: upt_rec)

lemmas tally_defs = tally_def tally_step_def tally_cell_def tally_tri_def

lemma tally_example_move:
  "tally example_env example_move =
     example_move\<lparr>nfacetri := [[0, 2, 0, 0, 0, 0], [0, 0, 0, 0, 0, 0]],
                   facetris := [[[0, 0], [0, 1], [0, 0], [0, 0], [0, 0], [0, 0]],
                                [[0, 0], [0, 0], [0, 0], [0, 0], [0, 0], [0, 0]]]\<rparr>"
  by (simp add: tally_defs example_defs upt_Suc_Suc_0 eval_nat_numeral)

lemma tally_example_keep:
  "tally example_env example_keep =
     example_keep\<lparr>nfacetri := [[0, 2, 0, 0, 0, 0], [0, 0, 0, 0, 0, 0]],
                   facetris := [[[0, 0], [0, 1], [0, 0], [0, 0], [0, 0], [0, 0]],
                                [[0, 0], [0, 0], [0, 0], [0, 0], [0, 0], [0, 0]]]\<rparr>"
  by (simp add: tally_defs example_defs upt_Suc_Suc_0 eval_nat_numeral)

lemma tally_example_both:
  "tally example_env example_both =
     example_both\<lparr>nfacetri := [[0, 2, 0, 0, 0, 0], [2, 0, 0, 0, 0, 0]],
                   facetris := [[[0, 0], [0, 1], [0, 0], [0, 0], [0, 0], [0, 0]],
                                [[2, 3], [0, 0], [0, 0], [0, 0], [0, 0], [0, 0]]]\<rparr>"
  by (simp add: tally_defs example_defs upt_Suc_Suc_0 eval_nat_numeral)

lemma tally_example_shared:
  "tally example_env example_shared =
     example_shared\<lparr>nfacetri := [[0, 2, 0, 0, 0, 0], [2, 0, 0, 0, 0, 0]],
                     facetris := [[[0, 0], [0, 1], [0, 0], [0, 0], [0, 0], [0, 0]],
                                  [[2, 3], [0, 0], [0, 0], [0, 0], [0, 0], [0, 0]]]\<rparr>"
  by (simp add: tally_defs example_defs upt_Suc_Suc_0 eval_nat_numeral)

lemma tally_example_sender:
  "tally example_env example_sender =
     example_sender\<lparr>nfacetri := [[0, 2, 0, 0, 0, 0]],
                     facetris := [[[0, 0], [0, 1], [0, 0], [0, 0], [0, 0], [0, 0]]]\<rparr>"
  by (simp add: tally_defs example_defs eval_nat_numeral)



lemma tally_example_single:
  "tally example_env example_single =
     example_single\<lparr>nfacetri := [[0, 1, 0, 0, 0, 0], [0, 0, 0, 0, 0, 0]],
                     facetris := [[[0, 0], [0, 0], [0, 0], [0, 0], [0, 0], [0, 0]],
                                  [[0, 0], [0, 0], [0, 0], [0, 0], [0, 0], [0, 0]]]\<rparr>"
  by (simp add: tally_defs example_defs upt_Suc_Suc_0 eval_nat_numeral)

lemma tally_example_receiver:
  "tally example_env example_receiver =
     example_receiver\<lparr>nfacetri := [[0, 0, 0, 0, 0, 0]],
                       facetris := [[[0, 0], [0, 0], [0, 0], [0, 0], [0, 0], [0, 0]]]\<rparr>"
  by (simp add: tally_defs example_defs eval_nat_numeral)

lemmas cleanup_defs =
  cleanup_after_check_def pairing_check_def bad_faces_def face_loop_def
  cell_step_def face_step_def same_proc_face_def other_proc_face_def remove_pair_def
  remove_surf_def find_surf_def inward_def recv_loop_def recv_step_def exchange_def
  compress_def compress_step_def NCHILD_def NPBCHILD_def surfs_def summary_def
  after_faces_def after_exchange_def stage_view_def delivered_def

lemmas eval_defs = example_defs upt_6 upt_Suc_Suc_0 eval_nat_numeral Let_def


text \<open>
  C7.  Before any face is reconciled, the triangles on each face of each owned cell
  are counted; \<open>bad_faces\<close> is the number of faces of a process whose count is
  neither 0 nor 2, and the check sums it over all processes.  \<^verbatim>\<open>cleanup_MC\<close>
  fails with \<open>NonPairedFace\<close> when the sum is not zero, that is when some face of
  some process has such a count, and otherwise goes on with the loop over the cell
  faces.
\<close>

theorem pairing_check_rule:
  fixes sts :: "'a pstate list"
  assumes "\<forall>st \<in> set sts. nglocal st \<le> length (nfacetri st)"
  shows "(\<forall>st \<in> set sts.
            bad_faces (tally env st) =
              length (filter (\<lambda>(icell, f). face_count env (tris st) (cells st ! icell) f \<notin> {0, 2})
                        (List.product [0..<nglocal st] [0..<6]))) \<and>
         cleanup_MC env sts =
           (if sum_list (map (\<lambda>st. bad_faces (tally env st)) sts) \<noteq> 0 then Inl NonPairedFace
            else cleanup_after_check env (map (tally env) sts)) \<and>
         (sum_list (map (\<lambda>st. bad_faces (tally env st)) sts) = 0 \<longleftrightarrow>
            (\<forall>st \<in> set sts. \<forall>icell<nglocal st. \<forall>f<6.
               face_count env (tris st) (cells st ! icell) f \<in> {0, 2}))"
proof (intro conjI ballI)
  fix st assume "st \<in> set sts"
  with assms show "bad_faces (tally env st) =
      length (filter (\<lambda>(icell, f). face_count env (tris st) (cells st ! icell) f \<notin> {0, 2})
                (List.product [0..<nglocal st] [0..<6]))"
    by (simp add: bad_faces_tally)
next
  show "cleanup_MC env sts =
      (if sum_list (map (\<lambda>st. bad_faces (tally env st)) sts) \<noteq> 0 then Inl NonPairedFace
       else cleanup_after_check env (map (tally env) sts))"
  proof -
    have e: "map bad_faces (map (tally env) sts) = map (\<lambda>st. bad_faces (tally env st)) sts"
      by simp
    have c: "(case (if b then Inl x else Inr ()) of Inl e \<Rightarrow> Inl e | Inr u \<Rightarrow> C) =
        (if b then Inl x else C)" for b and x :: error and C :: "error + 'a pstate list"
      by simp
    show ?thesis
      unfolding cleanup_MC_def pairing_check_def Let_def e by (rule c)
  qed
next
  have "sum_list (map (\<lambda>st. bad_faces (tally env st)) sts) = 0 \<longleftrightarrow>
      (\<forall>st \<in> set sts. bad_faces (tally env st) = 0)"
    by (auto simp: sum_list_nat_zero)
  also have "\<dots> \<longleftrightarrow> (\<forall>st \<in> set sts. \<forall>icell<nglocal st. \<forall>f<6.
                 face_count env (tris st) (cells st ! icell) f \<in> {0, 2})"
    using assms by (simp add: bad_faces_zero)
  finally show "sum_list (map (\<lambda>st. bad_faces (tally env st)) sts) = 0 \<longleftrightarrow>
      (\<forall>st \<in> set sts. \<forall>icell<nglocal st. \<forall>f<6.
         face_count env (tris st) (cells st ! icell) f \<in> {0, 2})" .
qed

theorem pairing_check_rule_witness:
  "nglocal example_single \<le> length (nfacetri example_single) \<and>
   bad_faces (tally example_env example_single) = 1 \<and>
   face_count example_env (tris example_single) (cells example_single ! 0) 1 = 1 \<and>
   cleanup_MC example_env [example_single] = Inl NonPairedFace \<and>
   nglocal example_both \<le> length (nfacetri example_both) \<and>
   bad_faces (tally example_env example_both) = 0 \<and>
   cleanup_MC example_env [example_both] =
     cleanup_after_check example_env [tally example_env example_both]"
proof -
  have h1: "\<forall>st \<in> set [example_single]. nglocal st \<le> length (nfacetri st)"
    and h2: "\<forall>st \<in> set [example_both]. nglocal st \<le> length (nfacetri st)"
    by (simp_all add: example_defs)
  have b1: "bad_faces (tally example_env example_single) = 1"
    unfolding tally_example_single by (simp add: bad_faces_def eval_defs)
  have b2: "bad_faces (tally example_env example_both) = 0"
    unfolding tally_example_both by (simp add: bad_faces_def eval_defs)
  have f: "face_count example_env (tris example_single) (cells example_single ! 0) 1 = 1"
    by (simp add: face_count_def surfs_def eval_defs)
  from pairing_check_rule [OF h1, of example_env] b1
  have c1: "cleanup_MC example_env [example_single] = Inl NonPairedFace"
    by simp
  from pairing_check_rule [OF h2, of example_env] b2
  have c2: "cleanup_MC example_env [example_both] =
     cleanup_after_check example_env [tally example_env example_both]"
    by simp
  from h1 h2 b1 b2 f c1 c2 show ?thesis by simp
qed


section \<open>The rules of the cleanup for one face\<close>

lemma inward_iff:
  "inward iface nrm \<noteq> 0 \<longleftrightarrow>
     (if iface mod 2 \<noteq> 0 then dlt (coord nrm (iface div 2)) (Fin 0)
      else dlt (Fin 0) (coord nrm (iface div 2)))"
  by (simp add: inward_def Let_def)

text \<open>
  One pass of the loop over the faces.  A face \<open>iface\<close> of cell \<open>icell\<close> has two
  triangles \<open>m0\<close> and \<open>m1\<close>, and the adjacent cell \<open>ocell\<close> is owned by the same
  process.  The flag \<open>inw\<close> says
  whether the normal of \<open>m0\<close> points into \<open>icell\<close>: its component along the axis of
  the face is negative on an upper face and positive on a lower face.
  \<^item> If the other cell has no triangle on the shared face and the normal points into
    \<open>icell\<close>, nothing changes: the pair stays.
  \<^item> If the other cell has no triangle on the shared face and the normal does not
    point into \<open>icell\<close>, the two triangles are appended to the list of the other
    cell, their cell IDs become the ID of the other cell, and they leave the list of
    \<open>icell\<close>; nothing is entered in the list of deletions.
  \<^item> If the other cell has two triangles \<open>o0\<close> and \<open>o1\<close> on the shared face, all
    four triangles leave the lists of their cells and are entered in the list of
    deletions, and the count of the other cell for the face is set to 0, so that the
    face is not visited again.
\<close>

lemma same_process_step:
  fixes st :: "'a pstate"
  assumes "nfacetri st ! icell ! iface = 2"
    and "neigh_decode env (nmask (cells st ! icell)) iface \<in> {NCHILD, NPBCHILD}"
    and "ocell = neigh (cells st ! icell) ! iface" and "ocell \<noteq> icell"
    and "proc (cells st ! ocell) = me st"
    and "oface = (if iface mod 2 \<noteq> 0 then iface - 1 else iface + 1)"
    and "icell < length (cells st)" and "ocell < length (cells st)"
    and "m0 = facetris st ! icell ! iface ! 0" and "m1 = facetris st ! icell ! iface ! 1"
    and "m0 \<noteq> m1" and "m0 < length (tris st)" and "m1 < length (tris st)"
    and "m0 \<in> set (surfs (cells st ! icell))" and "m1 \<in> set (surfs (cells st ! icell))"
    and "distinct (surfs (cells st ! icell))"
    and "nsurf (cells st ! icell) \<le> length (csurfs (cells st ! icell))"
    and "inw = inward iface (tri_norm (tris st ! m0))"
    and "n = nsurf (cells st ! icell)"
  shows "(inw \<noteq> 0 \<longleftrightarrow>
            (if iface mod 2 \<noteq> 0 then dlt (coord (tri_norm (tris st ! m0)) (iface div 2)) (Fin 0)
             else dlt (Fin 0) (coord (tri_norm (tris st ! m0)) (iface div 2)))) \<and>
         (nfacetri st ! ocell ! oface = 0 \<and> inw \<noteq> 0 \<longrightarrow>
            face_step env icell iface (st, n) = Inr (st, n)) \<and>
         (nfacetri st ! ocell ! oface = 0 \<and> inw = 0 \<longrightarrow>
            (\<exists>st'. face_step env icell iface (st, n) = Inr (st', n - 2) \<and>
               surfs (cells st' ! ocell) = surfs (cells st ! ocell) @ [m0, m1] \<and>
               tris st' =
                 (tris st)[m0 := (tris st ! m0)\<lparr>tri_id := cell_id (cells st ! ocell)\<rparr>,
                           m1 := (tris st ! m1)\<lparr>tri_id := cell_id (cells st ! ocell)\<rparr>] \<and>
               set (surfs (cells st' ! icell)) = set (surfs (cells st ! icell)) - {m0, m1} \<and>
               nsurf (cells st' ! icell) = n - 2 \<and>
               dellist st' = dellist st)) \<and>
         (let o0 = facetris st ! ocell ! oface ! 0; o1 = facetris st ! ocell ! oface ! 1 in
          nfacetri st ! ocell ! oface = 2 \<and>
          ocell < length (nfacetri st) \<and> oface < length (nfacetri st ! ocell) \<and> o0 \<noteq> o1 \<and>
          o0 \<in> set (surfs (cells st ! ocell)) \<and> o1 \<in> set (surfs (cells st ! ocell)) \<and>
          distinct (surfs (cells st ! ocell)) \<and>
          nsurf (cells st ! ocell) \<le> length (csurfs (cells st ! ocell)) \<longrightarrow>
            (\<exists>st'. face_step env icell iface (st, n) = Inr (st', n - 2) \<and>
               set (surfs (cells st' ! icell)) = set (surfs (cells st ! icell)) - {m0, m1} \<and>
               set (surfs (cells st' ! ocell)) = set (surfs (cells st ! ocell)) - {o0, o1} \<and>
               nsurf (cells st' ! icell) = n - 2 \<and>
               nsurf (cells st' ! ocell) = nsurf (cells st ! ocell) - 2 \<and>
               dellist st' = dellist st @ [m0, m1, o0, o1] \<and>
               tris st' = tris st \<and> nfacetri st' ! ocell ! oface = 0))"
proof -
  have fs: "face_step env icell iface (st, nsurf (cells st ! icell)) =
      same_proc_face icell iface ocell oface inw (st, nsurf (cells st ! icell))"
    using face_step_same_proc [of st icell iface env] assms(1-6,9,18) by simp
  have 1: "inw \<noteq> 0 \<longleftrightarrow>
      (if iface mod 2 \<noteq> 0 then dlt (coord (tri_norm (tris st ! m0)) (iface div 2)) (Fin 0)
       else dlt (Fin 0) (coord (tri_norm (tris st ! m0)) (iface div 2)))"
    unfolding assms(18) by (rule inward_iff)
  have 2: "face_step env icell iface (st, n) = Inr (st, n)"
    if "nfacetri st ! ocell ! oface = 0 \<and> inw \<noteq> 0"
    unfolding assms(19) fs using that by (simp add: same_proc_keep)
  have 3: "\<exists>st'. face_step env icell iface (st, n) = Inr (st', n - 2) \<and>
       surfs (cells st' ! ocell) = surfs (cells st ! ocell) @ [m0, m1] \<and>
       tris st' =
         (tris st)[m0 := (tris st ! m0)\<lparr>tri_id := cell_id (cells st ! ocell)\<rparr>,
                   m1 := (tris st ! m1)\<lparr>tri_id := cell_id (cells st ! ocell)\<rparr>] \<and>
       set (surfs (cells st' ! icell)) = set (surfs (cells st ! icell)) - {m0, m1} \<and>
       nsurf (cells st' ! icell) = n - 2 \<and>
       dellist st' = dellist st"
    if h: "nfacetri st ! ocell ! oface = 0 \<and> inw = 0"
  proof -
    from same_proc_move [OF conjunct1 [OF h] conjunct2 [OF h] assms(7,8,4,9,10,11,14-17,12,13)]
    obtain st' where s:
      "same_proc_face icell iface ocell oface inw (st, nsurf (cells st ! icell)) =
         Inr (st', nsurf (cells st ! icell) - 2) \<and>
       surfs (cells st' ! ocell) = surfs (cells st ! ocell) @ [m0, m1] \<and>
       tris st' = (tris st)[m0 := (tris st ! m0)\<lparr>tri_id := cell_id (cells st ! ocell)\<rparr>,
                            m1 := (tris st ! m1)\<lparr>tri_id := cell_id (cells st ! ocell)\<rparr>] \<and>
       set (surfs (cells st' ! icell)) = set (surfs (cells st ! icell)) - {m0, m1} \<and>
       nsurf (cells st' ! icell) = nsurf (cells st ! icell) - 2 \<and>
       dellist st' = dellist st \<and> nfacetri st' = nfacetri st \<and>
       (\<forall>j. j \<noteq> icell \<and> j \<noteq> ocell \<longrightarrow> cells st' ! j = cells st ! j)" ..
    show ?thesis
      unfolding assms(19) fs using s by (intro exI [of _ st']) simp
  qed
  have 4: "\<exists>st'. face_step env icell iface (st, n) = Inr (st', n - 2) \<and>
       set (surfs (cells st' ! icell)) = set (surfs (cells st ! icell)) - {m0, m1} \<and>
       set (surfs (cells st' ! ocell)) = set (surfs (cells st ! ocell)) - {o0, o1} \<and>
       nsurf (cells st' ! icell) = n - 2 \<and>
       nsurf (cells st' ! ocell) = nsurf (cells st ! ocell) - 2 \<and>
       dellist st' = dellist st @ [m0, m1, o0, o1] \<and>
       tris st' = tris st \<and> nfacetri st' ! ocell ! oface = 0"
    if o: "o0 = facetris st ! ocell ! oface ! 0" "o1 = facetris st ! ocell ! oface ! 1"
      and h: "nfacetri st ! ocell ! oface = 2"
        "ocell < length (nfacetri st)" "oface < length (nfacetri st ! ocell)" "o0 \<noteq> o1"
        "o0 \<in> set (surfs (cells st ! ocell))" "o1 \<in> set (surfs (cells st ! ocell))"
        "distinct (surfs (cells st ! ocell))"
        "nsurf (cells st ! ocell) \<le> length (csurfs (cells st ! ocell))"
    for o0 o1
  proof -
    from same_proc_delete [OF h(1) assms(7,8,4) h(2,3) assms(9,10,11,14-17) o h(4-8), of inw]
    obtain st' where s:
      "same_proc_face icell iface ocell oface inw (st, nsurf (cells st ! icell)) =
         Inr (st', nsurf (cells st ! icell) - 2) \<and>
       set (surfs (cells st' ! icell)) = set (surfs (cells st ! icell)) - {m0, m1} \<and>
       nsurf (cells st' ! icell) = nsurf (cells st ! icell) - 2 \<and>
       set (surfs (cells st' ! ocell)) = set (surfs (cells st ! ocell)) - {o0, o1} \<and>
       nsurf (cells st' ! ocell) = nsurf (cells st ! ocell) - 2 \<and>
       dellist st' = dellist st @ [m0, m1, o0, o1] \<and>
       tris st' = tris st \<and> nfacetri st' ! ocell ! oface = 0 \<and>
       (\<forall>j. j \<noteq> icell \<and> j \<noteq> ocell \<longrightarrow> cells st' ! j = cells st ! j)" ..
    show ?thesis
      unfolding assms(19) fs using s by (intro exI [of _ st']) simp
  qed
  show ?thesis
    unfolding Let_def
  proof (intro conjI impI)
    show "inw \<noteq> 0 \<longleftrightarrow>
      (if iface mod 2 \<noteq> 0 then dlt (coord (tri_norm (tris st ! m0)) (iface div 2)) (Fin 0)
       else dlt (Fin 0) (coord (tri_norm (tris st ! m0)) (iface div 2)))"
      by (rule 1)
  qed (rule 2 3, assumption | rule 4 [OF refl refl], (elim conjE, assumption)+)+
qed

lemma same_process_step_examples:
  "nfacetri (tally example_env example_move) ! 0 ! 1 = 2 \<and>
   proc (cells (tally example_env example_move) ! 1) = me (tally example_env example_move) \<and>
   facetris (tally example_env example_move) ! 0 ! 1 = [0, 1] \<and>
   surfs (cells (tally example_env example_move) ! 0) = [0, 1, 2] \<and>
   nfacetri (tally example_env example_move) ! 1 ! 0 = 0 \<and>
   inward 1 (tri_norm (tris (tally example_env example_move) ! 0)) = 0 \<and>
   (\<exists>st'. face_step example_env 0 1 (tally example_env example_move, 3) = Inr (st', 1) \<and>
      surfs (cells st' ! 1) = [0, 1] \<and> map tri_id (tris st') = [20, 20, 10] \<and>
      set (surfs (cells st' ! 0)) = {2} \<and> dellist st' = []) \<and>
   inward 1 (tri_norm (tris (tally example_env example_keep) ! 0)) = 1 \<and>
   face_step example_env 0 1 (tally example_env example_keep, 3) =
     Inr (tally example_env example_keep, 3) \<and>
   nfacetri (tally example_env example_both) ! 1 ! 0 = 2 \<and>
   facetris (tally example_env example_both) ! 1 ! 0 = [2, 3] \<and>
   (\<exists>st'. face_step example_env 0 1 (tally example_env example_both, 2) = Inr (st', 0) \<and>
      set (surfs (cells st' ! 0)) = {} \<and> set (surfs (cells st' ! 1)) = {4} \<and>
      dellist st' = [0, 1, 2, 3] \<and> nfacetri st' ! 1 ! 0 = 0)"
proof -
  let ?st = "tally example_env example_move"
  have h: "nfacetri ?st ! 0 ! 1 = 2"
    "neigh_decode example_env (nmask (cells ?st ! 0)) 1 \<in> {NCHILD, NPBCHILD}"
    "1 = neigh (cells ?st ! 0) ! 1" "(1::nat) \<noteq> 0"
    "proc (cells ?st ! 1) = me ?st"
    "(0::nat) = (if (1::nat) mod 2 \<noteq> 0 then 1 - 1 else 1 + 1)"
    "0 < length (cells ?st)" "1 < length (cells ?st)"
    "0 = facetris ?st ! 0 ! 1 ! 0" "1 = facetris ?st ! 0 ! 1 ! 1"
    "(0::nat) \<noteq> 1" "0 < length (tris ?st)" "1 < length (tris ?st)"
    "0 \<in> set (surfs (cells ?st ! 0))" "1 \<in> set (surfs (cells ?st ! 0))"
    "distinct (surfs (cells ?st ! 0))"
    "nsurf (cells ?st ! 0) \<le> length (csurfs (cells ?st ! 0))"
    "0 = inward 1 (tri_norm (tris ?st ! 0))"
    "3 = nsurf (cells ?st ! 0)"
    unfolding tally_example_move
    by (simp_all add: example_defs surfs_def inward_def NCHILD_def)
  have e: "facetris ?st ! 0 ! 1 = [0, 1]" "surfs (cells ?st ! 0) = [0, 1, 2]"
    "nfacetri ?st ! 1 ! 0 = 0" "surfs (cells ?st ! 1) = []"
    "map tri_id (tris ?st) = [10, 10, 10]" "cell_id (cells ?st ! 1) = 20" "dellist ?st = []"
    unfolding tally_example_move
    by (simp_all add: example_defs surfs_def)
  note T = same_process_step [OF h]
  from T [THEN conjunct2, THEN conjunct2, THEN conjunct1] e(3)
  obtain st' where s: "face_step example_env 0 1 (?st, 3) = Inr (st', 3 - 2) \<and>
               surfs (cells st' ! 1) = surfs (cells ?st ! 1) @ [0, 1] \<and>
               tris st' =
                 (tris ?st)[0 := (tris ?st ! 0)\<lparr>tri_id := cell_id (cells ?st ! 1)\<rparr>,
                           1 := (tris ?st ! 1)\<lparr>tri_id := cell_id (cells ?st ! 1)\<rparr>] \<and>
               set (surfs (cells st' ! 0)) = set (surfs (cells ?st ! 0)) - {0, 1} \<and>
               nsurf (cells st' ! 0) = 3 - 2 \<and>
               dellist st' = dellist ?st"
    by auto
  have "map tri_id (tris st') = [20, 20, 10]"
    using s e(5,6) h(12,13) by (simp add: map_update)
  moreover have "set (surfs (cells st' ! 0)) = {2}"
    using s e(2) by auto
  ultimately have move: "\<exists>st'. face_step example_env 0 1 (?st, 3) = Inr (st', 1) \<and>
      surfs (cells st' ! 1) = [0, 1] \<and> map tri_id (tris st') = [20, 20, 10] \<and>
      set (surfs (cells st' ! 0)) = {2} \<and> dellist st' = []"
    using s e by (intro exI [of _ st']) simp

  let ?sk = "tally example_env example_keep"
  have hk: "nfacetri ?sk ! 0 ! 1 = 2"
    "neigh_decode example_env (nmask (cells ?sk ! 0)) 1 \<in> {NCHILD, NPBCHILD}"
    "1 = neigh (cells ?sk ! 0) ! 1" "(1::nat) \<noteq> 0"
    "proc (cells ?sk ! 1) = me ?sk"
    "(0::nat) = (if (1::nat) mod 2 \<noteq> 0 then 1 - 1 else 1 + 1)"
    "0 < length (cells ?sk)" "1 < length (cells ?sk)"
    "0 = facetris ?sk ! 0 ! 1 ! 0" "1 = facetris ?sk ! 0 ! 1 ! 1"
    "(0::nat) \<noteq> 1" "0 < length (tris ?sk)" "1 < length (tris ?sk)"
    "0 \<in> set (surfs (cells ?sk ! 0))" "1 \<in> set (surfs (cells ?sk ! 0))"
    "distinct (surfs (cells ?sk ! 0))"
    "nsurf (cells ?sk ! 0) \<le> length (csurfs (cells ?sk ! 0))"
    "1 = inward 1 (tri_norm (tris ?sk ! 0))"
    "3 = nsurf (cells ?sk ! 0)"
    unfolding tally_example_keep
    by (simp_all add: example_defs surfs_def inward_def NCHILD_def)
  have ek: "nfacetri ?sk ! 1 ! 0 = 0"
    unfolding tally_example_keep by (simp add: example_defs)
  from same_process_step [OF hk, THEN conjunct2, THEN conjunct1] ek
  have keep: "face_step example_env 0 1 (?sk, 3) = Inr (?sk, 3)"
    by simp

  let ?sb = "tally example_env example_both"
  have hb: "nfacetri ?sb ! 0 ! 1 = 2"
    "neigh_decode example_env (nmask (cells ?sb ! 0)) 1 \<in> {NCHILD, NPBCHILD}"
    "1 = neigh (cells ?sb ! 0) ! 1" "(1::nat) \<noteq> 0"
    "proc (cells ?sb ! 1) = me ?sb"
    "(0::nat) = (if (1::nat) mod 2 \<noteq> 0 then 1 - 1 else 1 + 1)"
    "0 < length (cells ?sb)" "1 < length (cells ?sb)"
    "0 = facetris ?sb ! 0 ! 1 ! 0" "1 = facetris ?sb ! 0 ! 1 ! 1"
    "(0::nat) \<noteq> 1" "0 < length (tris ?sb)" "1 < length (tris ?sb)"
    "0 \<in> set (surfs (cells ?sb ! 0))" "1 \<in> set (surfs (cells ?sb ! 0))"
    "distinct (surfs (cells ?sb ! 0))"
    "nsurf (cells ?sb ! 0) \<le> length (csurfs (cells ?sb ! 0))"
    "0 = inward 1 (tri_norm (tris ?sb ! 0))"
    "2 = nsurf (cells ?sb ! 0)"
    unfolding tally_example_both
    by (simp_all add: example_defs surfs_def inward_def NCHILD_def)
  have eb: "nfacetri ?sb ! 1 ! 0 = 2" "facetris ?sb ! 1 ! 0 = [2, 3]"
    "1 < length (nfacetri ?sb)" "0 < length (nfacetri ?sb ! 1)"
    "surfs (cells ?sb ! 1) = [2, 3, 4]" "surfs (cells ?sb ! 0) = [0, 1]"
    "nsurf (cells ?sb ! 1) \<le> length (csurfs (cells ?sb ! 1))" "dellist ?sb = []"
    unfolding tally_example_both
    by (simp_all add: example_defs surfs_def)
  from same_process_step [OF hb, THEN conjunct2, THEN conjunct2, THEN conjunct2] eb
  obtain st'' where sb: "face_step example_env 0 1 (?sb, 2) = Inr (st'', 2 - 2) \<and>
               set (surfs (cells st'' ! 0)) = set (surfs (cells ?sb ! 0)) - {0, 1} \<and>
               set (surfs (cells st'' ! 1)) = set (surfs (cells ?sb ! 1)) -
                  {facetris ?sb ! 1 ! 0 ! 0, facetris ?sb ! 1 ! 0 ! 1} \<and>
               nsurf (cells st'' ! 0) = 2 - 2 \<and>
               nsurf (cells st'' ! 1) = nsurf (cells ?sb ! 1) - 2 \<and>
               dellist st'' = dellist ?sb @ [0, 1, facetris ?sb ! 1 ! 0 ! 0,
                                             facetris ?sb ! 1 ! 0 ! 1] \<and>
               tris st'' = tris ?sb \<and> nfacetri st'' ! 1 ! 0 = 0"
    unfolding Let_def by auto
  have both: "\<exists>st'. face_step example_env 0 1 (?sb, 2) = Inr (st', 0) \<and>
      set (surfs (cells st' ! 0)) = {} \<and> set (surfs (cells st' ! 1)) = {4} \<and>
      dellist st' = [0, 1, 2, 3] \<and> nfacetri st' ! 1 ! 0 = 0"
    using sb eb by (intro exI [of _ st'']) auto
  from h(1,5,18) e(1,2,3) move hk(18) keep eb(1,2) both show ?thesis
    by simp
qed


text \<open>
  One pass of the loop over the faces and one pass of the loop over the received
  entries.  A face \<open>iface\<close> of cell \<open>icell\<close> has two triangles \<open>m0\<close> and \<open>m1\<close>,
  and the adjacent cell \<open>ocell\<close> is owned by another process.  The loop over the cell
  faces, which runs before the exchange, appends the rank of that process to the
  list of destinations and an entry to the send buffer: the cell and the face of
  the sender, the local index of the adjacent cell on its owner and the opposite
  face, the flag \<open>inw\<close> that says whether the normal points into \<open>icell\<close>, and
  copies of the two triangles.  The two triangles leave the list of \<open>icell\<close> and
  are entered in the list of deletions exactly when the flag is zero.

  On the receiving process, for an entry \<open>r\<close> whose face has no triangle there: if
  the flag of \<open>r\<close> is not zero, nothing changes; if it is zero, the two triangles
  are appended to the store with the ID of the receiving cell, and their indices are
  appended to the list of that cell.
\<close>

lemma cross_process_step:
  fixes st rst :: "'a pstate"
  assumes "nfacetri st ! icell ! iface = 2"
    and "neigh_decode env (nmask (cells st ! icell)) iface \<in> {NCHILD, NPBCHILD}"
    and "ocell = neigh (cells st ! icell) ! iface" and "ocell \<noteq> icell"
    and "proc (cells st ! ocell) \<noteq> me st"
    and "oface = (if iface mod 2 \<noteq> 0 then iface - 1 else iface + 1)"
    and "icell < length (cells st)"
    and "m0 = facetris st ! icell ! iface ! 0" and "m1 = facetris st ! icell ! iface ! 1"
    and "m0 \<noteq> m1"
    and "m0 \<in> set (surfs (cells st ! icell))" and "m1 \<in> set (surfs (cells st ! icell))"
    and "distinct (surfs (cells st ! icell))"
    and "nsurf (cells st ! icell) \<le> length (csurfs (cells st ! icell))"
    and "inw = inward iface (tri_norm (tris st ! m0))"
    and "n = nsurf (cells st ! icell)"
  shows "(\<exists>st' n'. face_step env icell iface (st, n) = Inr (st', n') \<and>
            proclist st' = proclist st @ [proc (cells st ! ocell)] \<and>
            bufsend st' = bufsend st @
              [\<lparr>sendcell = icell, sendface = iface, othercell = ilocal (cells st ! ocell),
                otherface = oface, inwardnorm = inw,
                tri1 = tris st ! m0, tri2 = tris st ! m1\<rparr>] \<and>
            tris st' = tris st \<and>
            (inw \<noteq> 0 \<longrightarrow> cells st' = cells st \<and> dellist st' = dellist st \<and> n' = n) \<and>
            (inw = 0 \<longrightarrow>
               set (surfs (cells st' ! icell)) = set (surfs (cells st ! icell)) - {m0, m1} \<and>
               nsurf (cells st' ! icell) = n - 2 \<and> n' = n - 2 \<and>
               dellist st' = dellist st @ [m0, m1])) \<and>
         (\<forall>r. nfacetri rst ! othercell r ! otherface r = 0 \<longrightarrow>
            (inwardnorm r \<noteq> 0 \<longrightarrow> recv_step env r rst = Inr rst) \<and>
            (inwardnorm r = 0 \<longrightarrow>
               recv_step env r rst =
                 Inr (rst\<lparr>tris := tris rst @
                            [(tri1 r)\<lparr>tri_id := cell_id (cells rst ! othercell r)\<rparr>,
                             (tri2 r)\<lparr>tri_id := cell_id (cells rst ! othercell r)\<rparr>],
                          cells := (cells rst)[othercell r :=
                            (cells rst ! othercell r)
                              \<lparr>nsurf := nsurf (cells rst ! othercell r) + 2,
                               csurfs := take (nsurf (cells rst ! othercell r))
                                           (csurfs (cells rst ! othercell r)) @
                                         [length (tris rst), length (tris rst) + 1]\<rparr>]\<rparr>)))"
proof (intro conjI allI impI)
  have fs: "face_step env icell iface (st, nsurf (cells st ! icell)) =
      other_proc_face icell iface (proc (cells st ! ocell)) (ilocal (cells st ! ocell)) oface inw
        (st, nsurf (cells st ! icell))"
    using face_step_other_proc [of st icell iface env] assms(1-6,8,15) by simp
  from other_proc_send [OF assms(7-14), where otherproc = "proc (cells st ! ocell)"
      and otherlocal = "ilocal (cells st ! ocell)" and oface = oface and inw = inw]
  obtain st' n' where s:
    "other_proc_face icell iface (proc (cells st ! ocell)) (ilocal (cells st ! ocell)) oface inw
               (st, nsurf (cells st ! icell)) = Inr (st', n') \<and>
           proclist st' = proclist st @ [proc (cells st ! ocell)] \<and>
           bufsend st' = bufsend st @
             [\<lparr>sendcell = icell, sendface = iface, othercell = ilocal (cells st ! ocell),
               otherface = oface, inwardnorm = inw, tri1 = tris st ! m0, tri2 = tris st ! m1\<rparr>] \<and>
           tris st' = tris st \<and> nfacetri st' = nfacetri st \<and>
           (\<forall>j. j \<noteq> icell \<longrightarrow> cells st' ! j = cells st ! j) \<and>
           (inw \<noteq> 0 \<longrightarrow> cells st' = cells st \<and> dellist st' = dellist st \<and>
              n' = nsurf (cells st ! icell)) \<and>
           (inw = 0 \<longrightarrow>
              set (surfs (cells st' ! icell)) = set (surfs (cells st ! icell)) - {m0, m1} \<and>
              nsurf (cells st' ! icell) = nsurf (cells st ! icell) - 2 \<and>
              n' = nsurf (cells st ! icell) - 2 \<and>
              dellist st' = dellist st @ [m0, m1])"
    by (elim exE) (rule that)
  show "\<exists>st' n'. face_step env icell iface (st, n) = Inr (st', n') \<and>
            proclist st' = proclist st @ [proc (cells st ! ocell)] \<and>
            bufsend st' = bufsend st @
              [\<lparr>sendcell = icell, sendface = iface, othercell = ilocal (cells st ! ocell),
                otherface = oface, inwardnorm = inw,
                tri1 = tris st ! m0, tri2 = tris st ! m1\<rparr>] \<and>
            tris st' = tris st \<and>
            (inw \<noteq> 0 \<longrightarrow> cells st' = cells st \<and> dellist st' = dellist st \<and> n' = n) \<and>
            (inw = 0 \<longrightarrow>
               set (surfs (cells st' ! icell)) = set (surfs (cells st ! icell)) - {m0, m1} \<and>
               nsurf (cells st' ! icell) = n - 2 \<and> n' = n - 2 \<and>
               dellist st' = dellist st @ [m0, m1])"
    unfolding assms(16) fs using s by (intro exI [of _ st'] exI [of _ n']) simp
next
  fix r :: "'a SendDatum"
  assume "nfacetri rst ! othercell r ! otherface r = 0" "inwardnorm r \<noteq> 0"
  then show "recv_step env r rst = Inr rst" by (rule recv_keep)
next
  fix r :: "'a SendDatum"
  assume "nfacetri rst ! othercell r ! otherface r = 0" "inwardnorm r = 0"
  then show "recv_step env r rst =
                 Inr (rst\<lparr>tris := tris rst @
                            [(tri1 r)\<lparr>tri_id := cell_id (cells rst ! othercell r)\<rparr>,
                             (tri2 r)\<lparr>tri_id := cell_id (cells rst ! othercell r)\<rparr>],
                          cells := (cells rst)[othercell r :=
                            (cells rst ! othercell r)
                              \<lparr>nsurf := nsurf (cells rst ! othercell r) + 2,
                               csurfs := take (nsurf (cells rst ! othercell r))
                                           (csurfs (cells rst ! othercell r)) @
                                         [length (tris rst), length (tris rst) + 1]\<rparr>]\<rparr>)"
    by (rule recv_adopt)
qed

lemma cross_process_step_examples:
  "nfacetri (tally example_env example_sender) ! 0 ! 1 = 2 \<and>
   proc (cells (tally example_env example_sender) ! 1) = 1 \<and>
   me (tally example_env example_sender) = 0 \<and>
   facetris (tally example_env example_sender) ! 0 ! 1 = [0, 1] \<and>
   surfs (cells (tally example_env example_sender) ! 0) = [0, 1, 2] \<and>
   inward 1 (tri_norm (tris (tally example_env example_sender) ! 0)) = 0 \<and>
   (\<exists>st' n'. face_step example_env 0 1 (tally example_env example_sender, 3) = Inr (st', n') \<and>
      proclist st' = [1] \<and>
      bufsend st' =
        [\<lparr>sendcell = 0, sendface = 1, othercell = 0, otherface = 0, inwardnorm = 0,
          tri1 = plane_tri 10 (1 / 4) 1, tri2 = plane_tri 10 (3 / 4) 1\<rparr>] \<and>
      set (surfs (cells st' ! 0)) = {2} \<and> dellist st' = [0, 1]) \<and>
   nfacetri (tally example_env example_receiver) ! 0 ! 0 = 0 \<and>
   (\<exists>rst'. recv_step example_env
        \<lparr>sendcell = 0, sendface = 1, othercell = 0, otherface = 0, inwardnorm = 0,
          tri1 = plane_tri 10 (1 / 4) 1, tri2 = plane_tri 10 (3 / 4) 1\<rparr>
        (tally example_env example_receiver) = Inr rst' \<and>
      tris rst' = [inner_tri 20 1, plane_tri 20 (1 / 4) 1, plane_tri 20 (3 / 4) 1] \<and>
      surfs (cells rst' ! 0) = [0, 1, 2]) \<and>
   recv_step example_env
        \<lparr>sendcell = 0, sendface = 1, othercell = 0, otherface = 0, inwardnorm = 1,
          tri1 = plane_tri 10 (1 / 4) 1, tri2 = plane_tri 10 (3 / 4) 1\<rparr>
        (tally example_env example_receiver) = Inr (tally example_env example_receiver)"
proof -
  let ?st = "tally example_env example_sender" and ?rst = "tally example_env example_receiver"
  let ?r = "\<lparr>sendcell = 0, sendface = 1, othercell = 0, otherface = 0, inwardnorm = 0,
          tri1 = plane_tri 10 (1 / 4) 1, tri2 = plane_tri 10 (3 / 4) 1\<rparr>"
  have h: "nfacetri ?st ! 0 ! 1 = 2"
    "neigh_decode example_env (nmask (cells ?st ! 0)) 1 \<in> {NCHILD, NPBCHILD}"
    "1 = neigh (cells ?st ! 0) ! 1" "(1::nat) \<noteq> 0"
    "proc (cells ?st ! 1) \<noteq> me ?st"
    "(0::nat) = (if (1::nat) mod 2 \<noteq> 0 then 1 - 1 else 1 + 1)"
    "0 < length (cells ?st)"
    "0 = facetris ?st ! 0 ! 1 ! 0" "1 = facetris ?st ! 0 ! 1 ! 1"
    "(0::nat) \<noteq> 1"
    "0 \<in> set (surfs (cells ?st ! 0))" "1 \<in> set (surfs (cells ?st ! 0))"
    "distinct (surfs (cells ?st ! 0))"
    "nsurf (cells ?st ! 0) \<le> length (csurfs (cells ?st ! 0))"
    "0 = inward 1 (tri_norm (tris ?st ! 0))"
    "3 = nsurf (cells ?st ! 0)"
    unfolding tally_example_sender
    by (simp_all add: example_defs surfs_def inward_def NCHILD_def)
  have e: "proc (cells ?st ! 1) = 1" "me ?st = 0" "facetris ?st ! 0 ! 1 = [0, 1]"
    "surfs (cells ?st ! 0) = [0, 1, 2]" "ilocal (cells ?st ! 1) = 0"
    "tris ?st ! 0 = plane_tri 10 (1 / 4) 1" "tris ?st ! 1 = plane_tri 10 (3 / 4) 1"
    "proclist ?st = []" "bufsend ?st = []" "dellist ?st = []"
    unfolding tally_example_sender
    by (simp_all add: example_defs surfs_def)
  have er: "nfacetri ?rst ! 0 ! 0 = 0" "tris ?rst = [inner_tri 20 1]"
    "cell_id (cells ?rst ! 0) = 20" "nsurf (cells ?rst ! 0) = 1"
    "take 1 (csurfs (cells ?rst ! 0)) = [0]"
    "0 < length (cells ?rst)"
    unfolding tally_example_receiver
    by (simp_all add: example_defs surfs_def)
  note T = cross_process_step [OF h, where rst = ?rst]
  from T [THEN conjunct1]
  obtain st' n' where s: "face_step example_env 0 1 (?st, 3) = Inr (st', n') \<and>
            proclist st' = proclist ?st @ [proc (cells ?st ! 1)] \<and>
            bufsend st' = bufsend ?st @
              [\<lparr>sendcell = 0, sendface = 1, othercell = ilocal (cells ?st ! 1),
                otherface = 0, inwardnorm = 0,
                tri1 = tris ?st ! 0, tri2 = tris ?st ! 1\<rparr>] \<and>
            tris st' = tris ?st \<and>
            ((0::int) \<noteq> 0 \<longrightarrow> cells st' = cells ?st \<and> dellist st' = dellist ?st \<and> n' = 3) \<and>
            ((0::int) = 0 \<longrightarrow>
               set (surfs (cells st' ! 0)) = set (surfs (cells ?st ! 0)) - {0, 1} \<and>
               nsurf (cells st' ! 0) = 3 - 2 \<and> n' = 3 - 2 \<and>
               dellist st' = dellist ?st @ [0, 1])"
    by (elim exE) (rule that)
  have send: "\<exists>st' n'. face_step example_env 0 1 (?st, 3) = Inr (st', n') \<and>
      proclist st' = [1] \<and> bufsend st' = [?r] \<and>
      set (surfs (cells st' ! 0)) = {2} \<and> dellist st' = [0, 1]"
    using s e by (intro exI [of _ st'] exI [of _ n']) auto
  from T [THEN conjunct2, rule_format, of ?r] er(1)
  have a: "recv_step example_env ?r ?rst =
                 Inr (?rst\<lparr>tris := tris ?rst @
                            [(tri1 ?r)\<lparr>tri_id := cell_id (cells ?rst ! othercell ?r)\<rparr>,
                             (tri2 ?r)\<lparr>tri_id := cell_id (cells ?rst ! othercell ?r)\<rparr>],
                          cells := (cells ?rst)[othercell ?r :=
                            (cells ?rst ! othercell ?r)
                              \<lparr>nsurf := nsurf (cells ?rst ! othercell ?r) + 2,
                               csurfs := take (nsurf (cells ?rst ! othercell ?r))
                                           (csurfs (cells ?rst ! othercell ?r)) @
                                         [length (tris ?rst), length (tris ?rst) + 1]\<rparr>]\<rparr>)"
    by simp
  have adopt: "\<exists>rst'. recv_step example_env ?r ?rst = Inr rst' \<and>
      tris rst' = [inner_tri 20 1, plane_tri 20 (1 / 4) 1, plane_tri 20 (3 / 4) 1] \<and>
      surfs (cells rst' ! 0) = [0, 1, 2]"
    unfolding a using er by (simp add: plane_tri_def surfs_def eval_nat_numeral)
  from T [THEN conjunct2, rule_format, of "?r\<lparr>inwardnorm := 1\<rparr>"] er(1)
  have keep: "recv_step example_env (?r\<lparr>inwardnorm := 1\<rparr>) ?rst = Inr ?rst"
    by simp
  from h(1) e(1-4) h(15) send er(1) adopt keep show ?thesis
    by simp
qed


lemma send_then_adopt:
  fixes st rst :: "'a pstate"
  assumes "nfacetri st ! icell ! iface = 2"
    and "neigh_decode env (nmask (cells st ! icell)) iface \<in> {NCHILD, NPBCHILD}"
    and "ocell = neigh (cells st ! icell) ! iface" and "ocell \<noteq> icell"
    and "proc (cells st ! ocell) \<noteq> me st"
    and "oface = (if iface mod 2 \<noteq> 0 then iface - 1 else iface + 1)"
    and "icell < length (cells st)"
    and "m0 = facetris st ! icell ! iface ! 0" and "m1 = facetris st ! icell ! iface ! 1"
    and "m0 \<noteq> m1"
    and "m0 \<in> set (surfs (cells st ! icell))" and "m1 \<in> set (surfs (cells st ! icell))"
    and "distinct (surfs (cells st ! icell))"
    and "nsurf (cells st ! icell) \<le> length (csurfs (cells st ! icell))"
    and "inward iface (tri_norm (tris st ! m0)) = 0"
    and "n = nsurf (cells st ! icell)"
    and "rcell = ilocal (cells st ! ocell)"
    and "nfacetri rst ! rcell ! oface = 0"
  shows "\<exists>st' n' r rst'.
           face_step env icell iface (st, n) = Inr (st', n') \<and>
           bufsend st' = bufsend st @ [r] \<and>
           recv_step env r rst = Inr rst' \<and>
           tris rst' = tris rst @ [(tris st ! m0)\<lparr>tri_id := cell_id (cells rst ! rcell)\<rparr>,
                                   (tris st ! m1)\<lparr>tri_id := cell_id (cells rst ! rcell)\<rparr>]"
proof -
  let ?r = "\<lparr>sendcell = icell, sendface = iface, othercell = rcell,
              otherface = oface, inwardnorm = 0,
              tri1 = tris st ! m0, tri2 = tris st ! m1\<rparr>"
  have fs: "face_step env icell iface (st, nsurf (cells st ! icell)) =
      other_proc_face icell iface (proc (cells st ! ocell)) rcell oface 0
        (st, nsurf (cells st ! icell))"
    using face_step_other_proc [of st icell iface env] assms(1-6,8,15,17) by simp
  from other_proc_send [OF assms(7-14), where otherproc = "proc (cells st ! ocell)"
      and otherlocal = rcell and oface = oface and inw = 0]
  obtain st' n' where s:
    "other_proc_face icell iface (proc (cells st ! ocell)) rcell oface 0
               (st, nsurf (cells st ! icell)) = Inr (st', n') \<and>
           proclist st' = proclist st @ [proc (cells st ! ocell)] \<and>
           bufsend st' = bufsend st @ [?r] \<and>
           tris st' = tris st \<and> nfacetri st' = nfacetri st \<and>
           (\<forall>j. j \<noteq> icell \<longrightarrow> cells st' ! j = cells st ! j) \<and>
           ((0::int) \<noteq> 0 \<longrightarrow> cells st' = cells st \<and> dellist st' = dellist st \<and>
              n' = nsurf (cells st ! icell)) \<and>
           ((0::int) = 0 \<longrightarrow>
              set (surfs (cells st' ! icell)) = set (surfs (cells st ! icell)) - {m0, m1} \<and>
              nsurf (cells st' ! icell) = nsurf (cells st ! icell) - 2 \<and>
              n' = nsurf (cells st ! icell) - 2 \<and>
              dellist st' = dellist st @ [m0, m1])"
    by (elim exE) (rule that)
  have z: "nfacetri rst ! othercell ?r ! otherface ?r = 0" "inwardnorm ?r = 0"
    using assms(18) by simp_all
  have a: "\<exists>rst'. recv_step env ?r rst = Inr rst' \<and>
      tris rst' = tris rst @ [(tris st ! m0)\<lparr>tri_id := cell_id (cells rst ! rcell)\<rparr>,
                              (tris st ! m1)\<lparr>tri_id := cell_id (cells rst ! rcell)\<rparr>]"
    unfolding recv_adopt [OF z] by simp
  then obtain rst' where r: "recv_step env ?r rst = Inr rst' \<and>
      tris rst' = tris rst @ [(tris st ! m0)\<lparr>tri_id := cell_id (cells rst ! rcell)\<rparr>,
                              (tris st ! m1)\<lparr>tri_id := cell_id (cells rst ! rcell)\<rparr>]" ..
  show ?thesis
    unfolding assms(16) fs using s r
    by (intro exI [of _ st'] exI [of _ n'] exI [of _ ?r] exI [of _ rst']) simp
qed


text \<open>
  C10.  When a process adopts the pair of triangles of a received entry, each of
  the two triangles appended to its store is the triangle of the sending process
  with the ID of the owning cell replaced by the ID of the receiving cell: the
  corner points, the normal, the material label, the mask, and every other field of
  the structure are those of the sender's triangle.
\<close>

theorem adoption_frame:
  fixes st rst :: "'a pstate"
  assumes "nfacetri st ! icell ! iface = 2"
    and "neigh_decode env (nmask (cells st ! icell)) iface \<in> {NCHILD, NPBCHILD}"
    and "ocell = neigh (cells st ! icell) ! iface" and "ocell \<noteq> icell"
    and "proc (cells st ! ocell) \<noteq> me st"
    and "oface = (if iface mod 2 \<noteq> 0 then iface - 1 else iface + 1)"
    and "icell < length (cells st)"
    and "m0 = facetris st ! icell ! iface ! 0" and "m1 = facetris st ! icell ! iface ! 1"
    and "m0 \<noteq> m1"
    and "m0 \<in> set (surfs (cells st ! icell))" and "m1 \<in> set (surfs (cells st ! icell))"
    and "distinct (surfs (cells st ! icell))"
    and "nsurf (cells st ! icell) \<le> length (csurfs (cells st ! icell))"
    and "inward iface (tri_norm (tris st ! m0)) = 0"
    and "n = nsurf (cells st ! icell)"
    and "rcell = ilocal (cells st ! ocell)"
    and "nfacetri rst ! rcell ! oface = 0"
  shows "\<exists>st' n' r rst' a b.
           face_step env icell iface (st, n) = Inr (st', n') \<and>
           bufsend st' = bufsend st @ [r] \<and>
           recv_step env r rst = Inr rst' \<and>
           tris rst' = tris rst @ [a, b] \<and>
           a = (tris st ! m0)\<lparr>tri_id := cell_id (cells rst ! rcell)\<rparr> \<and>
           b = (tris st ! m1)\<lparr>tri_id := cell_id (cells rst ! rcell)\<rparr> \<and>
           tri_id a = cell_id (cells rst ! rcell) \<and> tri_id b = cell_id (cells rst ! rcell) \<and>
           p1 a = p1 (tris st ! m0) \<and> p2 a = p2 (tris st ! m0) \<and> p3 a = p3 (tris st ! m0) \<and>
           tri_norm a = tri_norm (tris st ! m0) \<and> tri_type a = tri_type (tris st ! m0) \<and>
           tri_mask a = tri_mask (tris st ! m0) \<and> tri.more a = tri.more (tris st ! m0) \<and>
           p1 b = p1 (tris st ! m1) \<and> p2 b = p2 (tris st ! m1) \<and> p3 b = p3 (tris st ! m1) \<and>
           tri_norm b = tri_norm (tris st ! m1) \<and> tri_type b = tri_type (tris st ! m1) \<and>
           tri_mask b = tri_mask (tris st ! m1) \<and> tri.more b = tri.more (tris st ! m1)"
proof -
  from send_then_adopt [OF assms] obtain st' n' r rst' where
    s: "face_step env icell iface (st, n) = Inr (st', n') \<and>
           bufsend st' = bufsend st @ [r] \<and>
           recv_step env r rst = Inr rst' \<and>
           tris rst' = tris rst @ [(tris st ! m0)\<lparr>tri_id := cell_id (cells rst ! rcell)\<rparr>,
                                   (tris st ! m1)\<lparr>tri_id := cell_id (cells rst ! rcell)\<rparr>]"
    by (elim exE) (rule that)
  show ?thesis
    using s
    by (intro exI [of _ st'] exI [of _ n'] exI [of _ r] exI [of _ rst']
        exI [of _ "(tris st ! m0)\<lparr>tri_id := cell_id (cells rst ! rcell)\<rparr>"]
        exI [of _ "(tris st ! m1)\<lparr>tri_id := cell_id (cells rst ! rcell)\<rparr>"]) simp
qed

theorem adoption_frame_witness:
  "nfacetri (tally example_env example_sender) ! 0 ! 1 = 2 \<and>
   proc (cells (tally example_env example_sender) ! 1) = 1 \<and>
   me (tally example_env example_sender) = 0 \<and>
   facetris (tally example_env example_sender) ! 0 ! 1 = [0, 1] \<and>
   inward 1 (tri_norm (tris (tally example_env example_sender) ! 0)) = 0 \<and>
   ilocal (cells (tally example_env example_sender) ! 1) = 0 \<and>
   nfacetri (tally example_env example_receiver) ! 0 ! 0 = 0 \<and>
   tris (tally example_env example_sender) =
     [plane_tri 10 (1 / 4) 1, plane_tri 10 (3 / 4) 1, inner_tri 10 0] \<and>
   tris (tally example_env example_receiver) = [inner_tri 20 1] \<and>
   (\<exists>st' n' r rst'.
      face_step example_env 0 1 (tally example_env example_sender, 3) = Inr (st', n') \<and>
      bufsend st' = [r] \<and>
      recv_step example_env r (tally example_env example_receiver) = Inr rst' \<and>
      tris rst' = [inner_tri 20 1, plane_tri 20 (1 / 4) 1, plane_tri 20 (3 / 4) 1])"
proof -
  let ?st = "tally example_env example_sender" and ?rst = "tally example_env example_receiver"
  have h: "nfacetri ?st ! 0 ! 1 = 2"
    "neigh_decode example_env (nmask (cells ?st ! 0)) 1 \<in> {NCHILD, NPBCHILD}"
    "1 = neigh (cells ?st ! 0) ! 1" "(1::nat) \<noteq> 0"
    "proc (cells ?st ! 1) \<noteq> me ?st"
    "(0::nat) = (if (1::nat) mod 2 \<noteq> 0 then 1 - 1 else 1 + 1)"
    "0 < length (cells ?st)"
    "0 = facetris ?st ! 0 ! 1 ! 0" "1 = facetris ?st ! 0 ! 1 ! 1"
    "(0::nat) \<noteq> 1"
    "0 \<in> set (surfs (cells ?st ! 0))" "1 \<in> set (surfs (cells ?st ! 0))"
    "distinct (surfs (cells ?st ! 0))"
    "nsurf (cells ?st ! 0) \<le> length (csurfs (cells ?st ! 0))"
    "inward 1 (tri_norm (tris ?st ! 0)) = 0"
    "3 = nsurf (cells ?st ! 0)"
    "0 = ilocal (cells ?st ! 1)"
    "nfacetri ?rst ! 0 ! 0 = 0"
    unfolding tally_example_sender tally_example_receiver
    by (simp_all add: example_defs surfs_def inward_def NCHILD_def)
  have e: "proc (cells ?st ! 1) = 1" "me ?st = 0" "facetris ?st ! 0 ! 1 = [0, 1]"
    "tris ?st = [plane_tri 10 (1 / 4) 1, plane_tri 10 (3 / 4) 1, inner_tri 10 0]"
    "bufsend ?st = []"
    unfolding tally_example_sender
    by (simp_all add: example_defs surfs_def)
  have er: "tris ?rst = [inner_tri 20 1]" "cell_id (cells ?rst ! 0) = 20"
    unfolding tally_example_receiver
    by (simp_all add: example_defs surfs_def)
  from adoption_frame [OF h]
  obtain st' n' r rst' a b where s:
    "face_step example_env 0 1 (?st, 3) = Inr (st', n') \<and>
     bufsend st' = bufsend ?st @ [r] \<and>
     recv_step example_env r ?rst = Inr rst' \<and>
     tris rst' = tris ?rst @ [a, b] \<and>
     a = (tris ?st ! 0)\<lparr>tri_id := cell_id (cells ?rst ! 0)\<rparr> \<and>
     b = (tris ?st ! 1)\<lparr>tri_id := cell_id (cells ?rst ! 0)\<rparr>"
    by (elim exE conjE) (rule that, simp)
  have x: "\<exists>st' n' r rst'.
      face_step example_env 0 1 (?st, 3) = Inr (st', n') \<and>
      bufsend st' = [r] \<and>
      recv_step example_env r ?rst = Inr rst' \<and>
      tris rst' = [inner_tri 20 1, plane_tri 20 (1 / 4) 1, plane_tri 20 (3 / 4) 1]"
    using s e(4,5) er
    by (intro exI [of _ st'] exI [of _ n'] exI [of _ r] exI [of _ rst'])
       (simp add: plane_tri_def)
  from h(1) e(1-3) h(15) h(17) h(18) e(4) er(1) x show ?thesis
    by simp
qed


subsection \<open>The whole procedure on the examples\<close>

text \<open>
  The procedure is run from the tally to the compaction on each example.  A pair
  whose normal points into the other cell moves there; a pair whose normal points
  into its own cell stays; two pairs on one face are all deleted; a face with one
  triangle stops the run; between two processes the pair is deleted by the sender
  and adopted by the receiver.  In the last example the pair to delete holds the
  highest index of the store of the sender: the compaction then looks for the
  triangle it would move in the list of the owning cell, from which the pair has
  been removed, and the run stops with the error of the triangle not found.
\<close>

lemma cleanup_example_move:
  "summary (cleanup_MC example_env [example_move]) = Inr [([[2], [0, 1]], [20, 20, 10])]"
  unfolding cleanup_MC_def Let_def list.map tally_example_move
  by (simp add: cleanup_defs eval_defs)

lemma cleanup_example_keep:
  "summary (cleanup_MC example_env [example_keep]) = Inr [([[0, 1, 2], []], [10, 10, 10])]"
  unfolding cleanup_MC_def Let_def list.map tally_example_keep
  by (simp add: cleanup_defs eval_defs)

lemma cleanup_example_both:
  "summary (cleanup_MC example_env [example_both]) = Inr [([[], [0]], [20])]"
  unfolding cleanup_MC_def Let_def list.map tally_example_both
  by (simp add: cleanup_defs eval_defs)

lemma cleanup_example_single:
  "cleanup_MC example_env [example_single] = Inl NonPairedFace"
  unfolding cleanup_MC_def Let_def list.map tally_example_single
  by (simp add: cleanup_defs eval_defs)



section \<open>The compaction of the store and the whole cleanup\<close>

text \<open>The stages of the cleanup.\<close>

lemma cleanup_MC_stages:
  "cleanup_MC env sts =
     (case pairing_check (map (tally env) sts) of
        Inl e \<Rightarrow> Inl e
      | Inr u \<Rightarrow>
          (case after_exchange env sts of
             Inl e \<Rightarrow> Inl e
           | Inr sts \<Rightarrow> all_procs compress sts))"
  by (simp add: cleanup_MC_def cleanup_after_check_def after_exchange_def after_faces_def
      Let_def split: sum.splits)

text \<open>
  The compaction takes the deleted triangles in descending order of their indices.
  For each one it copies the last triangle of the store into the free slot and then
  looks, in the list of the cell that owns the copied triangle, for the entry that
  points to the last slot.  When the deleted triangle is itself the last triangle
  of the store, the triangle in the slot is the deleted one: the cleanup has taken
  it out of the list of its cell, the entry is not found, and the run stops with
  the error.
\<close>

lemma compress_step_last:
  assumes "m = nslocal - 1" and "m < length (tris st)"
    and "grid_hash st (tri_id (tris st ! m)) - 1 = int icell"
    and "m \<notin> set (surfs (cells st ! icell))"
    and "nsurf (cells st ! icell) \<le> length (csurfs (cells st ! icell))"
  shows "compress_step m (st, nslocal) = Inl MovedTriNotFound"
proof -
  have "find_surf (csurfs (cells st ! icell)) (nsurf (cells st ! icell)) m =
      nsurf (cells st ! icell)"
    using takeWhile_neq_notmem [OF assms(4) [unfolded surfs_def]] assms(5)
    by (simp add: find_surf_def)
  then show ?thesis
    using assms(1-3) by (simp add: compress_step_def Let_def)
qed

lemma sorted_le_last:
  assumes "sorted xs" and "x \<in> set xs"
  shows "x \<le> last xs"
  using assms by (induction xs) auto

lemma rev_sort_greatest:
  fixes m :: nat
  assumes "m \<in> set xs" and "\<forall>x \<in> set xs. x \<le> m"
  shows "\<exists>ys. rev (sort xs) = m # ys"
proof -
  from assms(1) have "set (sort xs) \<noteq> {}" by auto
  then have ne: "sort xs \<noteq> []" by (simp only: set_empty) simp
  then have l: "last (sort xs) \<in> set xs"
    using last_in_set [of "sort xs"] by simp
  have "m \<le> last (sort xs)"
    using sorted_le_last [of "sort xs" m] assms(1) by simp
  with l assms(2) have "last (sort xs) = m" by force
  with ne have "rev (sort xs) = m # rev (butlast (sort xs))"
    by (metis append_butlast_last_id rev_append rev.simps append_Cons append_Nil)
  then show ?thesis ..
qed

lemma compress_last_deleted:
  assumes "m \<in> set (dellist st)" and "\<forall>x \<in> set (dellist st). x \<le> m"
    and "Suc m = length (tris st)"
    and "grid_hash st (tri_id (tris st ! m)) - 1 = int icell"
    and "m \<notin> set (surfs (cells st ! icell))"
    and "nsurf (cells st ! icell) \<le> length (csurfs (cells st ! icell))"
  shows "compress st = Inl MovedTriNotFound"
proof -
  from rev_sort_greatest [OF assms(1,2)] obtain ys where r: "rev (sort (dellist st)) = m # ys" ..
  have "compress_step m (st, length (tris st)) = Inl MovedTriNotFound"
    using assms(3) by (intro compress_step_last [OF _ _ assms(4-6)]) simp_all
  then show ?thesis
    by (simp add: compress_def r)
qed

text \<open>
  C1.  On a face shared by two cells of one process, a pair of triangles is to end
  up with the cell into which its normal points, and when both cells have a pair on
  the face all four triangles are to be deleted.  The loop over the faces does
  this: a pair whose normal points into its own cell stays, a pair whose normal
  points into the other cell moves there and gets the ID of that cell, and two
  pairs leave the lists of their cells and are entered in the list of deletions.
  The deletion itself is the compaction at the end, and it fails when the last
  triangle of the store is among the deleted ones.  In the fourth example the store
  holds the two pairs and nothing else: the run stops with the error that the moved
  triangle was not found, and no triangle is deleted.  With one more triangle
  behind the two pairs in the store the four triangles are deleted.
\<close>

theorem same_process_cleanup_run:
  "summary (cleanup_MC example_env [example_keep]) = Inr [([[0, 1, 2], []], [10, 10, 10])] \<and>
   summary (cleanup_MC example_env [example_move]) = Inr [([[2], [0, 1]], [20, 20, 10])] \<and>
   summary (cleanup_MC example_env [example_both]) = Inr [([[], [0]], [20])] \<and>
   stage_view (after_faces example_env [example_shared]) =
     Inr [([[], []], [0, 1, 2, 3], [10, 10, 20, 20], [])] \<and>
   stage_view (after_exchange example_env [example_shared]) =
     Inr [([[], []], [0, 1, 2, 3], [10, 10, 20, 20], [])] \<and>
   cleanup_MC example_env [example_shared] = Inl MovedTriNotFound"
proof -
  have 1: "stage_view (after_faces example_env [example_shared]) =
     Inr [([[], []], [0, 1, 2, 3], [10, 10, 20, 20], [])]"
    unfolding after_faces_def list.map tally_example_shared
    by (simp add: cleanup_defs eval_defs)
  have 2: "stage_view (after_exchange example_env [example_shared]) =
     Inr [([[], []], [0, 1, 2, 3], [10, 10, 20, 20], [])]"
    unfolding after_exchange_def after_faces_def list.map tally_example_shared
    by (simp add: cleanup_defs eval_defs)
  have 3: "cleanup_MC example_env [example_shared] = Inl MovedTriNotFound"
    unfolding cleanup_MC_def Let_def list.map tally_example_shared
    by (simp add: cleanup_defs eval_defs)
  show ?thesis
    by (intro conjI) (rule cleanup_example_keep cleanup_example_move cleanup_example_both 1 2 3)+
qed

end
